(* ===== verification/Prelude.thy ===== *)
theory Prelude
  imports Main "HOL-Library.Word" "HOL-Library.Char_ord" "HOL-Library.List_Lexorder"
begin

text \<open>
  Shared vocabulary of the development: the model of the parts of Rust's standard library that
  the server's source uses (string slices, integer parsing and printing, saturating and checked
  arithmetic), the result type of fallible code with the state it threads, the collections of
  rewrite rules, and the generic lemmas the component theories share.

  Text. A Rust \<^verbatim>\<open>str\<close> is a list of Unicode scalar values; HOL's \<open>char\<close> is the fragment U+0000 to
  U+00FF of them. Every operation below is the operation on scalar values (as
  \<^verbatim>\<open>str::chars\<close> sees them), so that whitespace includes U+0085 and U+00A0 and a wildcard matches one
  scalar value; \<open>str_len\<close>, the only place where the encoding shows, counts UTF-8 bytes.
\<close>

subsection \<open>Rule collections\<close>

named_theorems result_simps "evaluation rules of the result and state types"
named_theorems str_simps "evaluation rules of the string operations"

subsection \<open>Errors and fallible state transformers\<close>

text \<open>
  \<open>error\<close> is the model of \<^verbatim>\<open>anyhow::Error\<close>: \<open>Anyhow m\<close> is an error the source makes with a fixed
  message \<open>m\<close>, \<open>Database\<close> a failed SQL statement, \<open>Json\<close> a failed deserialisation, \<open>Io\<close> a failed read
  or write of a socket, \<open>ParseInt\<close> a failed \<^verbatim>\<open>str::parse\<close> of an integer. \<open>Panic\<close> is not an error value in the source but a panic, which no handler of errors
  sees: code that recovers from errors passes it on.
\<close>

datatype error = Anyhow string | Database | Json | Io | ParseInt | Panic

type_synonym 'a result = "error + 'a"

text \<open>A fallible state transformer returns an error of type \<open>'e\<close> or a value, and the state it leaves in
  either case; an \<open>action\<close> is one that fails with \<open>error\<close>.\<close>

type_synonym ('e, 's, 'a) fallible = "'s \<Rightarrow> ('e + 'a) \<times> 's"

type_synonym ('s, 'a) action = "(error, 's, 'a) fallible"

definition ret :: "'a \<Rightarrow> ('e, 's, 'a) fallible" where
  "ret x s = (Inr x, s)"

definition throw :: "'e \<Rightarrow> ('e, 's, 'a) fallible" where
  "throw e s = (Inl e, s)"

text \<open>Sequencing with the \<^verbatim>\<open>?\<close> operator: an error ends the computation, and the state changes made
  so far stay.\<close>

definition bind_res ::
  "('e, 's, 'a) fallible \<Rightarrow> ('a \<Rightarrow> ('e, 's, 'b) fallible) \<Rightarrow> ('e, 's, 'b) fallible" where
  "bind_res m k s = (case m s of (Inl e, s') \<Rightarrow> (Inl e, s') | (Inr x, s') \<Rightarrow> k x s')"

primrec is_ok :: "'e + 'a \<Rightarrow> bool" where
  "is_ok (Inl e) = False"
| "is_ok (Inr x) = True"

lemma ret_simp [result_simps, simp]: "ret x s = (Inr x, s)"
  by (simp add: ret_def)

lemma throw_simp [result_simps, simp]: "throw e s = (Inl e, s)"
  by (simp add: throw_def)

lemma bind_res_Inl [result_simps]: "m s = (Inl e, s') \<Longrightarrow> bind_res m k s = (Inl e, s')"
  by (simp add: bind_res_def)

lemma bind_res_Inr [result_simps]: "m s = (Inr x, s') \<Longrightarrow> bind_res m k s = k x s'"
  by (simp add: bind_res_def)

lemma bind_res_ret [result_simps, simp]: "bind_res (ret x) k = k x"
  by (simp add: bind_res_def fun_eq_iff)

lemma bind_res_throw [result_simps, simp]: "bind_res (throw e) k = throw e"
  by (simp add: bind_res_def fun_eq_iff)

lemma bind_res_okE:
  assumes "bind_res m k s = (Inr y, t)"
  obtains x s' where "m s = (Inr x, s')" and "k x s' = (Inr y, t)"
  using assms by (auto simp: bind_res_def split: prod.splits sum.splits)

lemma outcomeI: "fst p = r \<Longrightarrow> p = (r, snd p)"
  by auto

text \<open>The rule behind every invariant of a fallible transformer: what the first part keeps whatever
  its outcome, and the second keeps from any state the first can leave, the whole keeps.\<close>

lemma bind_res_inv:
  assumes "P (snd (m s))" and "\<And>x s'. m s = (Inr x, s') \<Longrightarrow> P s' \<Longrightarrow> P (snd (k x s'))"
  shows "P (snd (bind_res m k s))"
  using assms by (auto simp: bind_res_def split: prod.splits sum.splits)

text \<open>A \<^verbatim>\<open>for\<close> loop whose body may fail with \<^verbatim>\<open>?\<close>.\<close>

fun for_each :: "('a \<Rightarrow> ('e, 's, unit) fallible) \<Rightarrow> 'a list \<Rightarrow> ('e, 's, unit) fallible" where
  "for_each f [] s = (Inr (), s)"
| "for_each f (x # xs) s = bind_res (f x) (\<lambda>_. for_each f xs) s"

lemma for_each_inv:
  assumes "\<And>x s. x \<in> set xs \<Longrightarrow> P s \<Longrightarrow> P (snd (f x s))" and "P s"
  shows "P (snd (for_each f xs s))"
  using assms
proof (induction xs arbitrary: s)
  case Nil
  then show ?case by simp
next
  case (Cons x xs)
  have "P (snd (f x s))" using Cons.prems by simp
  then have "P (snd (bind_res (f x) (\<lambda>_. for_each f xs) s))"
  proof (rule bind_res_inv)
    fix y s' assume "P s'"
    with Cons.prems(1) show "P (snd (for_each f xs s'))" by (intro Cons.IH) simp_all
  qed
  then show ?case by simp
qed

subsection \<open>Invariants of fallible state transformers\<close>

text \<open>\<open>keeps P m\<close>: whether \<open>m\<close> succeeds or fails, it leaves a state with \<open>P\<close> when it starts in one. The rules in
  \<open>keeps_intros\<close> follow the structure of a transformer, so that an operation keeps an invariant because
  each of its statements does.\<close>

named_theorems keeps_intros "structural rules for keeps"

definition keeps :: "('s \<Rightarrow> bool) \<Rightarrow> ('e, 's, 'a) fallible \<Rightarrow> bool" where
  "keeps P m \<longleftrightarrow> (\<forall>s. P s \<longrightarrow> P (snd (m s)))"

lemma keepsI: "(\<And>s. P s \<Longrightarrow> P (snd (m s))) \<Longrightarrow> keeps P m"
  by (simp add: keeps_def)

lemma keepsD: "keeps P m \<Longrightarrow> P s \<Longrightarrow> P (snd (m s))"
  by (simp add: keeps_def)

lemma keepsD': "keeps P m \<Longrightarrow> m s = (r, s') \<Longrightarrow> P s \<Longrightarrow> P s'"
  using keepsD by fastforce

lemma keeps_ret [keeps_intros, intro!, simp]: "keeps P (ret x)"
  by (simp add: keeps_def)

lemma keeps_throw [keeps_intros, intro!, simp]: "keeps P (throw e)"
  by (simp add: keeps_def)

lemma keeps_bind_val:
  assumes "keeps P m" and "\<And>x s s'. P s \<Longrightarrow> m s = (Inr x, s') \<Longrightarrow> keeps P (k x)"
  shows "keeps P (bind_res m k)"
proof (rule keepsI, rule bind_res_inv)
  fix s assume "P s"
  with assms(1) show "P (snd (m s))" by (rule keepsD)
  fix x s' assume "m s = (Inr x, s')" and "P s'"
  with assms(2) [OF \<open>P s\<close>] show "P (snd (k x s'))" by (simp add: keeps_def)
qed

lemma keeps_bind [keeps_intros]:
  "keeps P m \<Longrightarrow> (\<And>x. keeps P (k x)) \<Longrightarrow> keeps P (bind_res m k)"
  by (rule keeps_bind_val)

lemma keeps_for_each [keeps_intros]:
  "(\<And>x. x \<in> set xs \<Longrightarrow> keeps P (f x)) \<Longrightarrow> keeps P (for_each f xs)"
  by (rule keepsI, rule for_each_inv) (auto simp: keeps_def)

lemma keeps_if [keeps_intros]:
  "(b \<Longrightarrow> keeps P m) \<Longrightarrow> (\<not> b \<Longrightarrow> keeps P n) \<Longrightarrow> keeps P (if b then m else n)"
  by simp

lemma keeps_option [keeps_intros]:
  "keeps P m \<Longrightarrow> (\<And>x. v = Some x \<Longrightarrow> keeps P (f x)) \<Longrightarrow>
   keeps P (case v of None \<Rightarrow> m | Some x \<Rightarrow> f x)"
  by (cases v) auto

lemma keeps_prod [keeps_intros]:
  "(\<And>x y. v = (x, y) \<Longrightarrow> keeps P (f x y)) \<Longrightarrow> keeps P (case v of (x, y) \<Rightarrow> f x y)"
  by (cases v) auto

lemma keeps_sum [keeps_intros]:
  "(\<And>x. v = Inl x \<Longrightarrow> keeps P (f x)) \<Longrightarrow> (\<And>y. v = Inr y \<Longrightarrow> keeps P (g y)) \<Longrightarrow>
   keeps P (case v of Inl x \<Rightarrow> f x | Inr y \<Rightarrow> g y)"
  by (cases v) auto

lemma keeps_conj: "keeps P m \<Longrightarrow> keeps Q m \<Longrightarrow> keeps (\<lambda>s. P s \<and> Q s) m"
  by (simp add: keeps_def)

subsection \<open>Steps along a relation\<close>

text \<open>\<open>moves R m\<close>: whatever the outcome, \<open>m\<close> leaves a state that is \<open>R\<close>-related to the one it starts in. For a
  reflexive and transitive \<open>R\<close> it follows from the parts.\<close>

named_theorems moves_intros "structural rules for moves"

definition moves :: "('s \<Rightarrow> 's \<Rightarrow> bool) \<Rightarrow> ('e, 's, 'a) fallible \<Rightarrow> bool" where
  "moves R m \<longleftrightarrow> (\<forall>s. R s (snd (m s)))"

lemma movesD: "moves R m \<Longrightarrow> m s = (r, s') \<Longrightarrow> R s s'"
  by (metis moves_def snd_conv)

lemma moves_ret [moves_intros]: "reflp R \<Longrightarrow> moves R (ret x)"
  by (simp add: moves_def reflp_def)

lemma moves_throw [moves_intros]: "reflp R \<Longrightarrow> moves R (throw e)"
  by (simp add: moves_def reflp_def)

lemma moves_bind [moves_intros]:
  assumes "transp R" and "moves R m" and "\<And>x. moves R (k x)"
  shows "moves R (bind_res m k)"
  unfolding moves_def
proof
  fix s
  obtain r s' where m: "m s = (r, s')" by fastforce
  have "R s s'" using movesD [OF assms(2) m] .
  moreover have "R s' (snd (k x s'))" for x using assms(3) by (simp add: moves_def)
  ultimately show "R s (snd (bind_res m k s))"
    using transpD [OF assms(1)] m by (cases r) (auto simp: bind_res_def)
qed

lemma moves_if [moves_intros]: "moves R m \<Longrightarrow> moves R n \<Longrightarrow> moves R (if b then m else n)"
  by simp

lemma moves_option [moves_intros]:
  "moves R m \<Longrightarrow> (\<And>x. moves R (f x)) \<Longrightarrow> moves R (case v of None \<Rightarrow> m | Some x \<Rightarrow> f x)"
  by (cases v) auto

lemma moves_prod [moves_intros]:
  "(\<And>x y. moves R (f x y)) \<Longrightarrow> moves R (case v of (x, y) \<Rightarrow> f x y)"
  by (cases v) auto

lemma moves_for_each [moves_intros]:
  assumes "reflp R" and "transp R" and "\<And>x. moves R (f x)"
  shows "moves R (for_each f xs)"
proof (induction xs)
  case Nil
  then show ?case using assms(1) by (simp add: moves_def reflp_def)
next
  case (Cons x xs)
  have "moves R (bind_res (f x) (\<lambda>_. for_each f xs))"
    using assms Cons by (intro moves_bind) auto
  then show ?case by (simp add: moves_def)
qed

lemma for_each_ok:
  assumes "reflp R" and "transp R" and "\<And>x. moves R (f x)" and "for_each f xs s = (Inr (), s')"
    and "x \<in> set xs"
  shows "\<exists>t t'. R s t \<and> f x t = (Inr (), t')"
  using assms(4,5)
proof (induction xs arbitrary: s)
  case (Cons y ys)
  from Cons.prems(1) obtain s1 where 1: "f y s = (Inr (), s1)" and 2: "for_each f ys s1 = (Inr (), s')"
    by (auto elim: bind_res_okE)
  show ?case
  proof (cases "x = y")
    case True
    with 1 assms(1) show ?thesis by (auto simp: reflp_def)
  next
    case False
    with Cons.IH [OF 2] Cons.prems(2) obtain t t' where "R s1 t" "f x t = (Inr (), t')" by auto
    with movesD [OF assms(3) 1] show ?thesis using transpD [OF assms(2)] by blast
  qed
qed simp

subsection \<open>Rows of a table\<close>

lemma find_filter_unique:
  assumes "distinct (map key xs)"
  shows "List.find (\<lambda>r. key r = i) (filter P xs) =
           (case List.find (\<lambda>r. key r = i) xs of
              None \<Rightarrow> None | Some r \<Rightarrow> if P r then Some r else None)"
  using assms
proof (induction xs)
  case (Cons x xs)
  show ?case
  proof (cases "key x = i \<and> \<not> P x")
    case True
    with Cons.prems have "\<And>r. r \<in> set xs \<Longrightarrow> key r \<noteq> i"
      by (metis distinct.simps(2) imageI list.set_map list.simps(9))
    then have "List.find (\<lambda>r. key r = i) (filter P xs) = None"
      by (auto simp: find_None_iff)
    with True show ?thesis by simp
  next
    case False
    with Cons show ?thesis by auto
  qed
qed simp

lemma find_append: "List.find P (xs @ ys) = (case List.find P xs of None \<Rightarrow> List.find P ys | r \<Rightarrow> r)"
  by (induction xs) auto

lemma find_unique:
  "distinct (map key xs) \<Longrightarrow> r \<in> set xs \<Longrightarrow> List.find (\<lambda>r'. key r' = key r) xs = Some r"
  by (induction xs) auto

lemma find_SomeD: "List.find P xs = Some r \<Longrightarrow> r \<in> set xs \<and> P r"
  by (auto simp: find_Some_iff in_set_conv_nth)

subsection \<open>Machine integers\<close>

type_synonym u64 = "64 word"
type_synonym u32 = "32 word"
type_synonym u16 = "16 word"
type_synonym u8 = "8 word"

definition saturating_add :: "u64 \<Rightarrow> u64 \<Rightarrow> u64" where
  "saturating_add a b = (if unat a + unat b < 2 ^ 64 then a + b else - 1)"

definition checked_mul :: "u64 \<Rightarrow> u64 \<Rightarrow> u64 option" where
  "checked_mul a b = (if unat a * unat b < 2 ^ 64 then Some (a * b) else None)"

lemma unat_max_u64: "unat (- 1 :: u64) = 2 ^ 64 - 1"
  by (simp add: unsigned_minus_1_eq_mask mask_eq_exp_minus_1)

lemma unat_saturating_add: "unat (saturating_add a b) = min (unat a + unat b) (2 ^ 64 - 1)"
  by (auto simp: saturating_add_def unat_word_ariths unat_max_u64 min_def)

lemma unat_checked_mul: "checked_mul a b = Some c \<Longrightarrow> unat c = unat a * unat b"
  by (auto simp: checked_mul_def unat_word_ariths split: if_splits)

lemma checked_mul_None: "checked_mul a b = None \<longleftrightarrow> 2 ^ 64 \<le> unat a * unat b"
  by (auto simp: checked_mul_def)

end
