(* ===== verification/Text.thy ===== *)
theory Text
  imports Prelude
begin

text \<open>
  The operations of \<^verbatim>\<open>char\<close> and \<^verbatim>\<open>str\<close> that the source calls, under their Rust names with the prefix
  \<open>str_\<close> where HOL has the bare name: character classes, trimming, splitting, \<^verbatim>\<open>lines\<close>, and the parsing
  and printing of decimal integers, with the lemmas the parsers and the handlers share.
\<close>

subsection \<open>Characters\<close>

abbreviation LF :: char where "LF \<equiv> CHR 0x0A"
abbreviation CR :: char where "CR \<equiv> CHR 0x0D"
abbreviation TAB :: char where "TAB \<equiv> CHR 0x09"
abbreviation DQUOTE :: char where "DQUOTE \<equiv> CHR 0x22"
abbreviation BSLASH :: char where "BSLASH \<equiv> CHR 0x5C"
abbreviation CRLF :: string where "CRLF \<equiv> [CR, LF]"

definition char_code :: "char \<Rightarrow> nat" where
  "char_code c = of_char c"

definition is_ascii_digit :: "char \<Rightarrow> bool" where
  "is_ascii_digit c \<longleftrightarrow> 48 \<le> char_code c \<and> char_code c \<le> 57"

definition is_ascii_uppercase :: "char \<Rightarrow> bool" where
  "is_ascii_uppercase c \<longleftrightarrow> 65 \<le> char_code c \<and> char_code c \<le> 90"

definition is_ascii_lowercase :: "char \<Rightarrow> bool" where
  "is_ascii_lowercase c \<longleftrightarrow> 97 \<le> char_code c \<and> char_code c \<le> 122"

definition is_ascii_alphabetic :: "char \<Rightarrow> bool" where
  "is_ascii_alphabetic c \<longleftrightarrow> is_ascii_uppercase c \<or> is_ascii_lowercase c"

definition is_ascii_alphanumeric :: "char \<Rightarrow> bool" where
  "is_ascii_alphanumeric c \<longleftrightarrow> is_ascii_alphabetic c \<or> is_ascii_digit c"

text \<open>The Unicode property \<^verbatim>\<open>White_Space\<close> on U+0000 to U+00FF.\<close>

definition is_whitespace :: "char \<Rightarrow> bool" where
  "is_whitespace c \<longleftrightarrow>
     (9 \<le> char_code c \<and> char_code c \<le> 13) \<or> char_code c \<in> {32, 133, 160}"

definition char_to_upper :: "char \<Rightarrow> char" where
  "char_to_upper c = (if is_ascii_lowercase c then char_of (char_code c - 32) else c)"

definition char_to_lower :: "char \<Rightarrow> char" where
  "char_to_lower c = (if is_ascii_uppercase c then char_of (char_code c + 32) else c)"

definition len_utf8 :: "char \<Rightarrow> nat" where
  "len_utf8 c = (if char_code c < 128 then 1 else 2)"

lemma char_code_char_of [simp]: "n < 256 \<Longrightarrow> char_code (char_of n) = n"
  by (simp add: char_code_def)

lemma char_code_inject [simp]: "char_code a = char_code b \<longleftrightarrow> a = b"
  by (simp add: char_code_def)

lemma char_code_less: "char_code c < 256"
proof -
  have "(of_char c :: nat) \<in> {0..<256}"
    unfolding UNIV_char_of_nat [symmetric] by (metis nat_of_char_less_256 atLeastLessThan_iff zero_le)
  then show ?thesis by (simp add: char_code_def)
qed

subsection \<open>Case\<close>

definition to_ascii_uppercase :: "string \<Rightarrow> string" where
  "to_ascii_uppercase = map char_to_upper"

definition to_ascii_lowercase :: "string \<Rightarrow> string" where
  "to_ascii_lowercase = map char_to_lower"

definition eq_ignore_ascii_case :: "string \<Rightarrow> string \<Rightarrow> bool" where
  "eq_ignore_ascii_case a b \<longleftrightarrow> to_ascii_lowercase a = to_ascii_lowercase b"

lemma eq_ignore_ascii_case_refl [simp]: "eq_ignore_ascii_case a a"
  by (simp add: eq_ignore_ascii_case_def)

lemma eq_ignore_ascii_case_sym: "eq_ignore_ascii_case a b \<Longrightarrow> eq_ignore_ascii_case b a"
  by (simp add: eq_ignore_ascii_case_def)

lemma eq_ignore_ascii_case_trans:
  "eq_ignore_ascii_case a b \<Longrightarrow> eq_ignore_ascii_case b c \<Longrightarrow> eq_ignore_ascii_case a c"
  by (simp add: eq_ignore_ascii_case_def)

lemma char_to_upper_idem [simp]: "char_to_upper (char_to_upper c) = char_to_upper c"
  by (auto simp: char_to_upper_def is_ascii_lowercase_def)

lemma to_ascii_uppercase_idem [simp]:
  "to_ascii_uppercase (to_ascii_uppercase s) = to_ascii_uppercase s"
  by (simp add: to_ascii_uppercase_def)

subsection \<open>Length, prefixes, suffixes, trimming\<close>

definition str_len :: "string \<Rightarrow> nat" where
  "str_len s = sum_list (map len_utf8 s)"

definition starts_with :: "string \<Rightarrow> string \<Rightarrow> bool" where
  "starts_with s p \<longleftrightarrow> take (length p) s = p"

definition ends_with :: "string \<Rightarrow> string \<Rightarrow> bool" where
  "ends_with s p \<longleftrightarrow> drop (length s - length p) s = p"

definition strip_prefix :: "string \<Rightarrow> string \<Rightarrow> string option" where
  "strip_prefix s p = (if starts_with s p then Some (drop (length p) s) else None)"

definition trim_start_matches :: "(char \<Rightarrow> bool) \<Rightarrow> string \<Rightarrow> string" where
  "trim_start_matches p s = dropWhile p s"

definition trim_end_matches :: "(char \<Rightarrow> bool) \<Rightarrow> string \<Rightarrow> string" where
  "trim_end_matches p s = rev (dropWhile p (rev s))"

definition trim_matches :: "(char \<Rightarrow> bool) \<Rightarrow> string \<Rightarrow> string" where
  "trim_matches p s = trim_end_matches p (trim_start_matches p s)"

definition str_trim :: "string \<Rightarrow> string" where
  "str_trim s = trim_matches is_whitespace s"

definition str_trim_end :: "string \<Rightarrow> string" where
  "str_trim_end s = trim_end_matches is_whitespace s"

lemma str_len_append [simp]: "str_len (a @ b) = str_len a + str_len b"
  by (simp add: str_len_def)

lemma str_len_Nil [simp]: "str_len [] = 0"
  by (simp add: str_len_def)

lemma starts_with_append [simp]: "starts_with (p @ s) p"
  by (simp add: starts_with_def)

lemma starts_with_singleton: "starts_with s [c] \<longleftrightarrow> (\<exists>r. s = c # r)"
  by (cases s) (auto simp: starts_with_def)

lemma ends_with_append [simp]: "ends_with (s @ p) p"
  by (simp add: ends_with_def)

lemma ends_with_singleton: "ends_with s [c] \<longleftrightarrow> (\<exists>r. s = r @ [c])"
  by (cases s rule: rev_cases) (auto simp: ends_with_def)

lemma trim_end_matches_id: "s \<noteq> [] \<Longrightarrow> \<not> p (last s) \<Longrightarrow> trim_end_matches p s = s"
  by (cases s rule: rev_cases) (auto simp: trim_end_matches_def)

lemma trim_matches_id:
  "s \<noteq> [] \<Longrightarrow> \<not> p (hd s) \<Longrightarrow> \<not> p (last s) \<Longrightarrow> trim_matches p s = s"
  by (cases s) (auto simp: trim_matches_def trim_start_matches_def trim_end_matches_id)

lemma trim_end_matches_last:
  "trim_end_matches p s \<noteq> [] \<Longrightarrow> \<not> p (last (trim_end_matches p s))"
  by (simp add: trim_end_matches_def last_rev hd_dropWhile)

lemma set_trim_end_matches: "set (trim_end_matches p s) \<subseteq> set s"
  by (auto simp: trim_end_matches_def dest: set_dropWhileD)

lemma set_trim_matches: "set (trim_matches p s) \<subseteq> set s"
  using set_trim_end_matches [of p "dropWhile p s"]
  by (auto simp: trim_matches_def trim_start_matches_def dest: set_dropWhileD)

subsection \<open>Splitting\<close>

definition split_once :: "char \<Rightarrow> string \<Rightarrow> (string \<times> string) option" where
  "split_once c s =
     (if c \<in> set s then Some (takeWhile (\<lambda>x. x \<noteq> c) s, tl (dropWhile (\<lambda>x. x \<noteq> c) s)) else None)"

definition rsplit_once :: "char \<Rightarrow> string \<Rightarrow> (string \<times> string) option" where
  "rsplit_once c s =
     (case split_once c (rev s) of None \<Rightarrow> None | Some (b, a) \<Rightarrow> Some (rev a, rev b))"

fun split_on :: "(char \<Rightarrow> bool) \<Rightarrow> string \<Rightarrow> string list" where
  "split_on p [] = [[]]"
| "split_on p (x # xs) =
     (if p x then [] # split_on p xs
      else (case split_on p xs of [] \<Rightarrow> [[x]] | w # ws \<Rightarrow> (x # w) # ws))"

definition str_split :: "char \<Rightarrow> string \<Rightarrow> string list" where
  "str_split c s = split_on (\<lambda>x. x = c) s"

definition split_whitespace :: "string \<Rightarrow> string list" where
  "split_whitespace s = filter (\<lambda>w. w \<noteq> []) (split_on is_whitespace s)"

fun join :: "string \<Rightarrow> string list \<Rightarrow> string" where
  "join sep [] = []"
| "join sep [w] = w"
| "join sep (w # ws) = w @ sep @ join sep ws"

lemma split_once_append:
  "c \<notin> set a \<Longrightarrow> split_once c (a @ c # b) = Some (a, b)"
  by (simp add: split_once_def takeWhile_tail dropWhile_append)

lemma split_once_None: "split_once c s = None \<longleftrightarrow> c \<notin> set s"
  by (simp add: split_once_def)

lemma split_once_Some: "split_once c s = Some (a, b) \<Longrightarrow> s = a @ c # b \<and> c \<notin> set a"
proof -
  assume a: "split_once c s = Some (a, b)"
  then have "c \<in> set s" by (auto simp: split_once_def split: if_splits)
  then obtain u v where "s = u @ c # v" "c \<notin> set u"
    by (metis split_list_first)
  with a show ?thesis by (simp add: split_once_append)
qed

lemma rsplit_once_append:
  "c \<notin> set b \<Longrightarrow> rsplit_once c (a @ c # b) = Some (a, b)"
  by (simp add: rsplit_once_def split_once_append)

lemma rsplit_once_None: "rsplit_once c s = None \<longleftrightarrow> c \<notin> set s"
  by (auto simp: rsplit_once_def split: option.splits prod.splits)
     (metis option.distinct(1) set_rev split_once_None)+

lemma split_on_ne [simp]: "split_on p s \<noteq> []"
  by (induction s) (auto split: list.splits)

lemma split_on_no_sep: "w \<in> set (split_on p s) \<Longrightarrow> x \<in> set w \<Longrightarrow> \<not> p x \<and> x \<in> set s"
proof (induction s arbitrary: w)
  case (Cons a s)
  then show ?case by (fastforce split: if_splits list.splits)
qed simp

lemma split_on_id: "(\<And>x. x \<in> set s \<Longrightarrow> \<not> p x) \<Longrightarrow> split_on p s = [s]"
  by (induction s) auto

lemma split_on_append_sep:
  "p c \<Longrightarrow> (\<And>x. x \<in> set a \<Longrightarrow> \<not> p x) \<Longrightarrow> split_on p (a @ c # b) = a # split_on p b"
  by (induction a) auto

lemma str_split_join:
  assumes "ws \<noteq> []" and "\<And>w. w \<in> set ws \<Longrightarrow> c \<notin> set w"
  shows "str_split c (join [c] ws) = ws"
  using assms
proof (induction ws rule: induct_list012)
  case 1
  then show ?case by simp
next
  case (2 w)
  then show ?case by (auto simp: str_split_def intro!: split_on_id)
next
  case (3 w v ws)
  then have "str_split c (join [c] (v # ws)) = v # ws" and "c \<notin> set w" by auto
  then show ?case by (auto simp: str_split_def intro: trans [OF split_on_append_sep])
qed

subsection \<open>Lines\<close>

text \<open>One \<^verbatim>\<open>read_line\<close>: the text up to and including the first line feed, or all of it.\<close>

fun take_line :: "string \<Rightarrow> string \<times> string" where
  "take_line [] = ([], [])"
| "take_line (c # cs) = (if c = LF then ([c], cs) else let (l, r) = take_line cs in (c # l, r))"

lemma take_line_append: "take_line s = (l, r) \<Longrightarrow> l @ r = s"
  by (induction s arbitrary: l r) (auto split: if_splits prod.splits)

lemma take_line_Nil [simp]: "take_line s = ([], r) \<longleftrightarrow> s = [] \<and> r = []"
  by (cases s) (auto split: prod.splits)

lemma take_line_rest_less: "take_line s = (l, r) \<Longrightarrow> s \<noteq> [] \<Longrightarrow> length r < length s"
  using take_line_append [of s l r] take_line_Nil [of s r] by (cases l) auto

lemma take_line_LF: "LF \<notin> set a \<Longrightarrow> take_line (a @ LF # b) = (a @ [LF], b)"
  by (induction a) auto

lemma take_line_no_LF: "LF \<notin> set a \<Longrightarrow> take_line a = (a, [])"
  by (induction a) auto

text \<open>\<^verbatim>\<open>str::split_inclusive('\n')\<close>.\<close>

function split_inclusive_LF :: "string \<Rightarrow> string list" where
  "split_inclusive_LF s =
     (if s = [] then [] else let (l, r) = take_line s in l # split_inclusive_LF r)"
  by pat_completeness auto
termination
  by (relation "measure length") (auto intro: take_line_rest_less [OF sym])

declare split_inclusive_LF.simps [simp del]

lemma split_inclusive_LF_Nil [simp]: "split_inclusive_LF [] = []"
  by (simp add: split_inclusive_LF.simps)

lemma split_inclusive_LF_step:
  "LF \<notin> set a \<Longrightarrow> split_inclusive_LF (a @ LF # b) = (a @ [LF]) # split_inclusive_LF b"
  by (subst split_inclusive_LF.simps) (simp add: take_line_LF)

lemma split_inclusive_LF_last:
  "LF \<notin> set a \<Longrightarrow> a \<noteq> [] \<Longrightarrow> split_inclusive_LF a = [a]"
  by (subst split_inclusive_LF.simps) (simp add: take_line_no_LF)

lemma concat_split_inclusive_LF [simp]: "concat (split_inclusive_LF s) = s"
proof (induction s rule: split_inclusive_LF.induct)
  case (1 s)
  then show ?case
    by (subst split_inclusive_LF.simps) (auto split: prod.splits dest: take_line_append)
qed

definition strip_eol :: "string \<Rightarrow> string" where
  "strip_eol l =
     (if ends_with l [LF]
      then (if ends_with (butlast l) [CR] then butlast (butlast l) else butlast l)
      else l)"

definition str_lines :: "string \<Rightarrow> string list" where
  "str_lines s = map strip_eol (split_inclusive_LF s)"

lemma take_line_inner: "take_line s = (l, r) \<Longrightarrow> LF \<notin> set (butlast l)"
  by (induction s arbitrary: l r) (auto split: if_splits prod.splits)

lemma take_line_no_end: "take_line s = (l, r) \<Longrightarrow> \<not> ends_with l [LF] \<Longrightarrow> LF \<notin> set l"
  by (induction s arbitrary: l r)
     (auto simp: ends_with_singleton split: if_splits prod.splits, metis append_Cons)

lemma strip_eol_no_LF: "take_line s = (l, r) \<Longrightarrow> LF \<notin> set (strip_eol l)"
  using take_line_inner [of s l r] take_line_no_end [of s l r]
  by (auto simp: strip_eol_def dest: in_set_butlastD)

lemma str_lines_Nil [simp]: "str_lines [] = []"
  by (simp add: str_lines_def)

lemma str_lines_step:
  assumes "s \<noteq> []" and "take_line s = (h, r)"
  shows "str_lines s = strip_eol h # str_lines r"
  unfolding str_lines_def by (subst split_inclusive_LF.simps) (simp add: assms)

lemma str_lines_no_LF: "l \<in> set (str_lines s) \<Longrightarrow> LF \<notin> set l"
proof (induction s arbitrary: l rule: split_inclusive_LF.induct)
  case (1 s)
  obtain h r where hr: "take_line s = (h, r)" by fastforce
  show ?case
  proof (cases "s = []")
    case True
    with "1.prems" show ?thesis by (simp add: str_lines_def)
  next
    case False
    with "1.prems" hr have "l = strip_eol h \<or> l \<in> set (str_lines r)"
      by (simp add: str_lines_step)
    then show ?thesis
      using "1.IH" [OF False hr [symmetric] refl] strip_eol_no_LF [OF hr] by blast
  qed
qed

lemma strip_eol_CRLF [simp]: "strip_eol (a @ [CR, LF]) = a"
proof -
  have "butlast (a @ [CR, LF]) = a @ [CR]" by (simp add: butlast_append)
  then show ?thesis by (simp add: strip_eol_def ends_with_singleton butlast_append)
qed

subsection \<open>Decimal integers\<close>

definition digit_char :: "nat \<Rightarrow> char" where
  "digit_char d = char_of (48 + d)"

definition digit_val :: "char \<Rightarrow> nat" where
  "digit_val c = char_code c - 48"

fun show_nat :: "nat \<Rightarrow> string" where
  "show_nat n = (if n < 10 then [digit_char n] else show_nat (n div 10) @ [digit_char (n mod 10)])"

declare show_nat.simps [simp del]

definition digits_val :: "string \<Rightarrow> nat" where
  "digits_val s = foldl (\<lambda>n c. 10 * n + digit_val c) 0 s"

text \<open>\<^verbatim>\<open>str::parse\<close> at an unsigned type of \<open>w\<close> bits: an optional plus sign and at least one digit.\<close>

definition parse_uint :: "nat \<Rightarrow> string \<Rightarrow> nat option" where
  "parse_uint w s =
     (let d = (if starts_with s [CHR 0x2B] then tl s else s)
      in if d \<noteq> [] \<and> list_all is_ascii_digit d \<and> digits_val d < 2 ^ w
         then Some (digits_val d) else None)"

text \<open>For evaluation: the same on integers, whose numerals are binary.\<close>

lemma int_foldl_digits:
  "int (foldl (\<lambda>n c. 10 * n + digit_val c) n s) = foldl (\<lambda>n c. 10 * n + int (digit_val c)) (int n) s"
  by (induction s arbitrary: n) simp_all

lemma parse_uint_code [code]:
  "parse_uint w s =
     (let d = (if starts_with s [CHR 0x2B] then tl s else s);
          n = foldl (\<lambda>n c. 10 * n + int (digit_val c)) 0 d
      in if d \<noteq> [] \<and> list_all is_ascii_digit d \<and> n < 2 ^ w then Some (nat n) else None)"
proof -
  have n: "foldl (\<lambda>n c. 10 * n + int (digit_val c)) 0 d = int (digits_val d)" for d
    using int_foldl_digits [of 0 d] by (simp add: digits_val_def)
  have "int m < 2 ^ w \<longleftrightarrow> m < 2 ^ w" for m
    by (metis of_nat_less_iff of_nat_numeral of_nat_power)
  then show ?thesis by (simp add: parse_uint_def Let_def n)
qed

lemma is_ascii_digit_digit_char [simp]: "d < 10 \<Longrightarrow> is_ascii_digit (digit_char d)"
  by (simp add: is_ascii_digit_def digit_char_def)

lemma digit_val_digit_char [simp]: "d < 10 \<Longrightarrow> digit_val (digit_char d) = d"
  by (simp add: digit_val_def digit_char_def)

lemma show_nat_digits: "c \<in> set (show_nat n) \<Longrightarrow> is_ascii_digit c"
proof (induction n rule: show_nat.induct)
  case (1 n)
  then show ?case by (subst (asm) show_nat.simps) (auto split: if_splits)
qed

lemma show_nat_ne [simp]: "show_nat n \<noteq> []"
  by (subst show_nat.simps) simp

lemma digits_val_snoc [simp]: "digits_val (s @ [c]) = 10 * digits_val s + digit_val c"
  by (simp add: digits_val_def)

lemma digits_val_show_nat [simp]: "digits_val (show_nat n) = n"
proof (induction n rule: show_nat.induct)
  case (1 n)
  then show ?case
    by (subst show_nat.simps) (auto simp: digits_val_def)
qed

lemma parse_uint_bound: "parse_uint w s = Some n \<Longrightarrow> n < 2 ^ w"
  by (auto simp: parse_uint_def Let_def split: if_splits)

lemma show_nat_no_plus: "\<not> starts_with (show_nat n) [CHR 0x2B]"
proof
  assume "starts_with (show_nat n) [CHR 0x2B]"
  then have "CHR 0x2B \<in> set (show_nat n)" by (auto simp: starts_with_singleton)
  then have "is_ascii_digit (CHR 0x2B)" by (rule show_nat_digits)
  then show False by (simp add: is_ascii_digit_def char_code_def)
qed

lemma parse_show_nat [simp]: "n < 2 ^ w \<Longrightarrow> parse_uint w (show_nat n) = Some n"
  by (simp add: parse_uint_def Let_def show_nat_no_plus list_all_iff show_nat_digits)

lemma show_nat_inject [simp]: "show_nat m = show_nat n \<longleftrightarrow> m = n"
  by (metis digits_val_show_nat)

text \<open>Two lower-case hexadecimal digits of a byte, the format \<^verbatim>\<open>{:02x}\<close>.\<close>

definition hex_digit :: "nat \<Rightarrow> char" where
  "hex_digit d = (if d < 10 then char_of (48 + d) else char_of (87 + d))"

definition hex_byte :: "u8 \<Rightarrow> string" where
  "hex_byte b = [hex_digit (unat b div 16), hex_digit (unat b mod 16)]"

end
