(* ===== verification/Externals.thy ===== *)
theory Externals
  imports Text
begin

text \<open>
  The third-party crates the server calls (nom, regex, serde_json, sha1/sha2, base64, the PGP
  library, argon2, chrono and the system clock) are not part of the repository. They are one record
  \<open>ext\<close> of functions, an argument \<open>X\<close> of every definition that uses them; a predicate per crate
  (\<open>nom_ok\<close>, \<open>regex_ok\<close>, \<open>json_ok\<close>, \<open>sha1_ok\<close>) states the documented behaviour that a theorem relies on,
  as a named hypothesis. \<open>sample_ext\<close>, at the end, is a concrete record for which all of them hold: the
  hypotheses are satisfiable, and the concrete instances of the theorems are evaluated at it.

  Times are integers, nanoseconds since the Unix epoch; \<open>utc_now\<close> is the time a handler reads.
\<close>

type_synonym 'a iresult = "(string \<times> 'a) option"
type_synonym 'a iparser = "string \<Rightarrow> 'a iresult"
type_synonym header = "string \<times> string"
type_synonym datetime = int

text \<open>What connecting to an address within a time gives:\<close>

datatype dial_outcome = Dialed | DialTimeout | DialError string

record ext =
  nom_take_while1 :: "(char \<Rightarrow> bool) \<Rightarrow> string iparser"
  nom_take_till :: "(char \<Rightarrow> bool) \<Rightarrow> string iparser"
  nom_is_not :: "string \<Rightarrow> string iparser"
  nom_char :: "char \<Rightarrow> char iparser"
  nom_crlf :: "string iparser"
  nom_digit1 :: "string iparser"
  nom_space0 :: "string iparser"
  nom_space1 :: "string iparser"
  nom_separated_list1 :: "string iparser \<Rightarrow> string iparser \<Rightarrow> string list iparser"
  regex_escape :: "string \<Rightarrow> string"
  regex_is_match :: "string \<Rightarrow> string \<Rightarrow> bool option"
  json_to_string :: "header list \<Rightarrow> string"
  json_from_str :: "string \<Rightarrow> header list option"
  sha1_digest :: "string \<Rightarrow> u8 list"
  sha256_digest :: "string \<Rightarrow> u8 list"
  sha512_digest :: "string \<Rightarrow> u8 list"
  base64_encode :: "u8 list \<Rightarrow> string"
  pgp_key_from_string :: "string \<Rightarrow> bool"
  pgp_sig_from_armor :: "string \<Rightarrow> bool"
  pgp_sig_verify :: "string \<Rightarrow> string \<Rightarrow> string \<Rightarrow> bool"
  pgp_http_get_one :: "string \<Rightarrow> string list \<Rightarrow> string option"
  pgp_to_armored_string :: "string \<Rightarrow> string option"
  argon2_hash_password :: "string \<Rightarrow> string \<Rightarrow> string option"
  argon2_parse_hash :: "string \<Rightarrow> bool"
  argon2_verify_password :: "string \<Rightarrow> string \<Rightarrow> bool"
  salt_generate :: string
  chrono_parse_rfc2822 :: "string \<Rightarrow> datetime option"
  chrono_parse_rfc3339 :: "string \<Rightarrow> datetime option"
  chrono_to_rfc2822 :: "datetime \<Rightarrow> string"
  chrono_parse_date :: "string \<Rightarrow> string \<Rightarrow> int option"
  chrono_parse_time :: "string \<Rightarrow> string \<Rightarrow> int option"
  chrono_local_single :: "int \<Rightarrow> datetime option"
  chrono_format :: "string \<Rightarrow> datetime \<Rightarrow> string"
  chrono_parse_datetime :: "string \<Rightarrow> string \<Rightarrow> datetime option"
  chrono_from_timestamp :: "int \<Rightarrow> datetime option"
  milter_config_from_json :: "string \<Rightarrow> (string \<times> nat) option"
  tcp_connect :: "string \<Rightarrow> nat \<Rightarrow> dial_outcome"
  unix_connect :: "string \<Rightarrow> nat \<Rightarrow> dial_outcome"
  load_native_certs :: "string + string list"
  root_store_add :: "string \<Rightarrow> string option"
  server_name_valid :: "string \<Rightarrow> bool"
  tls_connect :: "string list \<Rightarrow> string \<Rightarrow> string \<Rightarrow> string option"
  milter_reply :: "string \<Rightarrow> (u8 list) list \<Rightarrow> u8 list option"
  utc_now :: datetime

text \<open>\<^verbatim>\<open>DateTime::timestamp\<close>: whole seconds since the epoch.\<close>

definition timestamp :: "datetime \<Rightarrow> int" where
  "timestamp t = t div 1000000000"

lemma timestamp_mono: "a \<le> b \<Longrightarrow> timestamp a \<le> timestamp b"
  by (simp add: timestamp_def zdiv_mono1)

subsection \<open>nom\<close>

text \<open>The behaviour nom documents for its complete (non-streaming) character parsers: the rest of the
  input and the text taken, or an error.\<close>

definition take_while1 :: "(char \<Rightarrow> bool) \<Rightarrow> string iparser" where
  "take_while1 p s =
     (if takeWhile p s = [] then None else Some (dropWhile p s, takeWhile p s))"

definition take_till :: "(char \<Rightarrow> bool) \<Rightarrow> string iparser" where
  "take_till p s = Some (dropWhile (\<lambda>c. \<not> p c) s, takeWhile (\<lambda>c. \<not> p c) s)"

definition is_not :: "string \<Rightarrow> string iparser" where
  "is_not cs s = take_while1 (\<lambda>c. c \<notin> set cs) s"

fun parse_char :: "char \<Rightarrow> char iparser" where
  "parse_char c [] = None"
| "parse_char c (x # xs) = (if x = c then Some (xs, c) else None)"

definition parse_crlf :: "string iparser" where
  "parse_crlf s = (if starts_with s CRLF then Some (drop 2 s, CRLF) else None)"

definition is_space :: "char \<Rightarrow> bool" where
  "is_space c \<longleftrightarrow> c = CHR 0x20 \<or> c = TAB"

function separated_list1 :: "string iparser \<Rightarrow> string iparser \<Rightarrow> string list iparser" where
  "separated_list1 sep p s =
     (case p s of
        None \<Rightarrow> None
      | Some (r, x) \<Rightarrow>
          (case sep r of
             None \<Rightarrow> Some (r, [x])
           | Some (r', _) \<Rightarrow>
               if length r' < length s
               then (case separated_list1 sep p r' of
                       None \<Rightarrow> Some (r, [x])
                     | Some (r'', xs) \<Rightarrow> Some (r'', x # xs))
               else Some (r, [x])))"
  by pat_completeness auto
termination
  by (relation "measure (\<lambda>(sep, p, s). length s)") auto

declare separated_list1.simps [simp del]

definition consuming :: "'a iparser \<Rightarrow> bool" where
  "consuming p \<longleftrightarrow> (\<forall>s r x. p s = Some (r, x) \<longrightarrow> length r < length s)"

definition nom_ok :: "ext \<Rightarrow> bool" where
  "nom_ok X \<longleftrightarrow>
     nom_take_while1 X = take_while1 \<and> nom_take_till X = take_till \<and> nom_is_not X = is_not \<and>
     nom_char X = parse_char \<and> nom_crlf X = parse_crlf \<and>
     nom_digit1 X = take_while1 is_ascii_digit \<and>
     nom_space0 X = take_till (\<lambda>c. \<not> is_space c) \<and> nom_space1 X = take_while1 is_space \<and>
     (\<forall>sep p. consuming sep \<longrightarrow> consuming p \<longrightarrow>
        nom_separated_list1 X sep p = separated_list1 sep p)"

lemma nom_okD:
  assumes "nom_ok X"
  shows "nom_take_while1 X = take_while1" "nom_take_till X = take_till" "nom_is_not X = is_not"
    "nom_char X = parse_char" "nom_crlf X = parse_crlf" "nom_digit1 X = take_while1 is_ascii_digit"
    "nom_space0 X = take_till (\<lambda>c. \<not> is_space c)" "nom_space1 X = take_while1 is_space"
    "consuming sep \<Longrightarrow> consuming p \<Longrightarrow> nom_separated_list1 X sep p = separated_list1 sep p"
  using assms by (simp_all add: nom_ok_def)

lemma consuming_take_while1: "consuming (take_while1 p)"
  unfolding consuming_def take_while1_def
proof (intro allI impI)
  fix s r x
  assume "(if takeWhile p s = [] then None else Some (dropWhile p s, takeWhile p s)) = Some (r, x)"
  then have "takeWhile p s \<noteq> []" and r: "r = dropWhile p s" by (auto split: if_splits)
  moreover have "length s = length (takeWhile p s) + length (dropWhile p s)"
    by (metis length_append takeWhile_dropWhile_id)
  ultimately show "length r < length s" by simp
qed

lemma consuming_is_not: "consuming (is_not cs)"
  using consuming_take_while1 [of "\<lambda>c. c \<notin> set cs"] by (simp add: consuming_def is_not_def)

lemma take_while1_append:
  assumes "a \<noteq> []" and "\<And>c. c \<in> set a \<Longrightarrow> p c" and "b = [] \<or> \<not> p (hd b)"
  shows "take_while1 p (a @ b) = Some (b, a)"
proof -
  have "takeWhile p b = []" "dropWhile p b = b"
    using assms(3) by (cases b; simp)+
  with assms(1,2) show ?thesis by (simp add: take_while1_def)
qed

lemma take_till_append:
  assumes "\<And>c. c \<in> set a \<Longrightarrow> \<not> p c" and "b = [] \<or> p (hd b)"
  shows "take_till p (a @ b) = Some (b, a)"
proof -
  have "takeWhile (\<lambda>c. \<not> p c) b = []" "dropWhile (\<lambda>c. \<not> p c) b = b"
    using assms(2) by (cases b; simp)+
  with assms(1) show ?thesis by (simp add: take_till_def)
qed

lemma parse_crlf_append [simp]: "parse_crlf (CR # LF # s) = Some (s, CRLF)"
  by (simp add: parse_crlf_def starts_with_def)

subsection \<open>regex\<close>

text \<open>The fragment of regular expressions the wildmat translation makes from patterns without
  brackets: a literal, any character (but the line feed), any run of such characters; matched against
  the whole text. \<^verbatim>\<open>Regex::new\<close> succeeds on expressions of up to 512 such atoms, the length of a command
  line.\<close>

datatype rx_atom = RxLit char | RxAny | RxAnyStar

fun glob :: "rx_atom list \<Rightarrow> string \<Rightarrow> bool" where
  "glob [] t = (t = [])"
| "glob (RxLit c # as) t = (case t of [] \<Rightarrow> False | x # xs \<Rightarrow> x = c \<and> glob as xs)"
| "glob (RxAny # as) t = (case t of [] \<Rightarrow> False | x # xs \<Rightarrow> x \<noteq> LF \<and> glob as xs)"
| "glob (RxAnyStar # as) t =
     (glob as t \<or> (case t of [] \<Rightarrow> False | x # xs \<Rightarrow> x \<noteq> LF \<and> glob (RxAnyStar # as) xs))"

primrec rx_render :: "ext \<Rightarrow> rx_atom \<Rightarrow> string" where
  "rx_render X (RxLit c) = regex_escape X [c]"
| "rx_render X RxAny = ''.''"
| "rx_render X RxAnyStar = ''.*''"

definition regex_ok :: "ext \<Rightarrow> bool" where
  "regex_ok X \<longleftrightarrow>
     (\<forall>as t. length as \<le> 512 \<longrightarrow>
        regex_is_match X (''^'' @ concat (map (rx_render X) as) @ ''$'') t = Some (glob as t))"

subsection \<open>serde_json, sha1\<close>

definition json_ok :: "ext \<Rightarrow> bool" where
  "json_ok X \<longleftrightarrow> (\<forall>h. json_from_str X (json_to_string X h) = Some h)"

definition sha1_ok :: "ext \<Rightarrow> bool" where
  "sha1_ok X \<longleftrightarrow> (\<forall>s. length (sha1_digest X s) = 20)"

subsection \<open>chrono\<close>

text \<open>A time printed in the format of SQLite's \<^verbatim>\<open>datetime\<close> is no RFC 3339 time and parses back to the time
  without its fraction of a second.\<close>

definition sqlite_format :: string where
  "sqlite_format = ''%Y-%m-%d %H:%M:%S''"

definition chrono_ok :: "ext \<Rightarrow> bool" where
  "chrono_ok X \<longleftrightarrow>
     (\<forall>t. 0 \<le> t \<longrightarrow>
        chrono_parse_rfc3339 X (chrono_format X sqlite_format t) = None \<and>
        chrono_parse_datetime X sqlite_format (chrono_format X sqlite_format t) =
          Some (timestamp t * 1000000000))"

subsection \<open>argon2\<close>

text \<open>A hash that was made from a password parses and verifies that password.\<close>

definition argon2_ok :: "ext \<Rightarrow> bool" where
  "argon2_ok X \<longleftrightarrow>
     (\<forall>p salt h. argon2_hash_password X p salt = Some h \<longrightarrow>
        argon2_parse_hash X h \<and> argon2_verify_password X p h)"

end
