(* ===== verification/Message.thy ===== *)
theory Message
  imports Externals
begin

text \<open>
  \<^verbatim>\<open>src/src/parse.rs\<close>: NNTP command and response lines, articles with their folded headers, the
  escaping of message identifiers, and the headers the server adds. Results of nom parsers are the
  rest of the input and the value. The two parsing loops take fuel, the length of their input and one
  more; \<open>fold_continuations_fuel\<close> and \<open>parse_headers_fuel\<close> show that any larger fuel gives the same
  result.
\<close>

subsection \<open>Commands and responses\<close>

record command =
  cmd_name :: string
  cmd_args :: "string list"

definition parse_command :: "ext \<Rightarrow> string \<Rightarrow> command iresult" where
  "parse_command X input =
     (case nom_take_while1 X is_ascii_alphabetic input of
        None \<Rightarrow> None
      | Some (input1, name) \<Rightarrow>
          (let (input2, args) =
                 (case nom_space1 X input1 of
                    None \<Rightarrow> (input1, None)
                  | Some (i, _) \<Rightarrow>
                      (case nom_separated_list1 X (nom_space1 X) (nom_is_not X ('' '' @ CRLF)) i of
                         None \<Rightarrow> (input1, None)
                       | Some (i', as) \<Rightarrow> (i', Some as)));
               input3 = (case nom_crlf X input2 of None \<Rightarrow> input2 | Some (i, _) \<Rightarrow> i)
           in Some (input3, \<lparr>cmd_name = to_ascii_uppercase name,
                              cmd_args = (case args of None \<Rightarrow> [] | Some as \<Rightarrow> as)\<rparr>)))"

record response =
  resp_code :: nat
  resp_text :: string

definition is_eol_char :: "char \<Rightarrow> bool" where
  "is_eol_char c \<longleftrightarrow> c = CR \<or> c = LF"

definition parse_response :: "ext \<Rightarrow> string \<Rightarrow> response iresult" where
  "parse_response X input =
     (case nom_digit1 X input of
        None \<Rightarrow> None
      | Some (input1, d) \<Rightarrow>
          (case parse_uint 16 d of
             None \<Rightarrow> None
           | Some code \<Rightarrow>
               (let (input2, text) =
                      (case nom_char X (CHR '' '') input1 of
                         None \<Rightarrow> (input1, None)
                       | Some (i, _) \<Rightarrow>
                           (case nom_take_till X is_eol_char i of
                              None \<Rightarrow> (input1, None)
                            | Some (i', t) \<Rightarrow> (i', Some t)));
                    input3 = (case nom_crlf X input2 of None \<Rightarrow> input2 | Some (i, _) \<Rightarrow> i)
                in Some (input3, \<lparr>resp_code = code,
                                  resp_text = (case text of None \<Rightarrow> [] | Some t \<Rightarrow> t)\<rparr>))))"

subsection \<open>Message identifiers\<close>

record message =
  headers :: "header list"
  body :: string

fun unescape_chars :: "bool \<Rightarrow> bool \<Rightarrow> nat \<Rightarrow> string \<Rightarrow> string" where
  "unescape_chars in_quotes in_brackets comment_depth [] = []"
| "unescape_chars in_quotes in_brackets comment_depth (c # chars) =
     (if comment_depth > 0
      then unescape_chars in_quotes in_brackets
             (if c = CHR ''('' then comment_depth + 1
              else if c = CHR '')'' then comment_depth - 1 else comment_depth) chars
      else if c = DQUOTE \<and> \<not> in_brackets
      then unescape_chars (\<not> in_quotes) in_brackets comment_depth chars
      else if c = CHR ''['' \<and> \<not> in_quotes
      then CHR ''['' # unescape_chars in_quotes True comment_depth chars
      else if c = CHR '']'' \<and> in_brackets
      then CHR '']'' # unescape_chars in_quotes False comment_depth chars
      else if c = BSLASH \<and> (in_quotes \<or> in_brackets)
      then (case chars of
              [] \<Rightarrow> []
            | n # chars' \<Rightarrow> n # unescape_chars in_quotes in_brackets comment_depth chars')
      else if c = CHR ''('' \<and> \<not> in_quotes \<and> \<not> in_brackets
      then unescape_chars in_quotes in_brackets 1 chars
      else if is_whitespace c \<and> \<not> in_quotes \<and> \<not> in_brackets
      then unescape_chars in_quotes in_brackets comment_depth chars
      else c # unescape_chars in_quotes in_brackets comment_depth chars)"

definition unescape_message_id :: "string \<Rightarrow> string" where
  "unescape_message_id mid =
     (let trimmed = str_trim mid
      in if \<not> starts_with trimmed ''<'' \<or> \<not> ends_with trimmed ''>'' then trimmed
         else ''<'' @ unescape_chars False False 0 (butlast (tl trimmed)) @ ''>'')"

definition is_atext :: "char \<Rightarrow> bool" where
  "is_atext c \<longleftrightarrow> is_ascii_alphanumeric c \<or> c \<in> set ''!#$%&*+-/=?^_{|}~.'' \<or> c = CHR 0x27 \<or> c = CHR 0x60"

definition escape_left :: "string \<Rightarrow> string" where
  "escape_left left =
     (let needs_quote = list_ex (\<lambda>c. \<not> is_atext c) left;
          esc = concat (map (\<lambda>ch. if ch = DQUOTE \<or> ch = BSLASH then [BSLASH, ch] else [ch]) left)
      in if needs_quote then [DQUOTE] @ esc @ [DQUOTE] else esc)"

text \<open>The slice \<^verbatim>\<open>right[1..right.len() - 1]\<close> of a right part that both starts with an opening and ends
  with a closing bracket; the two are different characters, so it has at least two.\<close>

definition escape_right :: "string \<Rightarrow> string" where
  "escape_right right =
     (if starts_with right ''['' \<and> ends_with right '']''
      then ''['' @ concat (map (\<lambda>ch. if ch = BSLASH \<or> ch = CHR '']'' \<or> ch = CHR ''['' then [BSLASH, ch] else [ch])
                             (butlast (tl right))) @ '']''
      else right)"

definition escape_message_id :: "string \<Rightarrow> string" where
  "escape_message_id mid =
     (let trimmed = str_trim mid
      in if \<not> starts_with trimmed ''<'' \<or> \<not> ends_with trimmed ''>'' then trimmed
         else case split_once (CHR ''@'') (butlast (tl trimmed)) of
                None \<Rightarrow> trimmed
              | Some (left, right) \<Rightarrow> ''<'' @ escape_left left @ ''@'' @ escape_right right @ ''>'')"

definition map_message_id :: "(string \<Rightarrow> string) \<Rightarrow> header list \<Rightarrow> header list" where
  "map_message_id f hs =
     map (\<lambda>(name, val). (name, if eq_ignore_ascii_case name ''Message-ID'' then f val else val)) hs"

definition escape_message_id_header :: "message \<Rightarrow> message" where
  "escape_message_id_header msg = msg\<lparr>headers := map_message_id escape_message_id (headers msg)\<rparr>"

subsection \<open>Articles\<close>

fun fold_continuations :: "ext \<Rightarrow> nat \<Rightarrow> string \<Rightarrow> string \<Rightarrow> string iresult" where
  "fold_continuations X 0 i val = None"
| "fold_continuations X (Suc fuel) i val =
     (if starts_with i '' '' \<or> starts_with i [TAB]
      then (case nom_take_while1 X is_space i of
              None \<Rightarrow> None
            | Some (next1, _) \<Rightarrow>
                (case nom_take_till X is_eol_char next1 of
                   None \<Rightarrow> None
                 | Some (next2, cont) \<Rightarrow>
                     (case nom_crlf X next2 of
                        None \<Rightarrow> None
                      | Some (next3, _) \<Rightarrow> fold_continuations X fuel next3 (val @ '' '' @ cont))))
      else Some (i, val))"

definition parse_header_line :: "ext \<Rightarrow> string \<Rightarrow> header iresult" where
  "parse_header_line X input =
     (case nom_take_while1 X (\<lambda>c. c \<noteq> CHR '':'' \<and> c \<noteq> CR \<and> c \<noteq> LF) input of
        None \<Rightarrow> None
      | Some (i1, name) \<Rightarrow>
          (case nom_char X (CHR '':'') i1 of
             None \<Rightarrow> None
           | Some (i2, _) \<Rightarrow>
               (case nom_space0 X i2 of
                  None \<Rightarrow> None
                | Some (i3, _) \<Rightarrow>
                    (case nom_take_till X is_eol_char i3 of
                       None \<Rightarrow> None
                     | Some (i4, value) \<Rightarrow>
                         (case nom_crlf X i4 of
                            None \<Rightarrow> None
                          | Some (i5, _) \<Rightarrow>
                              (case fold_continuations X (Suc (length i5)) i5 value of
                                 None \<Rightarrow> None
                               | Some (i6, val) \<Rightarrow> Some (i6, (name, val))))))))"

fun parse_headers :: "ext \<Rightarrow> nat \<Rightarrow> string \<Rightarrow> header list iresult" where
  "parse_headers X 0 input = None"
| "parse_headers X (Suc fuel) input =
     (case strip_prefix input CRLF of
        Some rest \<Rightarrow> Some (rest, [])
      | None \<Rightarrow>
          (case parse_header_line X input of
             None \<Rightarrow> None
           | Some (next1, header) \<Rightarrow>
               (case parse_headers X fuel next1 of
                  None \<Rightarrow> None
                | Some (rest, hs) \<Rightarrow> Some (rest, header # hs))))"

definition parse_message :: "ext \<Rightarrow> string \<Rightarrow> message iresult" where
  "parse_message X input =
     (case parse_headers X (Suc (length input)) input of
        None \<Rightarrow> None
      | Some (rest, hs) \<Rightarrow>
          Some ([], \<lparr>headers = map_message_id unescape_message_id hs, body = rest\<rparr>))"

subsection \<open>Headers the server adds, and date arguments\<close>

definition has_header :: "message \<Rightarrow> string \<Rightarrow> bool" where
  "has_header article header_name \<longleftrightarrow>
     list_ex (\<lambda>(k, _). eq_ignore_ascii_case k header_name) (headers article)"

definition ensure_message_id :: "ext \<Rightarrow> message \<Rightarrow> string \<Rightarrow> message" where
  "ensure_message_id X msg domain =
     (if list_ex (\<lambda>(k, _). eq_ignore_ascii_case k ''Message-ID'') (headers msg) then msg
      else let hex = concat (map hex_byte (sha1_digest X (body msg)))
           in msg\<lparr>headers := headers msg @ [(''Message-ID'', ''<'' @ hex @ ''@'' @ domain @ ''>'')]\<rparr>)"

definition ensure_date :: "ext \<Rightarrow> message \<Rightarrow> message" where
  "ensure_date X msg =
     (if list_ex (\<lambda>(k, _). eq_ignore_ascii_case k ''Date'') (headers msg) then msg
      else msg\<lparr>headers := headers msg @ [(''Date'', chrono_to_rfc2822 X (utc_now X))]\<rparr>)"

text \<open>The error of \<^verbatim>\<open>parse_datetime\<close> is its message. A naive date and time are a day number and a second
  of the day; chrono does their parsing and the interpretation in the local time zone.\<close>

definition parse_datetime :: "ext \<Rightarrow> string \<Rightarrow> string \<Rightarrow> bool \<Rightarrow> string + datetime" where
  "parse_datetime X date time gmt =
     (if \<not> (str_len date = 6 \<or> str_len date = 8) \<or> \<not> list_all is_ascii_digit date
      then Inl ''invalid date''
      else if str_len time \<noteq> 6 \<or> \<not> list_all is_ascii_digit time then Inl ''invalid time''
      else let fmt = (if str_len date = 6 then ''%y%m%d'' else ''%Y%m%d'')
           in case chrono_parse_date X fmt date of
                None \<Rightarrow> Inl ''invalid date''
              | Some naive_date \<Rightarrow>
                  (case chrono_parse_time X ''%H%M%S'' time of
                     None \<Rightarrow> Inl ''invalid time''
                   | Some naive_time \<Rightarrow>
                       (let naive = (naive_date * 86400 + naive_time) * 1000000000
                        in if gmt then Inr naive
                           else case chrono_local_single X naive of
                                  None \<Rightarrow> Inl ''invalid local time''
                                | Some t \<Rightarrow> Inr t)))"

subsection \<open>Fuel\<close>

lemma take_while1_less: "take_while1 p s = Some (r, x) \<Longrightarrow> length r < length s"
  using consuming_take_while1 [of p] by (simp add: consuming_def)

lemma take_till_le: "take_till p s = Some (r, x) \<Longrightarrow> length r \<le> length s"
  by (auto simp: take_till_def length_dropWhile_le)

lemma parse_crlf_less: "parse_crlf s = Some (r, x) \<Longrightarrow> length r < length s"
  by (cases s) (auto simp: parse_crlf_def starts_with_def split: if_splits)

lemma parse_char_less: "parse_char c s = Some (r, x) \<Longrightarrow> length r < length s"
  by (cases s) (auto split: if_splits)

lemmas consumption = take_while1_less take_till_le parse_crlf_less parse_char_less

lemma fold_continuations_fuel:
  assumes "nom_ok X"
  shows "length i < f \<Longrightarrow> length i < g \<Longrightarrow> fold_continuations X f i v = fold_continuations X g i v"
proof (induction f arbitrary: g i v)
  case (Suc f)
  then obtain g' where g: "g = Suc g'" by (cases g) auto
  have "fold_continuations X f n w = fold_continuations X g' n w" if "length n < length i" for n w
    using Suc.prems that by (intro Suc.IH) (auto simp: g)
  then show ?case
    unfolding g using assms
    by (auto simp: nom_okD split: option.splits dest!: consumption)
qed simp

lemma fold_continuations_le:
  assumes "nom_ok X"
  shows "fold_continuations X f i v = Some (r, w) \<Longrightarrow> length r \<le> length i"
proof (induction f arbitrary: i v)
  case (Suc f)
  show ?case
  proof (cases "starts_with i '' '' \<or> starts_with i [TAB]")
    case True
    with Suc.prems assms obtain n1 x n2 c n3 y where "take_while1 is_space i = Some (n1, x)"
      and "take_till is_eol_char n1 = Some (n2, c)" and "parse_crlf n2 = Some (n3, y)"
      and "fold_continuations X f n3 (v @ '' '' @ c) = Some (r, w)"
      by (auto simp: nom_okD split: option.splits)
    then have "length n1 < length i" "length n2 \<le> length n1" "length n3 < length n2"
      "length r \<le> length n3"
      by (simp_all add: consumption Suc.IH)
    then show ?thesis by linarith
  next
    case False
    with Suc.prems show ?thesis by simp
  qed
qed simp

lemma parse_header_line_less:
  assumes "nom_ok X" and "parse_header_line X s = Some (r, h)"
  shows "length r < length s"
  using assms
  by (auto simp: parse_header_line_def nom_okD simp del: fold_continuations.simps
      split: option.splits dest!: consumption fold_continuations_le [OF assms(1)])

lemma parse_headers_fuel:
  assumes "nom_ok X"
  shows "length i < f \<Longrightarrow> length i < g \<Longrightarrow> parse_headers X f i = parse_headers X g i"
proof (induction f arbitrary: g i)
  case (Suc f)
  then obtain g' where g: "g = Suc g'" by (cases g) auto
  have "parse_headers X f n = parse_headers X g' n" if "length n < length i" for n
    using Suc.prems that by (intro Suc.IH) (auto simp: g)
  then show ?case
    unfolding g using parse_header_line_less [OF assms]
    by (auto split: option.splits)
qed simp

subsection \<open>Command lines\<close>

definition arg_ok :: "string \<Rightarrow> bool" where
  "arg_ok a \<longleftrightarrow> a \<noteq> [] \<and> hd a \<noteq> TAB \<and> list_all (\<lambda>c. c \<noteq> CHR '' '' \<and> c \<noteq> CR \<and> c \<noteq> LF) a"

definition render_args :: "string list \<Rightarrow> string" where
  "render_args as = concat (map (\<lambda>a. CHR '' '' # a) as)"

lemma take_while1_space_arg:
  assumes "arg_ok a"
  shows "take_while1 is_space (CHR '' '' # a @ r) = Some (a @ r, '' '')"
proof -
  from assms have "\<not> is_space (hd (a @ r))"
    by (cases a) (auto simp: arg_ok_def is_space_def)
  then show ?thesis
    using take_while1_append [of "'' ''" is_space "a @ r"] by (simp add: is_space_def)
qed

lemma is_not_arg:
  assumes "arg_ok a" and "r = [] \<or> hd r = CHR '' '' \<or> hd r = CR"
  shows "is_not ('' '' @ CRLF) (a @ r) = Some (r, a)"
  unfolding is_not_def using assms
  by (intro take_while1_append) (auto simp: arg_ok_def list_all_iff)

lemma take_while1_space_end:
  "r = [] \<or> hd r = CR \<Longrightarrow> take_while1 is_space r = None"
  by (cases r) (auto simp: take_while1_def is_space_def)

lemma separated_list1_args:
  assumes "as \<noteq> []" and "list_all arg_ok as" and "e = [] \<or> hd e = CR"
  shows "separated_list1 (take_while1 is_space) (is_not ('' '' @ CRLF)) (tl (render_args as) @ e) =
           Some (e, as)"
  using assms
proof (induction as rule: induct_list012)
  case 1
  then show ?case by simp
next
  case (2 a)
  have "is_not ('' '' @ CRLF) (a @ e) = Some (e, a)"
    using 2 by (intro is_not_arg) auto
  then show ?case
    using 2 by (subst separated_list1.simps) (simp add: render_args_def take_while1_space_end)
next
  case (3 a b as)
  let ?r = "render_args (b # as) @ e"
  have "is_not ('' '' @ CRLF) (a @ ?r) = Some (?r, a)"
    using 3 by (intro is_not_arg) (auto simp: render_args_def)
  moreover have "take_while1 is_space ?r = Some (tl (render_args (b # as)) @ e, '' '')"
    using 3 take_while1_space_arg [of b "render_args as @ e"] by (simp add: render_args_def)
  ultimately show ?case
    using 3 by (subst separated_list1.simps) (simp add: render_args_def)
qed

lemma parse_command_render:
  assumes "nom_ok X" and "name \<noteq> []" and "list_all is_ascii_alphabetic name"
    and "list_all arg_ok as" and "e = [] \<or> e = CRLF"
  shows "parse_command X (name @ render_args as @ e) =
           Some ([], \<lparr>cmd_name = to_ascii_uppercase name, cmd_args = as\<rparr>)"
proof -
  let ?r = "render_args as @ e"
  have hd: "?r = [] \<or> \<not> is_ascii_alphabetic (hd ?r)"
    using assms(5) by (cases as)
      (auto simp: render_args_def is_ascii_alphabetic_def is_ascii_uppercase_def
        is_ascii_lowercase_def char_code_def)
  have name: "take_while1 is_ascii_alphabetic (name @ ?r) = Some (?r, name)"
    using assms(2,3) hd by (intro take_while1_append) (auto simp: list_all_iff)
  have e: "(case parse_crlf e of None \<Rightarrow> e | Some (i, _) \<Rightarrow> i) = []"
    using assms(5) by (auto simp: parse_crlf_def starts_with_def)
  show ?thesis
  proof (cases as)
    case Nil
    with name e take_while1_space_end [of e] assms(1,5) show ?thesis
      by (auto simp: parse_command_def nom_okD render_args_def)
  next
    case (Cons a bs)
    then have "take_while1 is_space ?r = Some (tl (render_args as) @ e, '' '')"
      using assms(4) take_while1_space_arg [of a "render_args bs @ e"] by (simp add: render_args_def)
    moreover have "separated_list1 (take_while1 is_space) (is_not ('' '' @ CRLF))
        (tl (render_args as) @ e) = Some (e, as)"
      using assms(4,5) Cons by (intro separated_list1_args) auto
    ultimately show ?thesis
      using name e assms(1)
      by (simp add: parse_command_def nom_okD consuming_take_while1 consuming_is_not)
  qed
qed

subsection \<open>Escaping message identifiers\<close>

definition unquoted_ok :: "char \<Rightarrow> bool" where
  "unquoted_ok c \<longleftrightarrow> c \<noteq> DQUOTE \<and> c \<noteq> CHR ''['' \<and> c \<noteq> CHR ''('' \<and> \<not> is_whitespace c"

definition domain_part :: "string \<Rightarrow> bool" where
  "domain_part r \<longleftrightarrow> (starts_with r ''['' \<and> ends_with r '']'') \<or> list_all unquoted_ok r"

lemma is_atext_unquoted: "is_atext c \<Longrightarrow> unquoted_ok c"
  by (auto simp: is_atext_def unquoted_ok_def is_ascii_alphanumeric_def is_ascii_alphabetic_def
      is_ascii_uppercase_def is_ascii_lowercase_def is_ascii_digit_def is_whitespace_def char_code_def)

lemma is_atext_special: "is_atext c \<Longrightarrow> c \<noteq> DQUOTE \<and> c \<noteq> BSLASH"
  by (auto simp: is_atext_def is_ascii_alphanumeric_def is_ascii_alphabetic_def
      is_ascii_uppercase_def is_ascii_lowercase_def is_ascii_digit_def char_code_def)

lemma unescape_plain:
  "list_all unquoted_ok a \<Longrightarrow>
     unescape_chars False False 0 (a @ r) = a @ unescape_chars False False 0 r"
  by (induction a) (auto simp: unquoted_ok_def)

lemma unescape_quoted:
  "unescape_chars True False 0
     (concat (map (\<lambda>ch. if ch = DQUOTE \<or> ch = BSLASH then [BSLASH, ch] else [ch]) a) @ DQUOTE # r) =
   a @ unescape_chars False False 0 r"
  by (induction a) auto

lemma unescape_bracketed:
  "unescape_chars False True 0
     (concat (map (\<lambda>ch. if ch = BSLASH \<or> ch = CHR '']'' \<or> ch = CHR ''['' then [BSLASH, ch] else [ch]) a)
        @ CHR '']'' # r) =
   a @ CHR '']'' # unescape_chars False False 0 r"
  by (induction a) auto

lemma escape_left_plain: "list_all is_atext a \<Longrightarrow> escape_left a = a"
proof -
  assume a: "list_all is_atext a"
  then have "concat (map (\<lambda>ch. if ch = DQUOTE \<or> ch = BSLASH then [BSLASH, ch] else [ch]) a) = a"
    by (induction a) (auto dest: is_atext_special)
  moreover have "\<not> list_ex (\<lambda>c. \<not> is_atext c) a" using a by (simp add: list_ex_iff list_all_iff)
  ultimately show ?thesis by (simp add: escape_left_def Let_def)
qed

lemma unescape_escape_left:
  "unescape_chars False False 0 (escape_left a @ r) = a @ unescape_chars False False 0 r"
proof (cases "list_all is_atext a")
  case True
  then have "list_all unquoted_ok a" by (auto simp: list_all_iff is_atext_unquoted)
  with True show ?thesis by (simp add: escape_left_plain unescape_plain)
next
  case False
  then have "list_ex (\<lambda>c. \<not> is_atext c) a" by (simp add: list_ex_iff list_all_iff)
  then show ?thesis by (simp add: escape_left_def Let_def unescape_quoted)
qed

lemma unescape_escape_right:
  assumes "domain_part r"
  shows "unescape_chars False False 0 (escape_right r) = r"
proof (cases "starts_with r ''['' \<and> ends_with r '']''")
  case True
  then obtain u where "r = CHR ''['' # u" by (auto simp: starts_with_singleton)
  moreover from True obtain v where "r = v @ '']''" by (auto simp: ends_with_singleton)
  ultimately obtain w where w: "r = CHR ''['' # w @ '']''"
    by (cases v) auto
  have "unescape_chars False True 0 (concat (map (\<lambda>ch. if ch = BSLASH \<or> ch = CHR '']'' \<or> ch = CHR ''[''
          then [BSLASH, ch] else [ch]) w) @ '']'') = w @ '']''"
    using unescape_bracketed [of w "[]"] by simp
  with True show ?thesis by (simp add: escape_right_def w)
next
  case False
  with assms have "list_all unquoted_ok r" by (auto simp: domain_part_def)
  then have "unescape_chars False False 0 r = r" using unescape_plain [of r "[]"] by simp
  moreover have "escape_right r = r" using False by (auto simp: escape_right_def)
  ultimately show ?thesis by simp
qed

lemma angle_shape:
  "str_trim (CHR ''<'' # a @ ''>'') = CHR ''<'' # a @ ''>''" "starts_with (CHR ''<'' # a @ ''>'') ''<''"
  "ends_with (CHR ''<'' # a @ ''>'') ''>''" "butlast (tl (CHR ''<'' # a @ ''>'')) = a"
proof -
  show "str_trim (CHR ''<'' # a @ ''>'') = CHR ''<'' # a @ ''>''"
    unfolding str_trim_def by (rule trim_matches_id) (simp_all add: is_whitespace_def char_code_def)
  show "ends_with (CHR ''<'' # a @ ''>'') ''>''"
    using ends_with_append [of "CHR ''<'' # a" "''>''"] by simp
qed (simp_all add: starts_with_def)

lemma unescape_message_id_angle:
  "unescape_message_id (CHR ''<'' # a @ ''>'') = CHR ''<'' # unescape_chars False False 0 a @ ''>''"
  by (simp add: unescape_message_id_def Let_def angle_shape)

lemma escape_message_id_angle:
  "escape_message_id (CHR ''<'' # a @ ''>'') =
     (case split_once (CHR ''@'') a of
        None \<Rightarrow> CHR ''<'' # a @ ''>''
      | Some (l, r) \<Rightarrow> CHR ''<'' # (escape_left l @ ''@'' @ escape_right r) @ ''>'')"
  by (cases "split_once (CHR ''@'') a") (simp_all add: escape_message_id_def Let_def angle_shape split: prod.split)

lemma unescape_escape_message_id:
  assumes "CHR ''@'' \<notin> set l" and "domain_part r"
  shows "unescape_message_id (escape_message_id (''<'' @ l @ ''@'' @ r @ ''>'')) =
           ''<'' @ l @ ''@'' @ r @ ''>''"
proof -
  have at: "unescape_chars False False 0 (''@'' @ escape_right r) = ''@'' @ r"
    using unescape_plain [of "''@''" "escape_right r"] unescape_escape_right [OF assms(2)]
    by (simp add: unquoted_ok_def is_whitespace_def char_code_def)
  have "escape_message_id (CHR ''<'' # (l @ ''@'' @ r) @ ''>'') =
          CHR ''<'' # (escape_left l @ ''@'' @ escape_right r) @ ''>''"
    unfolding escape_message_id_angle using split_once_append [OF assms(1), of r] by simp
  then have "unescape_message_id (escape_message_id (CHR ''<'' # (l @ ''@'' @ r) @ ''>'')) =
          CHR ''<'' # unescape_chars False False 0 (escape_left l @ ''@'' @ escape_right r) @ ''>''"
    by (simp only: unescape_message_id_angle)
  also have "unescape_chars False False 0 (escape_left l @ ''@'' @ escape_right r) = l @ ''@'' @ r"
    using unescape_escape_left [of l "''@'' @ escape_right r"] at by (simp only:)
  finally show ?thesis by simp
qed

end
