(* ===== verification/Wire.thy ===== *)
theory Wire
  imports Message
begin

text \<open>
  The wire format of articles, from \<^verbatim>\<open>src/src/handlers/utils.rs\<close>: what \<open>send_headers\<close> and \<open>send_body\<close>
  write, and what \<open>read_message\<close> reads from a connection.

  A connection's input is the text the client sends and how it ends: with the end of the stream
  (\<open>Eof\<close>), with the client staying connected and silent (\<open>Idle\<close>), or with a read error (\<open>Broken\<close>).
  A read that waits for ever has no result: \<open>None\<close>.
\<close>

subsection \<open>Sending\<close>

definition send_headers :: "message \<Rightarrow> string" where
  "send_headers article = concat (map (\<lambda>(name, val). name @ '': '' @ val @ CRLF) (headers article))"

definition stuff_line :: "string \<Rightarrow> string" where
  "stuff_line line = (if starts_with line ''.'' then ''.'' else []) @ line @ CRLF"

definition send_body :: "string \<Rightarrow> string" where
  "send_body b = concat (map stuff_line (str_lines b))"

subsection \<open>Reading\<close>

datatype stream_end = Eof | Idle | Broken

record reader =
  pending :: string
  stream_end :: stream_end

text \<open>\<^verbatim>\<open>AsyncBufReadExt::read_line\<close>: a complete line, or at the end of the stream what is left of it
  (nothing, when all was read).\<close>

definition read_line :: "reader \<Rightarrow> (string result \<times> reader) option" where
  "read_line r =
     (let (line, rest) = take_line (pending r)
      in if ends_with line [LF] then Some (Inr line, r\<lparr>pending := rest\<rparr>)
         else case stream_end r of
                Eof \<Rightarrow> Some (Inr line, r\<lparr>pending := []\<rparr>)
              | Idle \<Rightarrow> None
              | Broken \<Rightarrow> Some (Inl Io, r))"

partial_function (option) read_message_loop ::
  "string \<Rightarrow> reader \<Rightarrow> (string result \<times> reader) option" where
  "read_message_loop msg r =
     Option.bind (read_line r) (\<lambda>(res, r').
       case res of
         Inl e \<Rightarrow> Some (Inl e, r')
       | Inr line \<Rightarrow>
           if line = ''.'' @ CRLF \<or> line = ''.'' @ [LF] then Some (Inr msg, r')
           else if starts_with line ''..'' then read_message_loop (msg @ tl line) r'
           else read_message_loop (msg @ line) r')"

declare read_message_loop.simps [code]

definition read_message :: "reader \<Rightarrow> (string result \<times> reader) option" where
  "read_message r = read_message_loop [] r"

subsection \<open>Dot-stuffing round trip\<close>

lemma read_line_complete:
  "LF \<notin> set a \<Longrightarrow> read_line \<lparr>pending = a @ LF # b, stream_end = e\<rparr> =
     Some (Inr (a @ [LF]), \<lparr>pending = b, stream_end = e\<rparr>)"
  by (simp add: read_line_def take_line_LF)

lemma stuffed_line:
  assumes "LF \<notin> set l"
  shows "read_message_loop msg \<lparr>pending = stuff_line l @ rest, stream_end = e\<rparr> =
           read_message_loop (msg @ l @ CRLF) \<lparr>pending = rest, stream_end = e\<rparr>"
proof (cases "starts_with l ''.''")
  case True
  then obtain k where l: "l = CHR ''.'' # k" by (auto simp: starts_with_singleton)
  let ?line = "(''.'' @ l @ [CR]) @ [LF]"
  have "read_line \<lparr>pending = (''.'' @ l @ [CR]) @ LF # rest, stream_end = e\<rparr> =
          Some (Inr ?line, \<lparr>pending = rest, stream_end = e\<rparr>)"
    using assms by (intro read_line_complete) simp
  moreover have "stuff_line l @ rest = (''.'' @ l @ [CR]) @ LF # rest"
    using True by (simp add: stuff_line_def)
  moreover have "?line \<noteq> ''.'' @ CRLF" "?line \<noteq> ''.'' @ [LF]" "starts_with ?line ''..''"
    by (simp_all add: l starts_with_def)
  ultimately show ?thesis
    by (subst read_message_loop.simps) simp
next
  case False
  let ?line = "(l @ [CR]) @ [LF]"
  have "read_line \<lparr>pending = (l @ [CR]) @ LF # rest, stream_end = e\<rparr> =
          Some (Inr ?line, \<lparr>pending = rest, stream_end = e\<rparr>)"
    using assms by (intro read_line_complete) simp
  moreover have "stuff_line l @ rest = (l @ [CR]) @ LF # rest"
    using False by (simp add: stuff_line_def)
  moreover have "?line \<noteq> ''.'' @ CRLF" "?line \<noteq> ''.'' @ [LF]" "\<not> starts_with ?line ''..''"
    using False by (cases l; auto simp: starts_with_def)+
  ultimately show ?thesis
    by (subst read_message_loop.simps) simp
qed

lemma read_terminator:
  "read_message_loop msg \<lparr>pending = ''.'' @ CRLF @ rest, stream_end = e\<rparr> =
     Some (Inr msg, \<lparr>pending = rest, stream_end = e\<rparr>)"
  using read_line_complete [of "''.'' @ [CR]" rest e]
  by (subst read_message_loop.simps) simp

lemma read_stuffed_lines:
  assumes "\<And>l. l \<in> set ls \<Longrightarrow> LF \<notin> set l"
  shows "read_message_loop msg
           \<lparr>pending = concat (map stuff_line ls) @ ''.'' @ CRLF @ rest, stream_end = e\<rparr> =
         Some (Inr (msg @ concat (map (\<lambda>l. l @ CRLF) ls)), \<lparr>pending = rest, stream_end = e\<rparr>)"
  using assms
proof (induction ls arbitrary: msg)
  case Nil
  then show ?case using read_terminator [of msg rest e] by simp
next
  case (Cons l ls)
  have "LF \<notin> set l" using Cons.prems by simp
  then have "read_message_loop msg
        \<lparr>pending = stuff_line l @ concat (map stuff_line ls) @ ''.'' @ CRLF @ rest, stream_end = e\<rparr> =
      read_message_loop (msg @ l @ CRLF)
        \<lparr>pending = concat (map stuff_line ls) @ ''.'' @ CRLF @ rest, stream_end = e\<rparr>"
    by (rule stuffed_line)
  with Cons.IH [of "msg @ l @ CRLF"] Cons.prems show ?case by simp
qed

text \<open>The body with every line ended by a carriage return and a line feed: what a receiver gets.\<close>

definition crlf_body :: "string \<Rightarrow> string" where
  "crlf_body b = concat (map (\<lambda>l. l @ CRLF) (str_lines b))"

lemma read_send_body:
  "read_message \<lparr>pending = send_body b @ ''.'' @ CRLF @ rest, stream_end = e\<rparr> =
     Some (Inr (crlf_body b), \<lparr>pending = rest, stream_end = e\<rparr>)"
  unfolding read_message_def send_body_def crlf_body_def
  using read_stuffed_lines [of "str_lines b" "[]" rest e] str_lines_no_LF by simp

subsection \<open>When reading an article ends\<close>

definition is_terminator :: "string \<Rightarrow> bool" where
  "is_terminator l \<longleftrightarrow> l = ''.'' @ CRLF \<or> l = ''.'' @ [LF]"

definition has_terminator :: "string \<Rightarrow> bool" where
  "has_terminator p \<longleftrightarrow> list_ex is_terminator (split_inclusive_LF p)"

definition unstuff :: "string \<Rightarrow> string" where
  "unstuff l = (if starts_with l ''..'' then tl l else l)"

lemma has_terminator_Nil [simp]: "\<not> has_terminator []"
  by (simp add: has_terminator_def)

lemma split_inclusive_LF_cons:
  "p \<noteq> [] \<Longrightarrow> take_line p = (l, r) \<Longrightarrow> split_inclusive_LF p = l # split_inclusive_LF r"
  by (subst split_inclusive_LF.simps) simp

lemma has_terminator_step:
  "p \<noteq> [] \<Longrightarrow> take_line p = (l, r) \<Longrightarrow> has_terminator p \<longleftrightarrow> is_terminator l \<or> has_terminator r"
  by (simp add: has_terminator_def split_inclusive_LF_cons)

lemma is_terminator_ends: "is_terminator l \<Longrightarrow> ends_with l [LF]"
  by (auto simp: is_terminator_def ends_with_def)

lemma take_line_incomplete: "take_line p = (l, r) \<Longrightarrow> \<not> ends_with l [LF] \<Longrightarrow> r = []"
proof (induction p arbitrary: l r)
  case Nil
  then show ?case by simp
next
  case (Cons c p)
  show ?case
  proof (cases "c = LF")
    case True
    with Cons.prems show ?thesis by (auto simp: ends_with_def)
  next
    case False
    obtain k t where kt: "take_line p = (k, t)" by fastforce
    with False Cons.prems have "l = c # k" "r = t" by auto
    moreover from this Cons.prems(2) have "\<not> ends_with k [LF]"
      by (auto simp: ends_with_singleton)
    ultimately show ?thesis using Cons.IH [OF kt] by simp
  qed
qed

text \<open>At the end of the stream the loop only stops at a terminator line: without one it never
  returns.\<close>

lemma read_message_loop_Some:
  assumes ret: "read_message_loop msg r = Some y"
  shows "stream_end r = Eof \<longrightarrow> has_terminator (pending r)"
proof (rule read_message_loop.raw_induct
    [where P = "\<lambda>msg r y. stream_end r = Eof \<longrightarrow> has_terminator (pending r)", OF _ ret], intro impI)
  fix f :: "string \<Rightarrow> reader \<Rightarrow> (string result \<times> reader) option" and msg r y
  assume IH: "\<And>msg r y. f msg r = Some y \<Longrightarrow> stream_end r = Eof \<longrightarrow> has_terminator (pending r)"
    and eq: "Option.bind (read_line r) (\<lambda>(res, r').
       case res of Inl e \<Rightarrow> Some (Inl e, r')
       | Inr line \<Rightarrow>
           if line = ''.'' @ CRLF \<or> line = ''.'' @ [LF] then Some (Inr msg, r')
           else if starts_with line ''..'' then f (msg @ tl line) r'
           else f (msg @ line) r') = Some y"
    and eof: "stream_end r = Eof"
  obtain l t where lt: "take_line (pending r) = (l, t)" by fastforce
  have rl: "read_line r = Some (Inr l, r\<lparr>pending := t\<rparr>)"
    using eof lt take_line_incomplete [OF lt] by (auto simp: read_line_def)
  have "is_terminator l \<or> (\<exists>m. f m (r\<lparr>pending := t\<rparr>) = Some y)"
    using eq unfolding rl by (auto simp: is_terminator_def split: if_splits)
  then have *: "is_terminator l \<or> has_terminator t"
    using IH [of _ "r\<lparr>pending := t\<rparr>" y] eof by fastforce
  from * have "pending r \<noteq> []"
    using lt by (auto simp: is_terminator_def)
  with * show "has_terminator (pending r)"
    using has_terminator_step lt by blast
qed

lemma read_message_loop_value:
  "has_terminator p \<Longrightarrow>
   \<exists>rest. read_message_loop msg \<lparr>pending = p, stream_end = e\<rparr> =
     Some (Inr (msg @ concat (map unstuff (takeWhile (\<lambda>l. \<not> is_terminator l) (split_inclusive_LF p)))),
           \<lparr>pending = rest, stream_end = e\<rparr>)"
proof (induction p arbitrary: msg rule: split_inclusive_LF.induct)
  case (1 p)
  obtain l t where lt: "take_line p = (l, t)" by fastforce
  have ne: "p \<noteq> []" using "1.prems" by auto
  note step = split_inclusive_LF_cons [OF ne lt] and trm = has_terminator_step [OF ne lt]
  have ends: "ends_with l [LF]"
    using "1.prems" trm is_terminator_ends take_line_incomplete [OF lt] has_terminator_Nil by blast
  have rl: "read_line \<lparr>pending = p, stream_end = e\<rparr> =
      Some (Inr l, \<lparr>pending = t, stream_end = e\<rparr>)"
    using lt ends by (simp add: read_line_def)
  show ?case
  proof (cases "is_terminator l")
    case True
    then show ?thesis
      by (subst read_message_loop.simps) (simp add: rl step, auto simp: is_terminator_def)
  next
    case False
    then have "read_message_loop msg \<lparr>pending = p, stream_end = e\<rparr> =
        read_message_loop (msg @ unstuff l) \<lparr>pending = t, stream_end = e\<rparr>"
      by (subst read_message_loop.simps) (auto simp: rl is_terminator_def unstuff_def)
    moreover have "has_terminator t" using False "1.prems" trm by simp
    ultimately show ?thesis
      using "1.IH" [OF ne lt [symmetric] refl, of "msg @ unstuff l"] False by (simp add: step)
  qed
qed

subsection \<open>Transfer of whole articles\<close>

definition header_ok :: "header \<Rightarrow> bool" where
  "header_ok h \<longleftrightarrow> (case h of (n, v) \<Rightarrow>
     n \<noteq> [] \<and> hd n \<noteq> CHR ''.'' \<and> \<not> is_space (hd n) \<and>
     list_all (\<lambda>c. c \<noteq> CHR '':'' \<and> c \<noteq> CR \<and> c \<noteq> LF) n \<and>
     list_all (\<lambda>c. c \<noteq> CR \<and> c \<noteq> LF) v \<and> (v = [] \<or> \<not> is_space (hd v)))"

abbreviation render_header :: "header \<Rightarrow> string" where
  "render_header \<equiv> \<lambda>(n, v). n @ '': '' @ v @ CRLF"

lemma parse_header_line_render:
  assumes "nom_ok X" and "header_ok (n, v)" and "r = [] \<or> \<not> is_space (hd r)"
  shows "parse_header_line X (n @ '': '' @ v @ CRLF @ r) = Some (r, (n, v))"
proof -
  have 1: "take_while1 (\<lambda>c. c \<noteq> CHR '':'' \<and> c \<noteq> CR \<and> c \<noteq> LF) (n @ '': '' @ v @ CRLF @ r) =
      Some ('': '' @ v @ CRLF @ r, n)"
    using assms(2) by (intro take_while1_append) (auto simp: header_ok_def list_all_iff)
  have 2: "take_till (\<lambda>c. \<not> is_space c) ('' '' @ (v @ CRLF @ r)) = Some (v @ CRLF @ r, '' '')"
    using assms(2) by (intro take_till_append; cases v) (auto simp: header_ok_def is_space_def)
  have 3: "take_till is_eol_char (v @ (CRLF @ r)) = Some (CRLF @ r, v)"
    using assms(2) by (intro take_till_append) (auto simp: header_ok_def list_all_iff is_eol_char_def)
  have 4: "\<not> (starts_with r '' '' \<or> starts_with r [TAB])"
    using assms(3) by (auto simp: starts_with_singleton is_space_def)
  show ?thesis
    using assms(1) 1 2 3 4 by (simp add: parse_header_line_def nom_okD)
qed

lemma parse_headers_render:
  assumes "nom_ok X" and "list_all header_ok hs" and "length hs < f"
  shows "parse_headers X f (concat (map render_header hs) @ CRLF @ b) = Some (b, hs)"
  using assms(2,3)
proof (induction hs arbitrary: f)
  case Nil
  then show ?case by (cases f) (auto simp: strip_prefix_def starts_with_def)
next
  case (Cons h hs)
  obtain n v where h: "h = (n, v)" by fastforce
  obtain g where f: "f = Suc g" "length hs < g" using Cons.prems by (cases f) auto
  let ?r = "concat (map render_header hs) @ CRLF @ b"
  have "\<not> is_space (hd ?r)"
    using Cons.prems by (cases hs) (auto simp: header_ok_def is_space_def)
  then have "parse_header_line X (n @ '': '' @ v @ CRLF @ ?r) = Some (?r, (n, v))"
    using Cons.prems h by (intro parse_header_line_render [OF assms(1)]) auto
  moreover have "strip_prefix (n @ '': '' @ v @ CRLF @ ?r) CRLF = None"
    using Cons.prems h by (cases n) (auto simp: strip_prefix_def starts_with_def header_ok_def)
  ultimately show ?case
    using Cons.IH [OF _ f(2)] Cons.prems by (simp add: f h)
qed

lemma parse_message_render:
  assumes "nom_ok X" and "list_all header_ok (headers m)"
  shows "parse_message X (send_headers m @ CRLF @ b) =
           Some ([], \<lparr>headers = map_message_id unescape_message_id (headers m), body = b\<rparr>)"
proof -
  have len: "length hs \<le> length (concat (map render_header hs))" for hs
    by (induction hs) auto
  have "length (headers m) < Suc (length (send_headers m @ CRLF @ b))"
    using len [of "headers m"] unfolding send_headers_def length_append by linarith
  from parse_headers_render [OF assms this, of b] show ?thesis
    by (simp add: parse_message_def send_headers_def)
qed

lemma read_header_lines:
  assumes "list_all header_ok hs"
  shows "read_message_loop msg \<lparr>pending = concat (map render_header hs) @ rest, stream_end = e\<rparr> =
           read_message_loop (msg @ concat (map render_header hs)) \<lparr>pending = rest, stream_end = e\<rparr>"
  using assms
proof (induction hs arbitrary: msg)
  case (Cons h hs)
  obtain n v where h: "h = (n, v)" by fastforce
  let ?l = "n @ '': '' @ v @ [CR]" and ?t = "concat (map render_header hs) @ rest"
  have ok: "header_ok (n, v)" using Cons.prems h by simp
  then have "LF \<notin> set n" "LF \<notin> set v" by (auto simp: header_ok_def list_all_iff)
  then have "LF \<notin> set ?l" by simp
  then have "read_line \<lparr>pending = ?l @ LF # ?t, stream_end = e\<rparr> =
      Some (Inr (?l @ [LF]), \<lparr>pending = ?t, stream_end = e\<rparr>)"
    by (rule read_line_complete)
  moreover have "?l @ [LF] \<noteq> ''.'' @ CRLF" "?l @ [LF] \<noteq> ''.'' @ [LF]" "\<not> starts_with (?l @ [LF]) ''..''"
    using ok by (cases n; simp add: header_ok_def starts_with_def)+
  ultimately have "read_message_loop msg \<lparr>pending = ?l @ LF # ?t, stream_end = e\<rparr> =
      read_message_loop (msg @ ?l @ [LF]) \<lparr>pending = ?t, stream_end = e\<rparr>"
    by (subst read_message_loop.simps) simp
  with Cons.IH [of "msg @ ?l @ [LF]"] Cons.prems show ?case by (simp add: h)
qed simp

lemma read_article:
  assumes "list_all header_ok (headers m)"
  shows "read_message \<lparr>pending = send_headers m @ CRLF @ send_body (body m) @ ''.'' @ CRLF @ rest,
                       stream_end = e\<rparr> =
         Some (Inr (send_headers m @ CRLF @ crlf_body (body m)), \<lparr>pending = rest, stream_end = e\<rparr>)"
proof -
  let ?t = "send_body (body m) @ ''.'' @ CRLF @ rest"
  have "read_message_loop (send_headers m) \<lparr>pending = stuff_line [] @ ?t, stream_end = e\<rparr> =
      read_message_loop (send_headers m @ [] @ CRLF) \<lparr>pending = ?t, stream_end = e\<rparr>"
    by (rule stuffed_line) simp
  then have blank: "read_message_loop (send_headers m) \<lparr>pending = CRLF @ ?t, stream_end = e\<rparr> =
      read_message_loop (send_headers m @ CRLF) \<lparr>pending = ?t, stream_end = e\<rparr>"
    by (simp add: stuff_line_def starts_with_def)
  have "read_message_loop (send_headers m @ CRLF) \<lparr>pending = ?t, stream_end = e\<rparr> =
      Some (Inr ((send_headers m @ CRLF) @ crlf_body (body m)), \<lparr>pending = rest, stream_end = e\<rparr>)"
    using read_stuffed_lines [of "str_lines (body m)" "send_headers m @ CRLF" rest e] str_lines_no_LF
    by (simp add: send_body_def crlf_body_def)
  then show ?thesis
    using read_header_lines [OF assms, of "[]" "CRLF @ ?t" e] blank
    by (simp add: read_message_def send_headers_def)
qed

end
