(* ===== verification/Wildmat.thy ===== *)
theory Wildmat
  imports Externals
begin

text \<open>
  \<^verbatim>\<open>src/src/wildmat.rs\<close>: the translation of wildmat patterns to regular expressions, and the match.
  The regular expression crate is a parameter; \<open>wildmat_glob\<close> shows that on patterns without character
  classes the translation has the glob meaning.
\<close>

subsection \<open>The translation\<close>

fun class_loop :: "ext \<Rightarrow> string \<Rightarrow> string \<times> string" where
  "class_loop X [] = ([], [])"
| "class_loop X (ch # chars) =
     (if ch = CHR '']'' then ([], chars)
      else if ch = BSLASH
      then (case chars of
              [] \<Rightarrow> ([BSLASH], [])
            | n # chars' \<Rightarrow>
                (let (k, r) = class_loop X chars' in (regex_escape X [n] @ k, r)))
      else (let (k, r) = class_loop X chars in (ch # k, r)))"

definition parse_class :: "ext \<Rightarrow> string \<Rightarrow> (string \<times> string) option" where
  "parse_class X chars =
     (if CHR '']'' \<notin> set chars then None
      else let (neg, chars') =
                 (case chars of
                    first # r \<Rightarrow> if first = CHR ''!'' \<or> first = CHR ''^'' then (''^'', r) else ([], chars)
                  | [] \<Rightarrow> ([], chars));
               (class, rest) = class_loop X chars'
           in Some (neg @ class, rest))"

lemma class_loop_length: "class_loop X chars = (k, r) \<Longrightarrow> length r \<le> length chars"
proof (induction X chars arbitrary: k r rule: class_loop.induct)
  case (1 X)
  then show ?case by simp
next
  case (2 X ch chars)
  then show ?case
    by (fastforce split: if_splits list.splits prod.splits)
qed

lemma parse_class_length: "parse_class X chars = Some (k, r) \<Longrightarrow> length r \<le> length chars"
  by (auto simp: parse_class_def Let_def split: if_splits list.splits prod.splits
      dest!: class_loop_length)

function regex_body :: "ext \<Rightarrow> string \<Rightarrow> string" where
  "regex_body X [] = []"
| "regex_body X (c # chars) =
     (if c = CHR ''*'' then ''.*'' @ regex_body X chars
      else if c = CHR ''?'' then ''.'' @ regex_body X chars
      else if c = CHR ''[''
      then (case parse_class X chars of
              Some (class, rest) \<Rightarrow> ''['' @ class @ '']'' @ regex_body X rest
            | None \<Rightarrow> [BSLASH, CHR ''[''] @ regex_body X chars)
      else if c = BSLASH
      then (case chars of
              n # chars' \<Rightarrow> regex_escape X [n] @ regex_body X chars'
            | [] \<Rightarrow> [BSLASH])
      else regex_escape X [c] @ regex_body X chars)"
  by pat_completeness auto
termination
  by (relation "measure (\<lambda>(X, s). length s)") (auto dest: parse_class_length)

definition pattern_to_regex :: "ext \<Rightarrow> string \<Rightarrow> string" where
  "pattern_to_regex X pattern = ''^'' @ regex_body X pattern @ ''$''"

definition wildmat :: "ext \<Rightarrow> string \<Rightarrow> string \<Rightarrow> bool" where
  "wildmat X pattern text =
     (case regex_is_match X (pattern_to_regex X pattern) text of Some b \<Rightarrow> b | None \<Rightarrow> False)"

subsection \<open>The glob reading of a pattern\<close>

text \<open>The atoms a pattern without brackets stands for; \<open>None\<close> when it ends in a lone backslash.\<close>

fun pattern_atoms :: "string \<Rightarrow> rx_atom list option" where
  "pattern_atoms [] = Some []"
| "pattern_atoms (c # r) =
     (if c = CHR ''*'' then map_option ((#) RxAnyStar) (pattern_atoms r)
      else if c = CHR ''?'' then map_option ((#) RxAny) (pattern_atoms r)
      else if c = CHR ''['' then None
      else if c = BSLASH
      then (case r of [] \<Rightarrow> None | n # r' \<Rightarrow> map_option ((#) (RxLit n)) (pattern_atoms r'))
      else map_option ((#) (RxLit c)) (pattern_atoms r))"

lemma pattern_atoms_length: "pattern_atoms p = Some as \<Longrightarrow> length as \<le> length p"
  by (induction p arbitrary: as rule: pattern_atoms.induct)
     (fastforce split: if_splits list.splits)+

lemma regex_body_atoms:
  "pattern_atoms p = Some as \<Longrightarrow> regex_body X p = concat (map (rx_render X) as)"
  by (induction p arbitrary: as rule: pattern_atoms.induct)
     (auto split: if_splits list.splits)

lemma wildmat_atoms:
  assumes "regex_ok X" and "pattern_atoms p = Some as" and "length p \<le> 512"
  shows "wildmat X p t = glob as t"
proof -
  have "length as \<le> 512" using pattern_atoms_length [OF assms(2)] assms(3) by simp
  then have "regex_is_match X (''^'' @ concat (map (rx_render X) as) @ ''$'') t = Some (glob as t)"
    using assms(1) by (simp add: regex_ok_def)
  then show ?thesis
    by (simp add: wildmat_def pattern_to_regex_def regex_body_atoms [OF assms(2)])
qed

text \<open>Names (no wildcard, bracket or backslash) match only themselves.\<close>

definition plain_name :: "string \<Rightarrow> bool" where
  "plain_name p \<longleftrightarrow> set p \<inter> {CHR ''*'', CHR ''?'', CHR ''['', BSLASH} = {}"

lemma pattern_atoms_plain: "plain_name p \<Longrightarrow> pattern_atoms p = Some (map RxLit p)"
  by (induction p rule: pattern_atoms.induct) (auto simp: plain_name_def)

lemma glob_lits [simp]: "glob (map RxLit p) t \<longleftrightarrow> t = p"
  by (induction p arbitrary: t) (auto split: list.splits)

lemma glob_prefix_star:
  "glob (map RxLit p @ [RxAnyStar]) t \<longleftrightarrow> (\<exists>r. t = p @ r \<and> LF \<notin> set r)"
proof (induction p arbitrary: t)
  case Nil
  show ?case by (induction t) auto
next
  case (Cons c p)
  then show ?case by (auto split: list.splits)
qed

lemma pattern_atoms_prefix:
  "plain_name p \<Longrightarrow> pattern_atoms (p @ ''*'') = Some (map RxLit p @ [RxAnyStar])"
  by (induction p rule: pattern_atoms.induct) (auto simp: plain_name_def)

lemma wildmat_plain:
  assumes "regex_ok X" and "plain_name p" and "length p \<le> 512"
  shows "wildmat X p t \<longleftrightarrow> t = p"
  using wildmat_atoms [OF assms(1) pattern_atoms_plain [OF assms(2)] assms(3)] by simp

lemma wildmat_prefix:
  assumes "regex_ok X" and "plain_name p" and "length p < 512"
  shows "wildmat X (p @ ''*'') t \<longleftrightarrow> (\<exists>r. t = p @ r \<and> LF \<notin> set r)"
  using wildmat_atoms [OF assms(1) pattern_atoms_prefix [OF assms(2)]] assms(3)
  by (simp add: glob_prefix_star)

end
