(* ===== verification/Sample_Externals.thy ===== *)
theory Sample_Externals
  imports Externals
begin

text \<open>
  A concrete record of external functions, \<open>sample_ext\<close>, and the proofs that it satisfies the named
  hypotheses of \<open>Externals\<close>. It stands for no crate: it only shows that the hypotheses can hold
  together, and closed instances of the theorems are evaluated at it.
\<close>

subsection \<open>A regular expression engine for the fragment\<close>

definition rx_meta :: string where
  "rx_meta = [BSLASH] @ ''.+*?()|[]{}^$#&-~''"

definition sample_escape :: "string \<Rightarrow> string" where
  "sample_escape s = concat (map (\<lambda>c. if c \<in> set rx_meta then [BSLASH, c] else [c]) s)"

fun rx_parse :: "string \<Rightarrow> rx_atom list option" where
  "rx_parse [] = Some []"
| "rx_parse (c # r) =
     (if c = BSLASH then (case r of [] \<Rightarrow> None | x # r' \<Rightarrow> map_option ((#) (RxLit x)) (rx_parse r'))
      else if c = CHR ''.''
      then (case r of
              x # r' \<Rightarrow> if x = CHR ''*'' then map_option ((#) RxAnyStar) (rx_parse r')
                       else map_option ((#) RxAny) (rx_parse r)
            | [] \<Rightarrow> map_option ((#) RxAny) (rx_parse r))
      else if c \<in> set rx_meta then None
      else map_option ((#) (RxLit c)) (rx_parse r))"

definition sample_is_match :: "string \<Rightarrow> string \<Rightarrow> bool option" where
  "sample_is_match re t = map_option (\<lambda>as. glob as t) (rx_parse (butlast (tl re)))"

lemma rx_meta_props [simp]: "BSLASH \<in> set rx_meta" "CHR ''.'' \<in> set rx_meta" "CHR ''*'' \<in> set rx_meta"
  by (simp_all add: rx_meta_def)

primrec sample_render :: "rx_atom \<Rightarrow> string" where
  "sample_render (RxLit c) = sample_escape [c]"
| "sample_render RxAny = ''.''"
| "sample_render RxAnyStar = ''.*''"

lemma sample_escape_single: "sample_escape [c] = (if c \<in> set rx_meta then [BSLASH, c] else [c])"
  by (simp add: sample_escape_def)

lemma sample_render_hd: "\<exists>x xs. concat (map sample_render as) = x # xs \<and> x \<noteq> CHR ''*''"
  if "as \<noteq> []"
proof -
  from that obtain a bs where "as = a # bs" by (cases as) auto
  then show ?thesis by (cases a) (auto simp: sample_escape_single)
qed

lemma rx_parse_render: "rx_parse (concat (map sample_render as)) = Some as"
proof (induction as)
  case Nil
  then show ?case by simp
next
  case (Cons a as)
  show ?case
  proof (cases a)
    case (RxLit c)
    then show ?thesis
      using Cons rx_meta_props by (cases "c \<in> set rx_meta") (auto simp: sample_escape_single)
  next
    case RxAny
    show ?thesis
    proof (cases "as = []")
      case True
      with RxAny show ?thesis by simp
    next
      case False
      then obtain x xs where "concat (map sample_render as) = x # xs" "x \<noteq> CHR ''*''"
        using sample_render_hd by blast
      with RxAny Cons show ?thesis by simp
    qed
  next
    case RxAnyStar
    with Cons show ?thesis by simp
  qed
qed

subsection \<open>A reversible encoding of header lists\<close>

definition enc_str :: "string \<Rightarrow> string" where
  "enc_str s = concat (map (\<lambda>c. [CHR ''a'', c]) s) @ ''b''"

definition sample_to_string :: "header list \<Rightarrow> string" where
  "sample_to_string hs = concat (map (\<lambda>(n, v). enc_str n @ enc_str v) hs)"

fun dec_headers :: "string \<Rightarrow> string option \<Rightarrow> string \<Rightarrow> header list option" where
  "dec_headers acc None [] = (if acc = [] then Some [] else None)"
| "dec_headers acc (Some n) [] = None"
| "dec_headers acc k (c # r) =
     (if c = CHR ''a'' then (case r of [] \<Rightarrow> None | x # r' \<Rightarrow> dec_headers (acc @ [x]) k r')
      else case k of
             None \<Rightarrow> dec_headers [] (Some acc) r
           | Some n \<Rightarrow> map_option ((#) (n, acc)) (dec_headers [] None r))"

definition sample_from_str :: "string \<Rightarrow> header list option" where
  "sample_from_str s = dec_headers [] None s"

lemma dec_headers_str:
  "dec_headers acc k (enc_str s @ r) =
     (case k of
        None \<Rightarrow> dec_headers [] (Some (acc @ s)) r
      | Some n \<Rightarrow> map_option ((#) (n, acc @ s)) (dec_headers [] None r))"
proof (induction s arbitrary: acc)
  case Nil
  then show ?case by (simp add: enc_str_def split: option.split)
next
  case (Cons c s)
  have "dec_headers acc k (enc_str (c # s) @ r) = dec_headers (acc @ [c]) k (enc_str s @ r)"
    by (simp add: enc_str_def)
  with Cons show ?case by (cases k) simp_all
qed

lemma sample_json_inverse: "sample_from_str (sample_to_string hs) = Some hs"
  by (induction hs) (auto simp: sample_from_str_def sample_to_string_def dec_headers_str)

subsection \<open>The record\<close>

definition sample_ext :: ext where
  "sample_ext = \<lparr>
     nom_take_while1 = take_while1, nom_take_till = take_till, nom_is_not = is_not,
     nom_char = parse_char, nom_crlf = parse_crlf, nom_digit1 = take_while1 is_ascii_digit,
     nom_space0 = take_till (\<lambda>c. \<not> is_space c), nom_space1 = take_while1 is_space,
     nom_separated_list1 = separated_list1,
     regex_escape = sample_escape, regex_is_match = sample_is_match,
     json_to_string = sample_to_string, json_from_str = sample_from_str,
     sha1_digest = (\<lambda>s. replicate 20 (of_nat (length s))),
     sha256_digest = map (\<lambda>c. of_nat (char_code c)),
     sha512_digest = map (\<lambda>c. of_nat (char_code c)),
     base64_encode = (\<lambda>bs. concat (map hex_byte bs)),
     pgp_key_from_string = (\<lambda>k. starts_with k ''key''),
     pgp_sig_from_armor = (\<lambda>a. True),
     pgp_sig_verify = (\<lambda>k a d. True),
     pgp_http_get_one = (\<lambda>u ks. None),
     pgp_to_armored_string = Some,
     argon2_hash_password = (\<lambda>p s. Some (s @ p)),
     argon2_parse_hash = (\<lambda>h. True),
     argon2_verify_password = (\<lambda>p h. ends_with h p),
     salt_generate = ''salt'',
     chrono_parse_rfc2822 = (\<lambda>s. map_option int (parse_uint 64 s)),
     chrono_parse_rfc3339 = (\<lambda>s. None),
     chrono_to_rfc2822 = (\<lambda>t. show_nat (nat t)),
     chrono_parse_date = (\<lambda>fmt s. map_option int (parse_uint 64 s)),
     chrono_parse_time = (\<lambda>fmt s. map_option int (parse_uint 64 s)),
     chrono_local_single = Some,
     chrono_format = (\<lambda>fmt t. show_nat (nat (timestamp t))),
     chrono_parse_datetime = (\<lambda>fmt s. map_option (\<lambda>n. int n * 1000000000) (Some (digits_val s))),
     chrono_from_timestamp = (\<lambda>t. Some (t * 1000000000)),
     milter_config_from_json = (\<lambda>p. Some (p, 30)),
     tcp_connect = (\<lambda>addr t. Dialed), unix_connect = (\<lambda>path t. Dialed),
     load_native_certs = Inr [''root''], root_store_add = (\<lambda>cert. None), server_name_valid = (\<lambda>h. h \<noteq> []),
     tls_connect = (\<lambda>roots host addr. None),
     milter_reply = (\<lambda>addr cmds. Some [0, 0, 0, 1, 99]),
     utc_now = 1700000000000000000\<rparr>"

lemma nom_ok_sample: "nom_ok sample_ext"
  by (simp add: nom_ok_def sample_ext_def)

lemma regex_ok_sample: "regex_ok sample_ext"
proof -
  have render: "rx_render sample_ext a = sample_render a" for a
    by (cases a) (simp_all add: sample_ext_def)
  show ?thesis
    unfolding regex_ok_def
  proof (intro allI impI)
    fix as t
    have "butlast (tl (''^'' @ concat (map sample_render as) @ ''$'')) = concat (map sample_render as)"
      by simp
    then show "regex_is_match sample_ext (''^'' @ concat (map (rx_render sample_ext) as) @ ''$'') t =
        Some (glob as t)"
      unfolding render
      by (simp add: sample_ext_def sample_is_match_def rx_parse_render)
  qed
qed

lemma json_ok_sample: "json_ok sample_ext"
  by (simp add: json_ok_def sample_ext_def sample_json_inverse)

lemma sha1_ok_sample: "sha1_ok sample_ext"
  by (simp add: sha1_ok_def sample_ext_def)

lemma chrono_ok_sample: "chrono_ok sample_ext"
proof -
  have "digits_val (show_nat (nat (timestamp t))) = nat (timestamp t)" for t by simp
  then show ?thesis by (simp add: chrono_ok_def sample_ext_def timestamp_def)
qed

lemma argon2_ok_sample: "argon2_ok sample_ext"
  by (auto simp: argon2_ok_def sample_ext_def)

lemmas sample_ok = chrono_ok_sample argon2_ok_sample nom_ok_sample regex_ok_sample json_ok_sample sha1_ok_sample

end
