(* ===== verification/Protocol_Properties.thy ===== *)
theory Protocol_Properties
  imports Wire Wildmat Sample_Externals
begin

text \<open>
  The properties of the protocol's syntax: command lines, message identifiers, article transfer and
  wildmat patterns, each with a closed instance at \<open>sample_ext\<close>.
\<close>

text \<open>A command line made of an alphabetic name and arguments without spaces, with or without its
  line end, parses to that name in upper case and exactly these arguments, with no input left.\<close>

theorem parse_command_roundtrip:
  assumes "nom_ok X" and "name \<noteq> []" and "list_all is_ascii_alphabetic name"
    and "list_all arg_ok as" and "e = [] \<or> e = CRLF"
  shows "parse_command X (name @ render_args as @ e) =
           Some ([], \<lparr>cmd_name = to_ascii_uppercase name, cmd_args = as\<rparr>)"
  by (rule parse_command_render [OF assms])

theorem parse_command_roundtrip_witness:
  "parse_command sample_ext (''group'' @ render_args [''misc.test'', ''1-5''] @ CRLF) =
     Some ([], \<lparr>cmd_name = to_ascii_uppercase ''group'', cmd_args = [''misc.test'', ''1-5'']\<rparr>)"
  by (rule parse_command_roundtrip [OF nom_ok_sample]) code_simp+

text \<open>Escaping a message identifier for the wire and unescaping it gives the identifier back,
  whatever its local part, when the part after the at sign is a domain.\<close>

theorem message_id_escape_roundtrip:
  assumes "CHR ''@'' \<notin> set l" and "domain_part r"
  shows "unescape_message_id (escape_message_id (''<'' @ l @ ''@'' @ r @ ''>'')) =
           ''<'' @ l @ ''@'' @ r @ ''>''"
  by (rule unescape_escape_message_id [OF assms])

theorem message_id_escape_roundtrip_witness:
  "unescape_message_id (escape_message_id (''<'' @ ''a b'' @ ''@'' @ ''news.example'' @ ''>'')) =
     ''<'' @ ''a b'' @ ''@'' @ ''news.example'' @ ''>''"
  by (rule message_id_escape_roundtrip) code_simp+

text \<open>C35: an article sent as the ARTICLE command sends it (headers, empty line, dot-stuffed body,
  terminator) is read back by the article reader of the other side, which consumes exactly the article,
  and parses to the same headers (with the message identifier unescaped) and the same body lines.\<close>

theorem article_transfer:
  assumes "nom_ok X" and "list_all header_ok (headers m)"
  shows "\<exists>text.
     read_message \<lparr>pending = send_headers m @ CRLF @ send_body (body m) @ ''.'' @ CRLF @ rest,
                   stream_end = e\<rparr> = Some (Inr text, \<lparr>pending = rest, stream_end = e\<rparr>) \<and>
     parse_message X text =
       Some ([], \<lparr>headers = map_message_id unescape_message_id (headers m),
                   body = crlf_body (body m)\<rparr>)"
  using read_article [OF assms(2)] parse_message_render [OF assms] by blast

theorem article_transfer_witness:
  "\<exists>text.
     read_message \<lparr>pending = send_headers \<lparr>headers = [(''From'', ''u''), (''Subject'', ''a: b'')],
                                          body = ''.dot'' @ [LF] @ ''end''\<rparr>
                     @ CRLF @ send_body (''.dot'' @ [LF] @ ''end'') @ ''.'' @ CRLF @ ''QUIT'' @ CRLF,
                   stream_end = Idle\<rparr> =
       Some (Inr text, \<lparr>pending = ''QUIT'' @ CRLF, stream_end = Idle\<rparr>) \<and>
     parse_message sample_ext text =
       Some ([], \<lparr>headers = map_message_id unescape_message_id [(''From'', ''u''), (''Subject'', ''a: b'')],
                   body = crlf_body (''.dot'' @ [LF] @ ''end'')\<rparr>)"
proof -
  let ?m = "\<lparr>headers = [(''From'', ''u''), (''Subject'', ''a: b'')], body = ''.dot'' @ [LF] @ ''end''\<rparr>"
  have "list_all header_ok (headers ?m)" by code_simp
  from article_transfer [OF nom_ok_sample this, of "''QUIT'' @ CRLF" Idle] show ?thesis
    unfolding message.select_convs .
qed



text \<open>C39: a wildmat pattern without brackets matches as the glob it reads as: a star any run of
  characters, a question mark one character, a backslash the next character, anything else itself; so a
  plain name matches itself only and a name with a star its extensions.\<close>

theorem wildmat_meaning:
  assumes "regex_ok X" and "pattern_atoms p = Some as" and "length p \<le> 512"
  shows "wildmat X p t \<longleftrightarrow> glob as t"
  by (simp add: wildmat_atoms [OF assms])

theorem wildmat_meaning_witness:
  "wildmat sample_ext ''comp.*.c?'' ''comp.lang.c1'' \<longleftrightarrow>
   glob (map RxLit ''comp.'' @ [RxAnyStar] @ map RxLit ''.c'' @ [RxAny]) ''comp.lang.c1''"
  by (rule wildmat_meaning [OF regex_ok_sample]) code_simp+

end
