(* ===== verification/Sql.thy ===== *)
theory Sql
  imports Externals
begin

text \<open>
  The SQL engine as the source uses it: one statement at a time, each atomic, each of which may fail. A
  database is a record that extends \<open>sql_engine\<close> with its tables, which are lists of rows in insertion order.
  \<open>faults\<close> holds, for the statements to come, whether the engine will fail them (\<open>True\<close>; an exhausted
  list means no failure). A statement that violates a key of the schema is an error of its own.
\<close>

record sql_engine =
  faults :: "bool list"

definition exec :: "('d sql_engine_scheme, 'a) action \<Rightarrow> ('d sql_engine_scheme, 'a) action" where
  "exec stmt d =
     (case faults d of
        [] \<Rightarrow> stmt d
      | f # fs \<Rightarrow> if f then (Inl Database, d\<lparr>faults := fs\<rparr>) else stmt (d\<lparr>faults := fs\<rparr>))"

definition select :: "('d sql_engine_scheme \<Rightarrow> 'a) \<Rightarrow> ('d sql_engine_scheme, 'a) action" where
  "select q = exec (\<lambda>d. (Inr (q d), d))"

lemma faults_update_id: "faults d = fs \<Longrightarrow> d\<lparr>faults := fs\<rparr> = d"
  by (cases d) simp

lemma keeps_exec:
  assumes "\<And>d fs. P (d\<lparr>faults := fs\<rparr>) = P d" and "keeps P stmt"
  shows "keeps P (exec stmt)"
  using assms by (auto simp: keeps_def exec_def split: list.splits)

lemma keeps_select [keeps_intros]:
  "(\<And>d fs. P (d\<lparr>faults := fs\<rparr>) = P d) \<Longrightarrow> keeps P (select q)"
  unfolding select_def by (rule keeps_exec) (auto simp: keeps_def)

lemma exec_okE:
  assumes "exec stmt d = (Inr x, d')"
  obtains fs where "stmt (d\<lparr>faults := fs\<rparr>) = (Inr x, d')"
proof (cases "faults d")
  case Nil
  with assms that [of "[]"] show ?thesis by (simp add: exec_def faults_update_id)
next
  case (Cons f fs)
  with assms that [of fs] show ?thesis by (auto simp: exec_def split: if_splits)
qed

lemma select_cases:
  assumes "\<And>fs. q (d\<lparr>faults := fs\<rparr>) = q d" and "select q d = (r, d')"
  shows "(r = Inl Database \<or> r = Inr (q d)) \<and> (\<exists>fs. d' = d\<lparr>faults := fs\<rparr>)"
  using assms by (cases "faults d") (auto simp: select_def exec_def faults_update_id split: if_splits
      intro: exI [of _ "faults d"])

lemma select_ok: "faults d = [] \<Longrightarrow> select q d = (Inr (q d), d)"
  by (simp add: select_def exec_def)

lemma exec_ok: "faults d = [] \<Longrightarrow> exec stmt d = stmt d"
  by (simp add: exec_def)

subsection \<open>Upsert\<close>

text \<open>\<^verbatim>\<open>INSERT ... ON CONFLICT(key) DO UPDATE SET ... = excluded...\<close> for a statement that sets every column.\<close>

definition upsert :: "('r \<Rightarrow> 'k) \<Rightarrow> 'r \<Rightarrow> 'r list \<Rightarrow> 'r list" where
  "upsert key row rows =
     (if list_ex (\<lambda>r. key r = key row) rows
      then map (\<lambda>r. if key r = key row then row else r) rows
      else rows @ [row])"

lemma map_upsert_key: "map key (map (\<lambda>r. if key r = key row then row else r) rs) = map key rs"
  by (induction rs) auto

lemma distinct_upsert: "distinct (map key rows) \<Longrightarrow> distinct (map key (upsert key row rows))"
  unfolding upsert_def by (auto simp: map_upsert_key list_ex_iff simp del: map_map)

lemma keys_upsert: "key ` set (upsert key row rows) = insert (key row) (key ` set rows)"
  by (auto simp: upsert_def list_ex_iff)

lemma find_upsert:
  "List.find (\<lambda>r. key r = k) (upsert key row rows) =
     (if k = key row then Some row else List.find (\<lambda>r. key r = k) rows)"
proof -
  have upd: "List.find (\<lambda>r. key r = k) (map (\<lambda>r. if key r = key row then row else r) rs) =
      (if k = key row \<and> (\<exists>r \<in> set rs. key r = k) then Some row else List.find (\<lambda>r. key r = k) rs)"
    for rs by (induction rs) auto
  have none: "List.find (\<lambda>r. key r = key row) rows = None" if "\<forall>r \<in> set rows. key r \<noteq> key row"
    using that by (auto simp: find_None_iff)
  show ?thesis
    using none upd [of rows] by (auto simp: upsert_def list_ex_iff find_append split: option.split)
qed

end
