(* ===== verification/Storage.thy ===== *)
theory Storage
  imports Sql Message Wildmat
begin

text \<open>
  Article storage: the SQLite backend \<^verbatim>\<open>src/src/storage/sqlite.rs\<close> with the helpers of
  \<^verbatim>\<open>src/src/storage/common.rs\<close>, the overview lines of \<^verbatim>\<open>src/src/overview.rs\<close> and \<^verbatim>\<open>parse_range\<close> of
  \<^verbatim>\<open>src/src/parse.rs\<close>.

  An SQL statement of the source is one definition on the four tables of the schema, with its primary and
  foreign keys (sqlx opens SQLite with foreign keys on). An operation is the sequence of its statements,
  so that a failure half way leaves the tables as the statements before it left them.

  Numbers in tables are \<^verbatim>\<open>i64\<close> (\<open>int\<close>), numbers in the interface \<^verbatim>\<open>u64\<close> (\<open>nat\<close>). A stream of rows is the
  list of its rows, taken when the query runs; a failing query fails before its first row.
\<close>

subsection \<open>Headers of an article\<close>

definition get_header_value :: "message \<Rightarrow> string \<Rightarrow> string option" where
  "get_header_value msg name =
     map_option snd (List.find (\<lambda>(k, _). eq_ignore_ascii_case k name) (headers msg))"

definition get_header_values :: "message \<Rightarrow> string \<Rightarrow> string list" where
  "get_header_values article header_name =
     map snd (filter (\<lambda>(k, _). eq_ignore_ascii_case k header_name) (headers article))"

definition extract_message_id :: "message \<Rightarrow> string option" where
  "extract_message_id article =
     map_option snd (List.find (\<lambda>(k, _). eq_ignore_ascii_case k ''Message-ID'') (headers article))"

definition parse_newsgroups_from_message :: "message \<Rightarrow> string list" where
  "parse_newsgroups_from_message article =
     (case List.find (\<lambda>(k, _). eq_ignore_ascii_case k ''Newsgroups'') (headers article) of
        None \<Rightarrow> []
      | Some (_, v) \<Rightarrow> filter (\<lambda>s. s \<noteq> []) (map str_trim (str_split CHR '','' v)))"

definition extract_newsgroups :: "message \<Rightarrow> string list" where
  "extract_newsgroups article = parse_newsgroups_from_message article"

definition reconstruct_message_from_row :: "ext \<Rightarrow> string \<Rightarrow> string \<Rightarrow> message result" where
  "reconstruct_message_from_row X headers_str b =
     (case json_from_str X headers_str of
        None \<Rightarrow> Inl Json
      | Some hs \<Rightarrow> Inr \<lparr>headers = hs, body = b\<rparr>)"

subsection \<open>Tables\<close>

record message_row =
  m_message_id :: string
  m_headers :: string
  m_body :: string
  m_size :: int

record group_article_row =
  ga_group_name :: string
  ga_number :: int
  ga_message_id :: string
  ga_inserted_at :: int

record group_row =
  g_name :: string
  g_created_at :: int
  g_moderated :: bool
  g_description :: string

record overview_row =
  ov_group_name :: string
  ov_article_number :: int
  ov_overview_data :: string

record db = sql_engine +
  messages :: "message_row list"
  group_articles :: "group_article_row list"
  groups :: "group_row list"
  overview :: "overview_row list"

definition empty_db :: db where
  "empty_db = \<lparr>faults = [], messages = [], group_articles = [], groups = [], overview = []\<rparr>"

abbreviation i64_max :: int where "i64_max \<equiv> 9223372036854775807"

subsection \<open>Statements that change the tables\<close>

text \<open>\<^verbatim>\<open>INSERT OR IGNORE INTO messages\<close>\<close>

definition sql_insert_message :: "message_row \<Rightarrow> (db, unit) action" where
  "sql_insert_message r = exec (\<lambda>d.
     (Inr (), if list_ex (\<lambda>m. m_message_id m = m_message_id r) (messages d) then d
              else d\<lparr>messages := messages d @ [r]\<rparr>))"

text \<open>\<^verbatim>\<open>INSERT INTO group_articles\<close>: a primary key that is taken or a missing message is an error.\<close>

definition sql_insert_group_article :: "group_article_row \<Rightarrow> (db, unit) action" where
  "sql_insert_group_article r = exec (\<lambda>d.
     if list_ex (\<lambda>g. ga_group_name g = ga_group_name r \<and> ga_number g = ga_number r) (group_articles d)
        \<or> \<not> list_ex (\<lambda>m. m_message_id m = ga_message_id r) (messages d)
     then (Inl Database, d)
     else (Inr (), d\<lparr>group_articles := group_articles d @ [r]\<rparr>))"

text \<open>\<^verbatim>\<open>INSERT OR REPLACE INTO overview\<close>\<close>

definition sql_replace_overview :: "overview_row \<Rightarrow> (db, unit) action" where
  "sql_replace_overview r = exec (\<lambda>d.
     (Inr (), d\<lparr>overview :=
        filter (\<lambda>v. \<not> (ov_group_name v = ov_group_name r \<and> ov_article_number v = ov_article_number r))
          (overview d) @ [r]\<rparr>))"

text \<open>\<^verbatim>\<open>DELETE FROM group_articles WHERE ...\<close>\<close>

definition sql_delete_group_articles :: "(group_article_row \<Rightarrow> bool) \<Rightarrow> (db, unit) action" where
  "sql_delete_group_articles p = exec (\<lambda>d.
     (Inr (), d\<lparr>group_articles := filter (\<lambda>g. \<not> p g) (group_articles d)\<rparr>))"

text \<open>\<^verbatim>\<open>DELETE FROM messages WHERE ...\<close> where the condition excludes every message that a group still
  refers to, so that the foreign key cannot be violated.\<close>

definition sql_delete_orphans :: "(message_row \<Rightarrow> bool) \<Rightarrow> (db, unit) action" where
  "sql_delete_orphans p = exec (\<lambda>d.
     (Inr (), d\<lparr>messages :=
        filter (\<lambda>m. \<not> (p m \<and> \<not> list_ex (\<lambda>g. ga_message_id g = m_message_id m) (group_articles d)))
          (messages d)\<rparr>))"

definition sql_delete_groups :: "string \<Rightarrow> (db, unit) action" where
  "sql_delete_groups name = exec (\<lambda>d.
     (Inr (), d\<lparr>groups := filter (\<lambda>g. g_name g \<noteq> name) (groups d)\<rparr>))"

text \<open>\<^verbatim>\<open>INSERT OR IGNORE INTO groups\<close>\<close>

definition sql_insert_group :: "group_row \<Rightarrow> (db, unit) action" where
  "sql_insert_group r = exec (\<lambda>d.
     (Inr (), if list_ex (\<lambda>g. g_name g = g_name r) (groups d) then d
              else d\<lparr>groups := groups d @ [r]\<rparr>))"

text \<open>\<^verbatim>\<open>UPDATE groups SET ... WHERE name = ?\<close>\<close>

definition sql_update_group :: "string \<Rightarrow> (group_row \<Rightarrow> group_row) \<Rightarrow> (db, unit) action" where
  "sql_update_group name f = exec (\<lambda>d.
     (Inr (), d\<lparr>groups := map (\<lambda>g. if g_name g = name then f g else g) (groups d)\<rparr>))"

text \<open>\<^verbatim>\<open>INSERT INTO groups ... ON CONFLICT(name) DO UPDATE\<close>\<close>

definition sql_upsert_group :: "group_row \<Rightarrow> (db, unit) action" where
  "sql_upsert_group r = exec (\<lambda>d.
     (Inr (), if list_ex (\<lambda>g. g_name g = g_name r) (groups d)
              then d\<lparr>groups := map (\<lambda>g. if g_name g = g_name r
                     then g\<lparr>g_moderated := g_moderated r, g_description := g_description r\<rparr> else g)
                     (groups d)\<rparr>
              else d\<lparr>groups := groups d @ [r]\<rparr>))"

subsection \<open>Queries\<close>

definition try_i64 :: "nat \<Rightarrow> int \<Rightarrow> int" where
  "try_i64 n fallback = (if int n \<le> i64_max then int n else fallback)"

definition get_message_size :: "string \<Rightarrow> (db, nat option) action" where
  "get_message_size message_id =
     select (\<lambda>d. map_option (\<lambda>m. nat (m_size m))
       (List.find (\<lambda>m. m_message_id m = message_id) (messages d)))"

text \<open>The row of a query that has at most one, decoded after it was read.\<close>

definition decode_row :: "ext \<Rightarrow> message_row option \<Rightarrow> (db, message option) action" where
  "decode_row X row =
     (case row of
        None \<Rightarrow> ret None
      | Some r \<Rightarrow>
          (case reconstruct_message_from_row X (m_headers r) (m_body r) of
             Inl e \<Rightarrow> throw e
           | Inr m \<Rightarrow> ret (Some m)))"

definition get_article_by_number :: "ext \<Rightarrow> string \<Rightarrow> nat \<Rightarrow> (db, message option) action" where
  "get_article_by_number X grp number =
     bind_res
       (select (\<lambda>d.
          case [m. g \<leftarrow> group_articles d, m \<leftarrow> messages d,
                   m_message_id m = ga_message_id g,
                   ga_group_name g = grp \<and> ga_number g = try_i64 number (- 1)] of
            [] \<Rightarrow> None
          | m # _ \<Rightarrow> Some m))
       (decode_row X)"

definition get_article_by_id :: "ext \<Rightarrow> string \<Rightarrow> (db, message option) action" where
  "get_article_by_id X message_id =
     bind_res (select (\<lambda>d. List.find (\<lambda>m. m_message_id m = message_id) (messages d))) (decode_row X)"

text \<open>The stream yields an item per row: the article, or the error of its decoding.\<close>

definition get_articles_by_ids ::
  "ext \<Rightarrow> string list \<Rightarrow> (db, (string \<times> message) result list) action" where
  "get_articles_by_ids X message_ids =
     (if message_ids = [] then ret []
      else bind_res (select (\<lambda>d. filter (\<lambda>m. m_message_id m \<in> set message_ids) (messages d)))
        (\<lambda>rows. ret (map (\<lambda>r. case reconstruct_message_from_row X (m_headers r) (m_body r) of
                                Inl e \<Rightarrow> Inl e
                              | Inr m \<Rightarrow> Inr (m_message_id r, m)) rows)))"

definition is_group_moderated :: "string \<Rightarrow> (db, bool) action" where
  "is_group_moderated grp =
     select (\<lambda>d. case List.find (\<lambda>g. g_name g = grp) (groups d) of
                   None \<Rightarrow> False | Some g \<Rightarrow> g_moderated g)"

definition group_exists :: "string \<Rightarrow> (db, bool) action" where
  "group_exists grp = select (\<lambda>d. list_ex (\<lambda>g. g_name g = grp) (groups d))"

definition list_groups_with_descriptions :: "(db, (string \<times> string) list) action" where
  "list_groups_with_descriptions =
     select (\<lambda>d. map (\<lambda>g. (g_name g, g_description g)) (sort_key g_name (groups d)))"

definition list_groups :: "(db, string list) action" where
  "list_groups = select (\<lambda>d. map g_name (sort_key g_name (groups d)))"

definition list_groups_since :: "datetime \<Rightarrow> (db, string list) action" where
  "list_groups_since since =
     select (\<lambda>d. map g_name (sort_key g_name (filter (\<lambda>g. timestamp since < g_created_at g) (groups d))))"

definition list_groups_with_times :: "(db, (string \<times> int) list) action" where
  "list_groups_with_times =
     select (\<lambda>d. map (\<lambda>g. (g_name g, g_created_at g)) (sort_key g_name (groups d)))"

definition group_rows :: "string \<Rightarrow> db \<Rightarrow> group_article_row list" where
  "group_rows grp d = sort_key ga_number (filter (\<lambda>g. ga_group_name g = grp) (group_articles d))"

definition list_article_numbers :: "string \<Rightarrow> (db, nat list) action" where
  "list_article_numbers grp = select (\<lambda>d. map (\<lambda>g. nat (ga_number g)) (group_rows grp d))"

definition list_article_ids :: "string \<Rightarrow> (db, string list) action" where
  "list_article_ids grp = select (\<lambda>d. map ga_message_id (group_rows grp d))"

definition list_article_ids_since :: "string \<Rightarrow> datetime \<Rightarrow> (db, string list) action" where
  "list_article_ids_since grp since =
     select (\<lambda>d. map ga_message_id
       (filter (\<lambda>g. timestamp since < ga_inserted_at g) (group_rows grp d)))"

definition get_overview_range :: "string \<Rightarrow> nat \<Rightarrow> nat \<Rightarrow> (db, string list) action" where
  "get_overview_range grp start en =
     select (\<lambda>d. map ov_overview_data (sort_key ov_article_number
       (filter (\<lambda>v. ov_group_name v = grp \<and> try_i64 start 0 \<le> ov_article_number v \<and>
                    ov_article_number v \<le> try_i64 en i64_max) (overview d))))"

definition parse_range :: "string \<Rightarrow> string \<Rightarrow> (db, nat list) action" where
  "parse_range grp spec =
     (case split_once CHR ''-'' spec of
        Some (start_s, end_s) \<Rightarrow>
          (case parse_uint 64 start_s of
             None \<Rightarrow> throw (Anyhow ''invalid range'')
           | Some start \<Rightarrow>
               if end_s = []
               then bind_res (list_article_numbers grp) (\<lambda>nums. ret (filter (\<lambda>n. start \<le> n) nums))
               else (case parse_uint 64 end_s of
                       None \<Rightarrow> throw (Anyhow ''invalid range'')
                     | Some en \<Rightarrow> if en < start then ret [] else ret [start..<Suc en]))
      | None \<Rightarrow>
          (case parse_uint 64 spec of
             None \<Rightarrow> throw ParseInt
           | Some n \<Rightarrow> ret [n]))"

subsection \<open>Overview lines\<close>

definition OVERVIEW_FORMAT :: "string list" where
  "OVERVIEW_FORMAT =
     [''Subject:'', ''From:'', ''Date:'', ''Message-ID:'', ''References:'', '':bytes'', '':lines'']"

definition get_overview_format_lines :: "string list" where
  "get_overview_format_lines = map (\<lambda>s. s @ CRLF) OVERVIEW_FORMAT"

definition unwrap_or_default :: "string option \<Rightarrow> string" where
  "unwrap_or_default v = (case v of None \<Rightarrow> [] | Some s \<Rightarrow> s)"

definition generate_overview_line :: "nat \<Rightarrow> message \<Rightarrow> (db, string) action" where
  "generate_overview_line article_number article =
     bind_res
       (case extract_message_id article of
          Some i \<Rightarrow> bind_res (get_message_size i)
                      (\<lambda>size. ret (case size of None \<Rightarrow> str_len (body article) | Some n \<Rightarrow> n))
        | None \<Rightarrow> ret (str_len (body article)))
       (\<lambda>bytes. ret (join [TAB]
          [show_nat article_number,
           unwrap_or_default (get_header_value article ''Subject''),
           unwrap_or_default (get_header_value article ''From''),
           unwrap_or_default (get_header_value article ''Date''),
           unwrap_or_default (get_header_value article ''Message-ID''),
           unwrap_or_default (get_header_value article ''References''),
           show_nat bytes,
           show_nat (length (str_lines (body article)))]))"

subsection \<open>Operations that change the storage\<close>

text \<open>\<^verbatim>\<open>SELECT COALESCE(MAX(number),0)+1\<close>; past the largest \<^verbatim>\<open>i64\<close> the sum is not an integer any more and its
  decoding fails.\<close>

definition sql_next_number :: "string \<Rightarrow> (db, int) action" where
  "sql_next_number grp = exec (\<lambda>d.
     let ns = map ga_number (filter (\<lambda>g. ga_group_name g = grp) (group_articles d));
         next = (if ns = [] then 0 else Max (set ns)) + 1
     in if next \<le> i64_max then (Inr next, d) else (Inl Database, d))"

definition store_in_group :: "ext \<Rightarrow> message \<Rightarrow> string \<Rightarrow> string \<Rightarrow> (db, unit) action" where
  "store_in_group X article msg_id grp =
     bind_res (sql_next_number grp) (\<lambda>next.
     bind_res (sql_insert_group_article
        \<lparr>ga_group_name = grp, ga_number = next, ga_message_id = msg_id,
         ga_inserted_at = timestamp (utc_now X)\<rparr>) (\<lambda>_.
     bind_res (generate_overview_line (nat next) article) (\<lambda>overview_data.
     sql_replace_overview
        \<lparr>ov_group_name = grp, ov_article_number = next, ov_overview_data = overview_data\<rparr>)))"

definition message_row_of :: "ext \<Rightarrow> message \<Rightarrow> string \<Rightarrow> message_row" where
  "message_row_of X article msg_id =
     \<lparr>m_message_id = msg_id, m_headers = json_to_string X (headers article), m_body = body article,
      m_size = try_i64 (str_len (body article)) i64_max\<rparr>"

definition store_article :: "ext \<Rightarrow> message \<Rightarrow> (db, unit) action" where
  "store_article X article =
     (case extract_message_id article of
        None \<Rightarrow> throw (Anyhow ''missing Message-ID'')
      | Some msg_id \<Rightarrow>
          bind_res (sql_insert_message (message_row_of X article msg_id)) (\<lambda>_.
          for_each (store_in_group X article msg_id) (parse_newsgroups_from_message article)))"

definition add_group :: "ext \<Rightarrow> string \<Rightarrow> bool \<Rightarrow> (db, unit) action" where
  "add_group X grp moderated = sql_insert_group
     \<lparr>g_name = grp, g_created_at = timestamp (utc_now X), g_moderated = moderated, g_description = []\<rparr>"

definition set_group_moderated :: "string \<Rightarrow> bool \<Rightarrow> (db, unit) action" where
  "set_group_moderated grp moderated = sql_update_group grp (\<lambda>g. g\<lparr>g_moderated := moderated\<rparr>)"

definition purge_orphan_messages :: "(db, unit) action" where
  "purge_orphan_messages = sql_delete_orphans (\<lambda>_. True)"

definition remove_group :: "string \<Rightarrow> (db, unit) action" where
  "remove_group grp =
     bind_res (sql_delete_group_articles (\<lambda>g. ga_group_name g = grp)) (\<lambda>_.
     bind_res (sql_delete_groups grp) (\<lambda>_.
     sql_delete_orphans (\<lambda>_. True)))"

definition remove_groups_by_pattern :: "ext \<Rightarrow> string \<Rightarrow> (db, unit) action" where
  "remove_groups_by_pattern X pattern =
     bind_res (select (\<lambda>d. map g_name (groups d)))
       (\<lambda>names. for_each remove_group (filter (\<lambda>name. wildmat X pattern name) names))"

definition add_group_with_description ::
  "ext \<Rightarrow> string \<Rightarrow> bool \<Rightarrow> string \<Rightarrow> (db, unit) action" where
  "add_group_with_description X grp moderated description = sql_upsert_group
     \<lparr>g_name = grp, g_created_at = timestamp (utc_now X), g_moderated = moderated,
      g_description = description\<rparr>"

definition purge_group_before :: "string \<Rightarrow> datetime \<Rightarrow> (db, unit) action" where
  "purge_group_before grp before = sql_delete_group_articles
     (\<lambda>g. ga_group_name g = grp \<and> ga_inserted_at g < timestamp before)"

definition delete_article_by_id :: "string \<Rightarrow> (db, unit) action" where
  "delete_article_by_id message_id =
     bind_res (sql_delete_group_articles (\<lambda>g. ga_message_id g = message_id)) (\<lambda>_.
     sql_delete_orphans (\<lambda>m. m_message_id m = message_id))"

end
