(* ===== verification/Storage_Invariant.thy ===== *)
theory Storage_Invariant
  imports Storage
begin

text \<open>
  The well-formedness invariant of the storage: the keys of the schema, the reference from every group
  entry to a stored message, and article numbers from 1 to the largest \<^verbatim>\<open>i64\<close>. Every SQL statement keeps
  it, hence every operation does (also when one of its statements fails), and so does every interleaving
  of the statements of several connections and workers.
\<close>

definition db_ok :: "db \<Rightarrow> bool" where
  "db_ok d \<longleftrightarrow>
     distinct (map m_message_id (messages d)) \<and>
     distinct (map (\<lambda>g. (ga_group_name g, ga_number g)) (group_articles d)) \<and>
     (\<forall>g \<in> set (group_articles d). 1 \<le> ga_number g \<and> ga_number g \<le> i64_max \<and>
        ga_message_id g \<in> m_message_id ` set (messages d)) \<and>
     distinct (map g_name (groups d)) \<and>
     distinct (map (\<lambda>v. (ov_group_name v, ov_article_number v)) (overview d))"

lemma db_ok_faults [simp]: "db_ok (d\<lparr>faults := fs\<rparr>) = db_ok d"
  by (simp add: db_ok_def)

lemma db_ok_empty [simp]: "db_ok empty_db"
  by (simp add: db_ok_def empty_db_def)

subsection \<open>Statements\<close>

lemma keeps_decode_row [keeps_intros]: "keeps P (decode_row X row)"
  by (auto simp: decode_row_def split: option.splits sum.splits)

lemma distinct_map_filter_key: "distinct (map f xs) \<Longrightarrow> distinct (map f (filter P xs))"
  by (auto simp: distinct_map inj_on_def)

lemma map_update_key:
  "(\<And>g. k (f g) = k g) \<Longrightarrow> map k (map (\<lambda>g. if c g then f g else g) gs) = map k gs"
  by (induction gs) auto

text \<open>One lemma per statement; \<open>sql_ok\<close> collects them.\<close>

named_theorems sql_ok "the statements keep the storage invariant"

lemma sql_insert_message_ok [sql_ok]: "keeps db_ok (sql_insert_message r)"
  unfolding sql_insert_message_def
  by (rule keeps_exec) (auto simp: keeps_def db_ok_def list_ex_iff)

lemma sql_insert_group_article_ok [sql_ok]:
  "1 \<le> ga_number r \<Longrightarrow> ga_number r \<le> i64_max \<Longrightarrow> keeps db_ok (sql_insert_group_article r)"
  unfolding sql_insert_group_article_def
  by (rule keeps_exec) (auto simp: keeps_def db_ok_def list_ex_iff image_iff, metis+)

lemma sql_replace_overview_ok [sql_ok]: "keeps db_ok (sql_replace_overview r)"
  unfolding sql_replace_overview_def
  by (rule keeps_exec) (auto simp: keeps_def db_ok_def intro: distinct_map_filter_key)

lemma sql_delete_group_articles_ok [sql_ok]: "keeps db_ok (sql_delete_group_articles p)"
  unfolding sql_delete_group_articles_def
  by (rule keeps_exec) (auto simp: keeps_def db_ok_def intro: distinct_map_filter_key)

lemma sql_delete_orphans_ok [sql_ok]: "keeps db_ok (sql_delete_orphans p)"
  unfolding sql_delete_orphans_def
  by (rule keeps_exec)
     (auto simp: keeps_def db_ok_def list_ex_iff image_iff intro!: distinct_map_filter_key, fastforce)

lemma sql_delete_groups_ok [sql_ok]: "keeps db_ok (sql_delete_groups g)"
  unfolding sql_delete_groups_def
  by (rule keeps_exec) (auto simp: keeps_def db_ok_def intro: distinct_map_filter_key)

lemma sql_insert_group_ok [sql_ok]: "keeps db_ok (sql_insert_group r)"
  unfolding sql_insert_group_def
  by (rule keeps_exec) (auto simp: keeps_def db_ok_def list_ex_iff)

lemma sql_update_group_ok [sql_ok]:
  "(\<And>g. g_name (f g) = g_name g) \<Longrightarrow> keeps db_ok (sql_update_group name f)"
  unfolding sql_update_group_def
  by (rule keeps_exec) (auto simp: keeps_def db_ok_def map_update_key simp del: map_map)

lemma sql_upsert_group_ok [sql_ok]: "keeps db_ok (sql_upsert_group r)"
  unfolding sql_upsert_group_def
  by (rule keeps_exec) (auto simp: keeps_def db_ok_def list_ex_iff map_update_key simp del: map_map)

lemma sql_next_number_ok: "keeps db_ok (sql_next_number grp)"
  unfolding sql_next_number_def by (rule keeps_exec) (auto simp: keeps_def Let_def)

lemma sql_next_number_range:
  assumes "db_ok d" and "sql_next_number grp d = (Inr n, d')"
  shows "1 \<le> n \<and> n \<le> i64_max"
proof -
  let ?ns = "map ga_number (filter (\<lambda>g. ga_group_name g = grp) (group_articles d))"
  have "0 \<le> (if ?ns = [] then 0 else Max (set ?ns))"
  proof (cases "?ns = []")
    case False
    then have "Max (set ?ns) \<in> set ?ns" using Max_in by (metis List.finite_set set_empty)
    with assms(1) have "1 \<le> Max (set ?ns)" by (auto simp: db_ok_def)
    with False show ?thesis by simp
  qed simp
  with assms(2) show ?thesis
    by (auto simp: sql_next_number_def exec_def Let_def split: list.splits if_splits)
qed

subsection \<open>Operations\<close>

lemma generate_overview_line_keeps [keeps_intros]:
  "(\<And>d fs. P (d\<lparr>faults := fs\<rparr>) = P d) \<Longrightarrow> keeps P (generate_overview_line n article)"
  unfolding generate_overview_line_def get_message_size_def
  by (intro keeps_intros; simp)+

lemma store_in_group_ok: "keeps db_ok (store_in_group X article i grp)"
  unfolding store_in_group_def
proof (rule keeps_bind_val [OF sql_next_number_ok])
  fix n d d'
  assume "db_ok d" and "sql_next_number grp d = (Inr n, d')"
  then have "1 \<le> n \<and> n \<le> i64_max" by (rule sql_next_number_range)
  then show "keeps db_ok
      (bind_res (sql_insert_group_article
         \<lparr>ga_group_name = grp, ga_number = n, ga_message_id = i, ga_inserted_at = timestamp (utc_now X)\<rparr>)
       (\<lambda>_. bind_res (generate_overview_line (nat n) article) (\<lambda>data. sql_replace_overview
         \<lparr>ov_group_name = grp, ov_article_number = n, ov_overview_data = data\<rparr>)))"
    by (intro keeps_intros sql_ok) simp_all
qed

lemma store_article_ok: "keeps db_ok (store_article X article)"
  unfolding store_article_def by (intro keeps_intros sql_ok store_in_group_ok)

lemma remove_group_ok: "keeps db_ok (remove_group grp)"
  unfolding remove_group_def by (intro keeps_intros sql_ok)

lemma remove_groups_by_pattern_ok: "keeps db_ok (remove_groups_by_pattern X pattern)"
  unfolding remove_groups_by_pattern_def by (intro keeps_intros remove_group_ok) simp

lemma delete_article_by_id_ok: "keeps db_ok (delete_article_by_id i)"
  unfolding delete_article_by_id_def by (intro keeps_intros sql_ok)

lemma other_ops_ok:
  "keeps db_ok (add_group X g b)" "keeps db_ok (set_group_moderated g b)"
  "keeps db_ok (add_group_with_description X g b s)" "keeps db_ok (purge_group_before g t)"
  "keeps db_ok purge_orphan_messages"
  unfolding add_group_def set_group_moderated_def add_group_with_description_def
    purge_group_before_def purge_orphan_messages_def
  by (intro sql_ok; simp)+

lemmas storage_ops_ok = store_article_ok remove_group_ok remove_groups_by_pattern_ok
  delete_article_by_id_ok other_ops_ok

subsection \<open>Interleaved statements\<close>

text \<open>One statement of any of the storage operations, run by any task, with any outcome. An insertion
  into a group carries whatever number its task read before: other tasks may have taken it since.\<close>

inductive sql_step :: "db \<Rightarrow> db \<Rightarrow> bool" where
  insert_message: "sql_step d (snd (sql_insert_message r d))"
| insert_group_article:
    "1 \<le> ga_number r \<Longrightarrow> ga_number r \<le> i64_max \<Longrightarrow> sql_step d (snd (sql_insert_group_article r d))"
| replace_overview: "sql_step d (snd (sql_replace_overview v d))"
| delete_group_articles: "sql_step d (snd (sql_delete_group_articles p d))"
| delete_orphans: "sql_step d (snd (sql_delete_orphans q d))"
| delete_groups: "sql_step d (snd (sql_delete_groups g d))"
| insert_group: "sql_step d (snd (sql_insert_group w d))"
| update_moderated: "sql_step d (snd (sql_update_group g (\<lambda>x. x\<lparr>g_moderated := b\<rparr>) d))"
| upsert_group: "sql_step d (snd (sql_upsert_group w d))"
| query: "sql_step d (snd (select (\<lambda>_ :: db. ()) d))"

inductive_cases sql_stepE: "sql_step d d'"

lemma sql_step_ok: "sql_step d d' \<Longrightarrow> db_ok d \<Longrightarrow> db_ok d'"
  by (induction rule: sql_step.induct)
     (auto intro!: keepsD [of db_ok] sql_ok intro: keeps_select [of db_ok])

lemma sql_steps_ok: "sql_step\<^sup>*\<^sup>* d d' \<Longrightarrow> db_ok d \<Longrightarrow> db_ok d'"
  by (induction rule: rtranclp_induct) (auto dest: sql_step_ok)

end
