(* ===== verification/Storage_Spec.thy ===== *)
theory Storage_Spec
  imports Storage_Invariant
begin

text \<open>
  What the storage promises, stated on an abstract spool (articles by message id, group entries by group
  and number, the list of groups), and the proof that the SQLite backend implements it: a successful
  operation on tables is the abstract operation on the spool they represent.
\<close>

record spool =
  articles :: "string \<rightharpoonup> message"
  index :: "string \<times> int \<rightharpoonup> string \<times> int"
  active :: "string \<rightharpoonup> int \<times> bool \<times> string"

subsection \<open>Abstract operations\<close>

definition next_number :: "spool \<Rightarrow> string \<Rightarrow> int" where
  "next_number S g =
     (if \<exists>n. (g, n) \<in> dom (index S) then Max {n. (g, n) \<in> dom (index S)} else 0) + 1"

definition spec_post_message :: "string \<Rightarrow> message \<Rightarrow> spool \<Rightarrow> spool" where
  "spec_post_message i a S =
     (if articles S i = None then S\<lparr>articles := (articles S)(i \<mapsto> a)\<rparr> else S)"

definition spec_post_group :: "int \<Rightarrow> string \<Rightarrow> string \<Rightarrow> spool \<Rightarrow> spool" where
  "spec_post_group now i g S = S\<lparr>index := (index S)((g, next_number S g) \<mapsto> (i, now))\<rparr>"

definition spec_store :: "int \<Rightarrow> message \<Rightarrow> string \<Rightarrow> spool \<Rightarrow> spool" where
  "spec_store now a i S =
     fold (spec_post_group now i) (parse_newsgroups_from_message a) (spec_post_message i a S)"

definition spec_drop_entries :: "(string \<times> int \<Rightarrow> string \<times> int \<Rightarrow> bool) \<Rightarrow> spool \<Rightarrow> spool" where
  "spec_drop_entries p S =
     S\<lparr>index := (\<lambda>k. case index S k of None \<Rightarrow> None | Some e \<Rightarrow> if p k e then None else Some e)\<rparr>"

definition spec_drop_orphans :: "(string \<Rightarrow> bool) \<Rightarrow> spool \<Rightarrow> spool" where
  "spec_drop_orphans p S =
     S\<lparr>articles := (\<lambda>i. if p i \<and> i \<notin> fst ` ran (index S) then None else articles S i)\<rparr>"

definition spec_delete :: "string \<Rightarrow> spool \<Rightarrow> spool" where
  "spec_delete i S = spec_drop_orphans (\<lambda>j. j = i) (spec_drop_entries (\<lambda>_ e. fst e = i) S)"

definition spec_purge :: "string \<Rightarrow> int \<Rightarrow> spool \<Rightarrow> spool" where
  "spec_purge g t S = spec_drop_entries (\<lambda>k e. fst k = g \<and> snd e < t) S"

definition spec_remove_group :: "string \<Rightarrow> spool \<Rightarrow> spool" where
  "spec_remove_group g S =
     spec_drop_orphans (\<lambda>_. True)
       ((spec_drop_entries (\<lambda>k _. fst k = g) S)\<lparr>active := (active S)(g := None)\<rparr>)"

subsection \<open>Representation\<close>

definition row_article :: "ext \<Rightarrow> message_row \<Rightarrow> message option" where
  "row_article X r =
     (case reconstruct_message_from_row X (m_headers r) (m_body r) of Inl _ \<Rightarrow> None | Inr a \<Rightarrow> Some a)"

abbreviation entry_key :: "group_article_row \<Rightarrow> string \<times> int" where
  "entry_key g \<equiv> (ga_group_name g, ga_number g)"

definition abs_spool :: "ext \<Rightarrow> db \<Rightarrow> spool" where
  "abs_spool X d = \<lparr>
     articles = (\<lambda>i. Option.bind (List.find (\<lambda>m. m_message_id m = i) (messages d)) (row_article X)),
     index = (\<lambda>k. map_option (\<lambda>g. (ga_message_id g, ga_inserted_at g))
                    (List.find (\<lambda>g. entry_key g = k) (group_articles d))),
     active = (\<lambda>n. map_option (\<lambda>g. (g_created_at g, g_moderated g, g_description g))
                     (List.find (\<lambda>g. g_name g = n) (groups d)))\<rparr>"

text \<open>The rows of the message table are those that \<open>store_article\<close> writes.\<close>

definition rows_ok :: "ext \<Rightarrow> db \<Rightarrow> bool" where
  "rows_ok X d \<longleftrightarrow>
     (\<forall>r \<in> set (messages d). \<exists>a. r = message_row_of X a (m_message_id r) \<and>
        extract_message_id a = Some (m_message_id r))"

lemma abs_spool_faults [simp]: "abs_spool X (d\<lparr>faults := fs\<rparr>) = abs_spool X d"
  by (simp add: abs_spool_def)

lemma rows_ok_faults [simp]: "rows_ok X (d\<lparr>faults := fs\<rparr>) = rows_ok X d"
  by (simp add: rows_ok_def)

lemma row_article_of [simp]: "json_ok X \<Longrightarrow> row_article X (message_row_of X a i) = Some a"
  by (simp add: row_article_def message_row_of_def reconstruct_message_from_row_def json_ok_def)

lemma rows_ok_decode:
  "json_ok X \<Longrightarrow> rows_ok X d \<Longrightarrow> r \<in> set (messages d) \<Longrightarrow>
     \<exists>a. row_article X r = Some a \<and> extract_message_id a = Some (m_message_id r)"
  by (metis rows_ok_def row_article_of)

lemma articles_None:
  assumes "json_ok X" and "rows_ok X d"
  shows "articles (abs_spool X d) i = None \<longleftrightarrow> \<not> list_ex (\<lambda>m. m_message_id m = i) (messages d)"
proof (cases "List.find (\<lambda>m. m_message_id m = i) (messages d)")
  case None
  moreover from None have "\<not> list_ex (\<lambda>m. m_message_id m = i) (messages d)"
    by (auto simp: find_None_iff list_ex_iff)
  ultimately show ?thesis by (simp add: abs_spool_def)
next
  case (Some r)
  then have "r \<in> set (messages d)" "m_message_id r = i" using find_SomeD by fastforce+
  with rows_ok_decode [OF assms] Some show ?thesis
    by (fastforce simp: abs_spool_def list_ex_iff)
qed

subsection \<open>Statements refine their abstract counterparts\<close>

lemma spool_eqI:
  fixes S T :: spool
  assumes "articles S = articles T" and "index S = index T" and "active S = active T"
  shows "S = T"
  using assms by simp

lemma refine_insert_message:
  assumes "json_ok X" and "rows_ok X d" and "sql_insert_message (message_row_of X a i) d = (Inr (), d')"
  shows "abs_spool X d' = spec_post_message i a (abs_spool X d)"
proof -
  have mid: "m_message_id (message_row_of X a i) = i" by (simp add: message_row_of_def)
  from assms(3) obtain fs where d': "d' = (if list_ex (\<lambda>m. m_message_id m = i) (messages d)
      then d\<lparr>faults := fs\<rparr> else d\<lparr>faults := fs, messages := messages d @ [message_row_of X a i]\<rparr>)"
    unfolding sql_insert_message_def
    by (cases "list_ex (\<lambda>m. m_message_id m = i) (messages d)") (auto elim!: exec_okE simp: mid)
  show ?thesis
  proof (cases "list_ex (\<lambda>m. m_message_id m = i) (messages d)")
    case True
    with articles_None [OF assms(1,2)] show ?thesis by (auto simp: d' spec_post_message_def)
  next
    case False
    then have none: "List.find (\<lambda>m. m_message_id m = i) (messages d) = None"
      by (auto simp: find_None_iff list_ex_iff)
    have "articles (abs_spool X d') = (articles (abs_spool X d))(i \<mapsto> a)"
      using none assms(1) False
      by (auto simp: fun_eq_iff abs_spool_def d' find_append mid split: option.splits)
    moreover have "index (abs_spool X d') = index (abs_spool X d)"
        "active (abs_spool X d') = active (abs_spool X d)"
      using False by (simp_all add: abs_spool_def d')
    ultimately show ?thesis
      using False articles_None [OF assms(1,2)] by (simp add: spec_post_message_def)
  qed
qed

lemma refine_insert_group_article:
  assumes "sql_insert_group_article r d = (Inr (), d')"
  shows "abs_spool X d' = (abs_spool X d)\<lparr>index :=
           (index (abs_spool X d))(entry_key r \<mapsto> (ga_message_id r, ga_inserted_at r))\<rparr>"
proof -
  from assms obtain fs where
    d': "d' = d\<lparr>faults := fs, group_articles := group_articles d @ [r]\<rparr>" and
    fresh: "\<not> list_ex (\<lambda>g. entry_key g = entry_key r) (group_articles d)"
    unfolding sql_insert_group_article_def
    by (auto elim!: exec_okE simp: list_ex_iff split: if_splits)
  from fresh have "List.find (\<lambda>g. entry_key g = entry_key r) (group_articles d) = None"
    by (auto simp: find_None_iff list_ex_iff)
  then show ?thesis
    by (intro spool_eqI) (auto simp: fun_eq_iff abs_spool_def d' find_append split: option.splits)
qed

lemma refine_replace_overview:
  "sql_replace_overview v d = (Inr (), d') \<Longrightarrow> abs_spool X d' = abs_spool X d"
  unfolding sql_replace_overview_def by (auto elim!: exec_okE simp: abs_spool_def)

lemma refine_drop_entries:
  assumes "db_ok d" and "sql_delete_group_articles p d = (Inr (), d')"
    and "\<And>g. p g = q (entry_key g) (ga_message_id g, ga_inserted_at g)"
  shows "abs_spool X d' = spec_drop_entries q (abs_spool X d)"
proof -
  from assms(2) obtain fs where
    d': "d' = d\<lparr>faults := fs, group_articles := filter (\<lambda>g. \<not> p g) (group_articles d)\<rparr>"
    unfolding sql_delete_group_articles_def by (auto elim!: exec_okE)
  have uniq: "distinct (map entry_key (group_articles d))" using assms(1) by (simp add: db_ok_def)
  show ?thesis
    by (intro spool_eqI ext)
       (auto simp: abs_spool_def d' spec_drop_entries_def find_filter_unique [OF uniq] assms(3)
             split: option.splits dest: find_SomeD)
qed

lemma ran_index:
  assumes "db_ok d"
  shows "fst ` ran (index (abs_spool X d)) = ga_message_id ` set (group_articles d)"
proof -
  have uniq: "distinct (map entry_key (group_articles d))" using assms by (simp add: db_ok_def)
  have "(i, t) \<in> ran (index (abs_spool X d)) \<longleftrightarrow>
        (\<exists>g \<in> set (group_articles d). ga_message_id g = i \<and> ga_inserted_at g = t)" for i t
    using find_unique [OF uniq] by (fastforce simp: ran_def abs_spool_def dest: find_SomeD)
  then show ?thesis by (force simp: image_iff)
qed

lemma refine_drop_orphans:
  assumes "db_ok d" and "sql_delete_orphans p d = (Inr (), d')" and "\<And>m. p m = q (m_message_id m)"
  shows "abs_spool X d' = spec_drop_orphans q (abs_spool X d)"
proof -
  let ?keep = "\<lambda>m. \<not> (p m \<and> \<not> list_ex (\<lambda>g. ga_message_id g = m_message_id m) (group_articles d))"
  from assms(2) obtain fs where
    d': "d' = d\<lparr>faults := fs, messages := filter ?keep (messages d)\<rparr>"
    unfolding sql_delete_orphans_def by (auto elim!: exec_okE)
  have uniq: "distinct (map m_message_id (messages d))" using assms(1) by (simp add: db_ok_def)
  have "articles (abs_spool X d') i =
      (if q i \<and> i \<notin> fst ` ran (index (abs_spool X d)) then None else articles (abs_spool X d) i)" for i
  proof (cases "List.find (\<lambda>m. m_message_id m = i) (messages d)")
    case None
    then show ?thesis by (simp add: abs_spool_def d' find_filter_unique [OF uniq])
  next
    case (Some r)
    then have "m_message_id r = i" using find_SomeD by fastforce
    with Some show ?thesis
      unfolding ran_index [OF assms(1)]
      by (auto simp: abs_spool_def d' find_filter_unique [OF uniq] assms(3) list_ex_iff image_iff)
  qed
  then show ?thesis
    by (intro spool_eqI) (auto simp: spec_drop_orphans_def abs_spool_def d')
qed

lemma refine_delete_groups:
  assumes "db_ok d" and "sql_delete_groups g d = (Inr (), d')"
  shows "abs_spool X d' = (abs_spool X d)\<lparr>active := (active (abs_spool X d))(g := None)\<rparr>"
proof -
  from assms(2) obtain fs where
    d': "d' = d\<lparr>faults := fs, groups := filter (\<lambda>r. g_name r \<noteq> g) (groups d)\<rparr>"
    unfolding sql_delete_groups_def by (auto elim!: exec_okE)
  have uniq: "distinct (map g_name (groups d))" using assms(1) by (simp add: db_ok_def)
  show ?thesis
    by (intro spool_eqI ext)
       (auto simp: abs_spool_def d' find_filter_unique [OF uniq] split: option.splits dest: find_SomeD)
qed

lemma next_number_abs:
  assumes "db_ok d" and "sql_next_number g d = (Inr n, d')"
  shows "n = next_number (abs_spool X d) g" and "abs_spool X d' = abs_spool X d"
    and "messages d' = messages d"
proof -
  let ?ns = "map ga_number (filter (\<lambda>r. ga_group_name r = g) (group_articles d))"
  have uniq: "distinct (map entry_key (group_articles d))" using assms(1) by (simp add: db_ok_def)
  have "(g, k) \<in> dom (index (abs_spool X d)) \<longleftrightarrow> k \<in> set ?ns" for k
    using find_unique [OF uniq] by (fastforce simp: dom_def abs_spool_def dest: find_SomeD)
  then have dom: "{k. (g, k) \<in> dom (index (abs_spool X d))} = set ?ns" by blast
  have "(\<exists>k. (g, k) \<in> dom (index (abs_spool X d))) \<longleftrightarrow> set ?ns \<noteq> {}"
    unfolding dom [symmetric] by blast
  then have ex: "(\<exists>k. (g, k) \<in> dom (index (abs_spool X d))) \<longleftrightarrow> ?ns \<noteq> []"
    unfolding set_empty .
  obtain fs where fs: "n = (if ?ns = [] then 0 else Max (set ?ns)) + 1" "d' = d\<lparr>faults := fs\<rparr>"
    using assms(2) unfolding sql_next_number_def
    by (elim exec_okE) (fastforce simp: Let_def split: if_splits)
  show "n = next_number (abs_spool X d) g"
    unfolding next_number_def dom fs(1) ex by presburger
  show "abs_spool X d' = abs_spool X d" "messages d' = messages d" by (simp_all add: fs(2))
qed

subsection \<open>Rows stay decodable\<close>

lemma rows_ok_subset: "rows_ok X d \<Longrightarrow> set (messages d') \<subseteq> set (messages d) \<Longrightarrow> rows_ok X d'"
  by (auto simp: rows_ok_def)

named_theorems sql_rows "the statements keep the message rows decodable"

lemma sql_insert_message_rows [sql_rows]:
  "extract_message_id a = Some i \<Longrightarrow> keeps (rows_ok X) (sql_insert_message (message_row_of X a i))"
  unfolding sql_insert_message_def
  by (rule keeps_exec) (auto simp: keeps_def rows_ok_def message_row_of_def)

lemma sql_other_rows [sql_rows]:
  "keeps (rows_ok X) (sql_insert_group_article r)" "keeps (rows_ok X) (sql_replace_overview v)"
  "keeps (rows_ok X) (sql_delete_group_articles p)" "keeps (rows_ok X) (sql_delete_orphans q)"
  "keeps (rows_ok X) (sql_delete_groups g)" "keeps (rows_ok X) (sql_insert_group w)"
  "keeps (rows_ok X) (sql_update_group g f)" "keeps (rows_ok X) (sql_upsert_group w)"
  "keeps (rows_ok X) (sql_next_number g)"
  unfolding sql_insert_group_article_def sql_replace_overview_def sql_delete_group_articles_def
    sql_delete_orphans_def sql_delete_groups_def sql_insert_group_def sql_update_group_def
    sql_upsert_group_def sql_next_number_def
  by (intro keeps_exec; auto simp: keeps_def rows_ok_def Let_def)+

lemma generate_overview_line_rows [sql_rows]: "keeps (rows_ok X) (generate_overview_line n a)"
  by (rule generate_overview_line_keeps) simp

lemma store_in_group_rows: "keeps (rows_ok X) (store_in_group Y a i g)"
  unfolding store_in_group_def by (intro keeps_intros sql_rows)

lemma store_article_rows: "keeps (rows_ok X) (store_article X a)"
  unfolding store_article_def
  by (rule keeps_option) (simp, intro keeps_intros sql_rows store_in_group_rows)

lemma remove_group_rows: "keeps (rows_ok X) (remove_group g)"
  unfolding remove_group_def by (intro keeps_intros sql_rows)

lemma other_ops_rows:
  "keeps (rows_ok X) (delete_article_by_id i)" "keeps (rows_ok X) (purge_group_before g t)"
  "keeps (rows_ok X) purge_orphan_messages" "keeps (rows_ok X) (add_group Y g b)"
  "keeps (rows_ok X) (set_group_moderated g b)"
  "keeps (rows_ok X) (add_group_with_description Y g b s)"
  "keeps (rows_ok X) (remove_groups_by_pattern Y p)"
  unfolding delete_article_by_id_def purge_group_before_def purge_orphan_messages_def add_group_def
    set_group_moderated_def add_group_with_description_def remove_groups_by_pattern_def
  by (intro keeps_intros sql_rows remove_group_rows; simp)+

text \<open>The invariant that the operations rely on: the external JSON coder keeps its promise, the tables
  are well formed, and the message rows are decodable.\<close>

definition storage_ok :: "ext \<Rightarrow> db \<Rightarrow> bool" where
  "storage_ok X d \<longleftrightarrow> json_ok X \<and> db_ok d \<and> rows_ok X d"

lemma storage_ok_faults [simp]: "storage_ok X (d\<lparr>faults := fs\<rparr>) = storage_ok X d"
  by (simp add: storage_ok_def)

lemma keeps_storage_ok:
  "keeps db_ok m \<Longrightarrow> keeps (rows_ok X) m \<Longrightarrow> keeps (storage_ok X) m"
  by (simp add: keeps_def storage_ok_def)

named_theorems storage_keeps "the operations keep the storage invariant"

lemma ops_storage_ok [storage_keeps]:
  "keeps (storage_ok X) (store_article X a)" "keeps (storage_ok X) (remove_group g)"
  "keeps (storage_ok X) (delete_article_by_id i)" "keeps (storage_ok X) (purge_group_before g t)"
  "keeps (storage_ok X) purge_orphan_messages" "keeps (storage_ok X) (add_group Y g b)"
  "keeps (storage_ok X) (set_group_moderated g b)"
  "keeps (storage_ok X) (add_group_with_description Y g b s)"
  "keeps (storage_ok X) (remove_groups_by_pattern Y p)"
  by (intro keeps_storage_ok storage_ops_ok store_article_rows remove_group_rows other_ops_rows)+

subsection \<open>Operations refine their specification\<close>

lemma refine_delete:
  assumes "db_ok d" and "delete_article_by_id i d = (Inr (), d')"
  shows "abs_spool X d' = spec_delete i (abs_spool X d)"
proof -
  from assms(2) obtain d1 where
    1: "sql_delete_group_articles (\<lambda>g. ga_message_id g = i) d = (Inr (), d1)" and
    2: "sql_delete_orphans (\<lambda>m. m_message_id m = i) d1 = (Inr (), d')"
    unfolding delete_article_by_id_def by (auto elim: bind_res_okE)
  have "db_ok d1" using keepsD' [OF sql_delete_group_articles_ok 1 assms(1)] .
  with refine_drop_orphans [OF _ 2, of "\<lambda>j. j = i"] refine_drop_entries [OF assms(1) 1, of "\<lambda>_ e. fst e = i"]
  show ?thesis by (simp add: spec_delete_def)
qed

lemma refine_purge:
  assumes "db_ok d" and "purge_group_before g t d = (Inr (), d')"
  shows "abs_spool X d' = spec_purge g (timestamp t) (abs_spool X d)"
  using refine_drop_entries [OF assms(1) assms(2) [unfolded purge_group_before_def],
      of "\<lambda>k e. fst k = g \<and> snd e < timestamp t"]
  by (simp add: spec_purge_def)

lemma refine_purge_orphans:
  assumes "db_ok d" and "purge_orphan_messages d = (Inr (), d')"
  shows "abs_spool X d' = spec_drop_orphans (\<lambda>_. True) (abs_spool X d)"
  using refine_drop_orphans [OF assms(1) assms(2) [unfolded purge_orphan_messages_def]] by simp

lemma refine_remove_group:
  assumes "db_ok d" and "remove_group g d = (Inr (), d')"
  shows "abs_spool X d' = spec_remove_group g (abs_spool X d)"
proof -
  from assms(2) obtain d1 d2 where
    1: "sql_delete_group_articles (\<lambda>r. ga_group_name r = g) d = (Inr (), d1)" and
    2: "sql_delete_groups g d1 = (Inr (), d2)" and
    3: "sql_delete_orphans (\<lambda>_. True) d2 = (Inr (), d')"
    unfolding remove_group_def by (auto elim!: bind_res_okE)
  have ok1: "db_ok d1" using keepsD' [OF sql_delete_group_articles_ok 1 assms(1)] .
  have ok2: "db_ok d2" using keepsD' [OF sql_delete_groups_ok 2 ok1] .
  have "abs_spool X d1 = spec_drop_entries (\<lambda>k _. fst k = g) (abs_spool X d)"
    by (rule refine_drop_entries [OF assms(1) 1]) simp
  with refine_delete_groups [OF ok1 2, of X] refine_drop_orphans [OF ok2 3, where q = "\<lambda>_. True" and X = X]
  show ?thesis by (simp add: spec_remove_group_def spec_drop_entries_def)
qed

lemma refine_store_in_group:
  assumes "db_ok d" and "store_in_group X a i g d = (Inr (), d')"
  shows "abs_spool X d' = spec_post_group (timestamp (utc_now X)) i g (abs_spool X d)"
proof -
  from assms(2) obtain n d1 d2 d3 data where
    1: "sql_next_number g d = (Inr n, d1)" and
    2: "sql_insert_group_article \<lparr>ga_group_name = g, ga_number = n, ga_message_id = i,
          ga_inserted_at = timestamp (utc_now X)\<rparr> d1 = (Inr (), d2)" and
    3: "generate_overview_line (nat n) a d2 = (Inr data, d3)" and
    4: "sql_replace_overview \<lparr>ov_group_name = g, ov_article_number = n, ov_overview_data = data\<rparr> d3 =
          (Inr (), d')"
    unfolding store_in_group_def by (auto elim!: bind_res_okE)
  have "abs_spool X d3 = abs_spool X d2"
    using keepsD' [OF generate_overview_line_keeps 3, of "\<lambda>d. abs_spool X d = abs_spool X d2"] by simp
  with refine_replace_overview [OF 4, of X] refine_insert_group_article [OF 2, of X]
    next_number_abs(1,2) [OF assms(1) 1, of X]
  show ?thesis by (simp add: spec_post_group_def)
qed

lemma refine_store_groups:
  assumes "db_ok d" and "for_each (store_in_group X a i) gs d = (Inr (), d')"
  shows "abs_spool X d' = fold (spec_post_group (timestamp (utc_now X)) i) gs (abs_spool X d)"
  using assms
proof (induction gs arbitrary: d)
  case (Cons g gs)
  from Cons.prems(2) obtain d1 where
    1: "store_in_group X a i g d = (Inr (), d1)" and 2: "for_each (store_in_group X a i) gs d1 = (Inr (), d')"
    by (auto elim: bind_res_okE)
  have "db_ok d1" using keepsD' [OF store_in_group_ok 1 Cons.prems(1)] .
  with Cons.IH [OF _ 2] refine_store_in_group [OF Cons.prems(1) 1] show ?case by simp
qed simp

lemma refine_store:
  assumes "storage_ok X d" and "store_article X a d = (Inr (), d')" and "extract_message_id a = Some i"
  shows "abs_spool X d' = spec_store (timestamp (utc_now X)) a i (abs_spool X d)"
proof -
  from assms(2,3) obtain d1 where
    1: "sql_insert_message (message_row_of X a i) d = (Inr (), d1)" and
    2: "for_each (store_in_group X a i) (parse_newsgroups_from_message a) d1 = (Inr (), d')"
    unfolding store_article_def by (auto elim: bind_res_okE)
  have ok: "json_ok X" "db_ok d" "rows_ok X d" using assms(1) by (simp_all add: storage_ok_def)
  have "db_ok d1" using keepsD' [OF sql_insert_message_ok 1 ok(2)] .
  from refine_store_groups [OF this 2] refine_insert_message [OF ok(1,3) 1] show ?thesis
    by (simp add: spec_store_def)
qed

subsection \<open>Lookups return what the spool holds\<close>

lemma decode_row_ok:
  assumes "storage_ok X d" and "row = None \<or> (\<exists>r. row = Some r \<and> r \<in> set (messages d))"
  shows "decode_row X row s = (Inr (Option.bind row (row_article X)), s)"
  using assms rows_ok_decode [of X d]
  by (auto simp: storage_ok_def decode_row_def row_article_def split: sum.splits option.splits) fastforce+

lemma get_article_by_id_view:
  assumes "storage_ok X d"
  shows "\<exists>fs. get_article_by_id X i d = (Inl Database, d\<lparr>faults := fs\<rparr>) \<or>
              get_article_by_id X i d = (Inr (articles (abs_spool X d) i), d\<lparr>faults := fs\<rparr>)"
proof -
  let ?q = "\<lambda>d. List.find (\<lambda>m. m_message_id m = i) (messages d)"
  have row: "?q d = None \<or> (\<exists>r. ?q d = Some r \<and> r \<in> set (messages d))"
    by (cases "?q d") (auto dest: find_SomeD)
  obtain r d' where rd: "select ?q d = (r, d')" by fastforce
  with select_cases [of ?q d r d'] obtain fs where
    "r = Inl Database \<or> r = Inr (?q d)" "d' = d\<lparr>faults := fs\<rparr>" by auto
  with rd decode_row_ok [OF assms row] show ?thesis
    by (auto simp: get_article_by_id_def bind_res_def abs_spool_def)
qed

lemma get_article_by_id_ok:
  assumes "storage_ok X d" and "faults d = []"
  shows "get_article_by_id X i d = (Inr (articles (abs_spool X d) i), d)"
proof -
  let ?q = "\<lambda>d. List.find (\<lambda>m. m_message_id m = i) (messages d)"
  have "?q d = None \<or> (\<exists>r. ?q d = Some r \<and> r \<in> set (messages d))"
    by (cases "?q d") (auto dest: find_SomeD)
  from decode_row_ok [OF assms(1) this] select_ok [OF assms(2), of ?q] show ?thesis
    by (simp add: get_article_by_id_def bind_res_def abs_spool_def)
qed

end
