(* ===== verification/Storage_Interface.thy ===== *)
theory Storage_Interface
  imports Storage_Spec Sample_Externals
begin

text \<open>
  The contract that the clients of the storage rely on (the queue's workers, the handlers, control
  messages, retention), as the locale \<open>article_spool\<close> over the abstract spool; its interpretation on the
  SQLite backend; and the properties of the storage.
\<close>

subsection \<open>The contract\<close>

lemma articles_post_group [simp]: "articles (fold (spec_post_group now i) gs S) = articles S"
  by (induction gs arbitrary: S) (simp_all add: spec_post_group_def)

lemma articles_spec_store:
  "articles (spec_store now a i S) =
     (articles S)(i := Some (case articles S i of None \<Rightarrow> a | Some b \<Rightarrow> b))"
  by (auto simp: spec_store_def spec_post_message_def fun_eq_iff split: option.splits)

lemma articles_spec_delete: "articles (spec_delete i S) = (articles S)(i := None)"
proof -
  have "fst e \<noteq> i" if "index (spec_drop_entries (\<lambda>_ e. fst e = i) S) k = Some e" for k e
    using that by (auto simp: spec_drop_entries_def split: option.splits if_splits)
  then have "i \<notin> fst ` ran (index (spec_drop_entries (\<lambda>_ e. fst e = i) S))"
    by (auto simp: ran_def)
  then show ?thesis
    by (auto simp: spec_delete_def spec_drop_orphans_def fun_eq_iff spec_drop_entries_def)
qed

locale article_spool =
  fixes ok :: "'s \<Rightarrow> bool"
    and view :: "'s \<Rightarrow> spool"
    and now :: int
    and store :: "message \<Rightarrow> ('s, unit) action"
    and delete :: "string \<Rightarrow> ('s, unit) action"
    and lookup :: "string \<Rightarrow> ('s, message option) action"
  assumes store_ok: "keeps ok (store a)"
    and delete_ok: "keeps ok (delete i)"
    and store_view: "ok s \<Longrightarrow> store a s = (Inr (), s') \<Longrightarrow>
          \<exists>i. extract_message_id a = Some i \<and> view s' = spec_store now a i (view s)"
    and delete_view: "ok s \<Longrightarrow> delete i s = (Inr (), s') \<Longrightarrow> view s' = spec_delete i (view s)"
    and lookup_view: "ok s \<Longrightarrow> lookup i s = (Inr v, s') \<Longrightarrow>
          v = articles (view s) i \<and> view s' = view s \<and> ok s'"
begin

lemma store_then_lookup:
  assumes "ok s" and "store a s = (Inr (), s1)" and "lookup j s1 = (Inr v, s2)"
  shows "v = (if extract_message_id a = Some j
              then Some (case articles (view s) j of None \<Rightarrow> a | Some b \<Rightarrow> b)
              else articles (view s) j)"
proof -
  have "ok s1" using keepsD' [OF store_ok assms(2,1)] .
  with lookup_view assms(3) have "v = articles (view s1) j" by blast
  moreover obtain i where "extract_message_id a = Some i" "view s1 = spec_store now a i (view s)"
    using store_view [OF assms(1,2)] by blast
  ultimately show ?thesis by (auto simp: articles_spec_store)
qed

lemma delete_then_lookup:
  assumes "ok s" and "delete i s = (Inr (), s1)" and "lookup j s1 = (Inr v, s2)"
  shows "v = (if j = i then None else articles (view s) j)"
proof -
  have "ok s1" using keepsD' [OF delete_ok assms(2,1)] .
  with lookup_view [OF _ assms(3)] delete_view [OF assms(1,2)] show ?thesis
    by (simp add: articles_spec_delete)
qed

lemma lookup_twice:
  assumes "ok s" and "lookup i s = (Inr v, s1)" and "lookup i s1 = (Inr w, s2)"
  shows "w = v"
  using lookup_view [OF assms(1,2)] lookup_view [OF _ assms(3)] by simp

end

interpretation sqlite: article_spool "storage_ok X" "abs_spool X" "timestamp (utc_now X)"
  "store_article X" delete_article_by_id "get_article_by_id X" for X
proof
  show "keeps (storage_ok X) (store_article X a)" for a by (rule storage_keeps)
  show "keeps (storage_ok X) (delete_article_by_id i)" for i by (rule storage_keeps)
next
  fix d a d'
  assume "storage_ok X d" and st: "store_article X a d = (Inr (), d')"
  moreover from st obtain i where "extract_message_id a = Some i"
    by (cases "extract_message_id a") (auto simp: store_article_def)
  ultimately show "\<exists>i. extract_message_id a = Some i \<and>
      abs_spool X d' = spec_store (timestamp (utc_now X)) a i (abs_spool X d)"
    using refine_store by blast
next
  fix d i d'
  assume "storage_ok X d" and "delete_article_by_id i d = (Inr (), d')"
  then show "abs_spool X d' = spec_delete i (abs_spool X d)"
    by (intro refine_delete) (auto simp: storage_ok_def)
next
  fix d i v d'
  assume "storage_ok X d" and "get_article_by_id X i d = (Inr v, d')"
  with get_article_by_id_view [of X d i]
  show "v = articles (abs_spool X d) i \<and> abs_spool X d' = abs_spool X d \<and> storage_ok X d'"
    by auto
qed

subsection \<open>Article numbers\<close>

lemma sorted_group_rows: "sorted (map ga_number (group_rows g d))"
  by (simp add: group_rows_def)

lemma distinct_group_rows: "db_ok d \<Longrightarrow> distinct (map ga_number (group_rows g d))"
  by (auto simp: group_rows_def db_ok_def distinct_map inj_on_def)

lemma set_group_rows:
  "set (group_rows g d) = {r \<in> set (group_articles d). ga_group_name r = g}"
  by (simp add: group_rows_def)

lemma article_numbers_strict:
  assumes "db_ok d"
  shows "sorted_wrt (<) (map (\<lambda>r. nat (ga_number r)) (group_rows g d))"
proof -
  have "sorted_wrt (<) (map ga_number (group_rows g d))"
    using sorted_group_rows distinct_group_rows [OF assms] by (simp add: strict_sorted_iff)
  moreover have pos: "0 < ga_number r" if "r \<in> set (group_rows g d)" for r
    using that assms by (fastforce simp: set_group_rows db_ok_def)
  ultimately show ?thesis
    by (auto simp: sorted_wrt_map elim!: sorted_wrt_mono_rel [rotated] dest: pos)
qed

end
