(* ===== verification/Storage_Properties.thy ===== *)
theory Storage_Properties
  imports Storage_Interface
begin

text \<open>
  The properties of the article storage, each with a closed instance on small tables.
\<close>

definition demo_article :: message where
  "demo_article = \<lparr>headers = [(''Message-ID'', ''<1@a>''), (''Newsgroups'', ''misc.test, alt.x''),
     (''From'', ''u''), (''Subject'', ''s'')], body = ''hello''\<rparr>"

definition demo_db :: db where
  "demo_db = \<lparr>faults = [],
     messages = [message_row_of sample_ext demo_article ''<1@a>''],
     group_articles =
       [\<lparr>ga_group_name = ''misc.test'', ga_number = 1, ga_message_id = ''<1@a>'', ga_inserted_at = 1700000000\<rparr>,
        \<lparr>ga_group_name = ''alt.x'', ga_number = 1, ga_message_id = ''<1@a>'', ga_inserted_at = 1700000000\<rparr>],
     groups = [],
     overview =
       [\<lparr>ov_group_name = ''misc.test'', ov_article_number = 1, ov_overview_data =
             [CHR ''1'', TAB, CHR ''s'', TAB, CHR ''u'', TAB, TAB, CHR ''<'', CHR ''1'', CHR ''@'',
              CHR ''a'', CHR ''>'', TAB, TAB, CHR ''5'', TAB, CHR ''1'']\<rparr>,
        \<lparr>ov_group_name = ''alt.x'', ov_article_number = 1, ov_overview_data =
             [CHR ''1'', TAB, CHR ''s'', TAB, CHR ''u'', TAB, TAB, CHR ''<'', CHR ''1'', CHR ''@'',
              CHR ''a'', CHR ''>'', TAB, TAB, CHR ''5'', TAB, CHR ''1'']\<rparr>]\<rparr>"

lemma demo_store: "store_article sample_ext demo_article empty_db = (Inr (), demo_db)"
  by code_simp

lemma storage_ok_empty: "storage_ok sample_ext empty_db"
  by (simp add: storage_ok_def json_ok_sample rows_ok_def) (simp add: empty_db_def)

lemma storage_ok_demo: "storage_ok sample_ext demo_db"
  using keepsD' [OF storage_keeps(1) demo_store storage_ok_empty] .



text \<open>Storing an article keeps the storage invariant even when one of its statements fails half
  way, and so do all other operations that change the storage.\<close>

theorem storage_operations_keep_invariant:
  assumes "storage_ok X d"
  shows "storage_ok X (snd (store_article X a d)) \<and>
         storage_ok X (snd (delete_article_by_id i d)) \<and>
         storage_ok X (snd (remove_group g d)) \<and>
         storage_ok X (snd (remove_groups_by_pattern X p d)) \<and>
         storage_ok X (snd (purge_group_before g t d)) \<and>
         storage_ok X (snd (purge_orphan_messages d)) \<and>
         storage_ok X (snd (add_group X g b d)) \<and>
         storage_ok X (snd (set_group_moderated g b d)) \<and>
         storage_ok X (snd (add_group_with_description X g b s d))"
  using storage_keeps [THEN keepsD, OF assms] by blast

theorem storage_operations_keep_invariant_witness:
  "storage_ok sample_ext (snd (store_article sample_ext demo_article (demo_db\<lparr>faults := [False, True]\<rparr>)))"
  using storage_operations_keep_invariant [of sample_ext "demo_db\<lparr>faults := [False, True]\<rparr>"]
    storage_ok_demo by simp

text \<open>C1: a successful store is the abstract store: an article whose identifier is new is added, one
  whose identifier is known changes no stored article, and each group of its Newsgroups header gets one
  new entry, numbered one above the highest number of the group.\<close>

theorem store_article_refines_spec:
  assumes "storage_ok X d" and "store_article X a d = (Inr (), d')"
    and "extract_message_id a = Some i"
  shows "abs_spool X d' = spec_store (timestamp (utc_now X)) a i (abs_spool X d)"
  by (rule refine_store [OF assms])

theorem store_article_refines_spec_witness:
  "abs_spool sample_ext demo_db =
     spec_store (timestamp (utc_now sample_ext)) demo_article ''<1@a>'' (abs_spool sample_ext empty_db)"
  by (rule store_article_refines_spec [OF storage_ok_empty demo_store]) code_simp

text \<open>C38: successful deletion, purging and group removal are their abstract counterparts: exactly the
  entries of the article (of the old articles of the group, of the group) go, a removed group leaves the
  list of groups, and a message goes with its last entry.\<close>

theorem removals_refine_spec:
  assumes "db_ok d"
  shows "(delete_article_by_id i d = (Inr (), d1) \<longrightarrow>
            abs_spool X d1 = spec_delete i (abs_spool X d)) \<and>
         (purge_group_before g t d = (Inr (), d2) \<longrightarrow>
            abs_spool X d2 = spec_purge g (timestamp t) (abs_spool X d)) \<and>
         (remove_group g d = (Inr (), d3) \<longrightarrow>
            abs_spool X d3 = spec_remove_group g (abs_spool X d)) \<and>
         (purge_orphan_messages d = (Inr (), d4) \<longrightarrow>
            abs_spool X d4 = spec_drop_orphans (\<lambda>_. True) (abs_spool X d))"
  using refine_delete [OF assms] refine_purge [OF assms] refine_remove_group [OF assms]
    refine_purge_orphans [OF assms] by blast

theorem removals_refine_spec_witness:
  "abs_spool sample_ext (snd (delete_article_by_id ''<1@a>'' demo_db)) =
     spec_delete ''<1@a>'' (abs_spool sample_ext demo_db)"
proof -
  have "fst (delete_article_by_id ''<1@a>'' demo_db) = Inr ()" by code_simp
  then have "delete_article_by_id ''<1@a>'' demo_db = (Inr (), snd (delete_article_by_id ''<1@a>'' demo_db))"
    by (metis prod.collapse)
  with removals_refine_spec [of demo_db "''<1@a>''"] storage_ok_demo show ?thesis
    by (simp add: storage_ok_def)
qed

text \<open>After a successful store, looking an article up returns the stored article for its own
  identifier (or the one that was there first) and what was there before for any other.\<close>

theorem store_then_get:
  assumes "storage_ok X d" and "store_article X a d = (Inr (), d1)"
    and "get_article_by_id X j d1 = (Inr v, d2)"
  shows "v = (if extract_message_id a = Some j
              then Some (case articles (abs_spool X d) j of None \<Rightarrow> a | Some b \<Rightarrow> b)
              else articles (abs_spool X d) j)"
  by (rule sqlite.store_then_lookup [OF assms])

theorem store_then_get_witness:
  "Some demo_article =
     (if extract_message_id demo_article = Some ''<1@a>''
      then Some (case articles (abs_spool sample_ext empty_db) ''<1@a>'' of
                   None \<Rightarrow> demo_article | Some b \<Rightarrow> b)
      else articles (abs_spool sample_ext empty_db) ''<1@a>'')"
proof -
  have "fst (get_article_by_id sample_ext ''<1@a>'' demo_db) = Inr (Some demo_article)" by code_simp
  then have "get_article_by_id sample_ext ''<1@a>'' demo_db =
      (Inr (Some demo_article), snd (get_article_by_id sample_ext ''<1@a>'' demo_db))"
    by (metis prod.collapse)
  from store_then_get [OF storage_ok_empty demo_store this] show ?thesis .
qed

text \<open>The numbers listed for a group are strictly increasing and are exactly the numbers of its
  entries.\<close>

theorem list_article_numbers_sorted:
  assumes "db_ok d" and "list_article_numbers g d = (Inr ns, d')"
  shows "sorted_wrt (<) ns \<and>
         set ns = {nat (ga_number r) | r. r \<in> set (group_articles d) \<and> ga_group_name r = g}"
proof -
  have "ns = map (\<lambda>r. nat (ga_number r)) (group_rows g d)"
    using assms(2) select_cases [of "\<lambda>d. map (\<lambda>r. nat (ga_number r)) (group_rows g d)" d]
    by (auto simp: list_article_numbers_def group_rows_def)
  with article_numbers_strict [OF assms(1)] show ?thesis by (auto simp: set_group_rows)
qed

theorem list_article_numbers_sorted_witness:
  "sorted_wrt (<) [1] \<and>
   set [1] = {nat (ga_number r) | r. r \<in> set (group_articles demo_db) \<and> ga_group_name r = ''alt.x''}"
proof -
  have "fst (list_article_numbers ''alt.x'' demo_db) = Inr [1]" by code_simp
  then have "list_article_numbers ''alt.x'' demo_db =
      (Inr [1], snd (list_article_numbers ''alt.x'' demo_db))" by (metis prod.collapse)
  with list_article_numbers_sorted [of demo_db "''alt.x''" "[1]"] storage_ok_demo show ?thesis
    by (simp add: storage_ok_def)
qed

end
