(* ===== verification/Limits.thy ===== *)
theory Limits
  imports Externals
begin

text \<open>
  Per-user limits and usage, from \<^verbatim>\<open>src/src/limits/mod.rs\<close>: the limits a user has, the usage counted
  against them, and the outcome of a check.
\<close>

record user_limits =
  limit_can_post :: bool
  limit_max_connections :: "u32 option"
  limit_bandwidth :: "u64 option"
  limit_bandwidth_period_secs :: "u64 option"

definition default_user_limits :: user_limits where
  "default_user_limits =
     \<lparr>limit_can_post = True, limit_max_connections = None, limit_bandwidth = None,
      limit_bandwidth_period_secs = None\<rparr>"

definition unlimited :: user_limits where
  "unlimited = default_user_limits"

definition is_connections_unlimited :: "user_limits \<Rightarrow> bool" where
  "is_connections_unlimited l \<longleftrightarrow> limit_max_connections l = None"

definition is_bandwidth_unlimited :: "user_limits \<Rightarrow> bool" where
  "is_bandwidth_unlimited l \<longleftrightarrow> limit_bandwidth l = None"

record user_usage =
  usage_bytes_uploaded :: u64
  usage_bytes_downloaded :: u64
  usage_window_start :: "datetime option"

definition default_user_usage :: user_usage where
  "default_user_usage =
     \<lparr>usage_bytes_uploaded = 0, usage_bytes_downloaded = 0, usage_window_start = None\<rparr>"

definition total_bandwidth :: "user_usage \<Rightarrow> u64" where
  "total_bandwidth u = saturating_add (usage_bytes_uploaded u) (usage_bytes_downloaded u)"

definition usage_reset :: "ext \<Rightarrow> user_usage \<Rightarrow> user_usage" where
  "usage_reset X u =
     u\<lparr>usage_bytes_uploaded := 0, usage_bytes_downloaded := 0, usage_window_start := Some (utc_now X)\<rparr>"

datatype limit_check_result = Allowed | PostingDisabled | BandwidthExceeded | ConnectionLimitExceeded

definition is_allowed :: "limit_check_result \<Rightarrow> bool" where
  "is_allowed r = (case r of Allowed \<Rightarrow> True | _ \<Rightarrow> False)"

definition is_denied :: "limit_check_result \<Rightarrow> bool" where
  "is_denied r \<longleftrightarrow> \<not> is_allowed r"

end
