(* ===== verification/Auth.thy ===== *)
theory Auth
  imports Sql Limits Wildmat
begin

text \<open>
  Authentication, from \<^verbatim>\<open>src/src/auth/sqlite.rs\<close> and \<^verbatim>\<open>src/src/auth/pgp_discovery.rs\<close>: the tables of users,
  administrators, moderators, limits and usage, and the operations of the SQLite provider.

  The schema's foreign keys are checked, as sqlx opens SQLite: a row of \<open>admins\<close> or \<open>moderators\<close> must have
  its user, a user they refer to cannot be deleted, and the limits and the usage of a user are deleted
  with the user's row, also when \<^verbatim>\<open>INSERT OR REPLACE\<close> replaces that row. Password hashing is the
  argon2 crate's.
\<close>

record user_row =
  u_username :: string
  u_password_hash :: string
  u_key :: "string option"

record moderator_row =
  mod_username :: string
  mod_pattern :: string

record user_limits_row =
  ul_username :: string
  ul_can_post :: "int option"
  ul_max_connections :: "int option"
  ul_bandwidth_limit_bytes :: "int option"
  ul_bandwidth_period_secs :: "int option"

record user_usage_row =
  uu_username :: string
  uu_bytes_uploaded :: int
  uu_bytes_downloaded :: int
  uu_window_start_at :: string

record adb = sql_engine +
  users :: "user_row list"
  admins :: "string list"
  moderators :: "moderator_row list"
  user_limits_table :: "user_limits_row list"
  user_usage_table :: "user_usage_row list"

definition empty_adb :: adb where
  "empty_adb = \<lparr>faults = [], users = [], admins = [], moderators = [], user_limits_table = [],
     user_usage_table = []\<rparr>"

definition is_user :: "adb \<Rightarrow> string \<Rightarrow> bool" where
  "is_user d name \<longleftrightarrow> list_ex (\<lambda>u. u_username u = name) (users d)"

subsection \<open>Users\<close>

text \<open>\<^verbatim>\<open>INSERT OR REPLACE INTO users\<close>: the replaced row takes its limits and its usage with it; the rows of
  \<open>admins\<close> and \<open>moderators\<close> that refer to it refer to the new row.\<close>

definition sql_replace_user :: "user_row \<Rightarrow> (adb, unit) action" where
  "sql_replace_user r = exec (\<lambda>d. (Inr (),
     d\<lparr>users := filter (\<lambda>u. u_username u \<noteq> u_username r) (users d) @ [r],
       user_limits_table := (if is_user d (u_username r)
          then filter (\<lambda>l. ul_username l \<noteq> u_username r) (user_limits_table d)
          else user_limits_table d),
       user_usage_table := (if is_user d (u_username r)
          then filter (\<lambda>l. uu_username l \<noteq> u_username r) (user_usage_table d)
          else user_usage_table d)\<rparr>))"

definition sql_update_users :: "string \<Rightarrow> (user_row \<Rightarrow> user_row) \<Rightarrow> (adb, unit) action" where
  "sql_update_users name f = exec (\<lambda>d.
     (Inr (), d\<lparr>users := map (\<lambda>u. if u_username u = name then f u else u) (users d)\<rparr>))"

definition sql_delete_user :: "string \<Rightarrow> (adb, unit) action" where
  "sql_delete_user name = exec (\<lambda>d.
     if is_user d name \<and> (name \<in> set (admins d) \<or> list_ex (\<lambda>m. mod_username m = name) (moderators d))
     then (Inl Database, d)
     else (Inr (), d\<lparr>users := filter (\<lambda>u. u_username u \<noteq> name) (users d),
       user_limits_table := filter (\<lambda>l. ul_username l \<noteq> name) (user_limits_table d),
       user_usage_table := filter (\<lambda>l. uu_username l \<noteq> name) (user_usage_table d)\<rparr>))"

definition add_user_with_key :: "ext \<Rightarrow> string \<Rightarrow> string \<Rightarrow> string option \<Rightarrow> (adb, unit) action" where
  "add_user_with_key X name password key =
     (case argon2_hash_password X password (salt_generate X) of
        None \<Rightarrow> throw (Anyhow ''password hash'')
      | Some hash \<Rightarrow>
          sql_replace_user \<lparr>u_username = name, u_password_hash = hash, u_key = key\<rparr>)"

definition add_user :: "ext \<Rightarrow> string \<Rightarrow> string \<Rightarrow> (adb, unit) action" where
  "add_user X name password = add_user_with_key X name password None"

definition update_password :: "ext \<Rightarrow> string \<Rightarrow> string \<Rightarrow> (adb, unit) action" where
  "update_password X name new_password =
     (case argon2_hash_password X new_password (salt_generate X) of
        None \<Rightarrow> throw (Anyhow ''password hash'')
      | Some hash \<Rightarrow> sql_update_users name (\<lambda>u. u\<lparr>u_password_hash := hash\<rparr>))"

definition sql_delete_admin :: "string \<Rightarrow> (adb, unit) action" where
  "sql_delete_admin name = exec (\<lambda>d. (Inr (), d\<lparr>admins := filter (\<lambda>a. a \<noteq> name) (admins d)\<rparr>))"

definition sql_delete_moderators :: "(moderator_row \<Rightarrow> bool) \<Rightarrow> (adb, unit) action" where
  "sql_delete_moderators p = exec (\<lambda>d.
     (Inr (), d\<lparr>moderators := filter (\<lambda>m. \<not> p m) (moderators d)\<rparr>))"

definition remove_user :: "string \<Rightarrow> (adb, unit) action" where
  "remove_user name =
     bind_res (sql_delete_user name) (\<lambda>_.
     bind_res (sql_delete_admin name) (\<lambda>_.
     sql_delete_moderators (\<lambda>m. mod_username m = name)))"

definition verify_user :: "ext \<Rightarrow> string \<Rightarrow> string \<Rightarrow> (adb, bool) action" where
  "verify_user X name password =
     bind_res (select (\<lambda>d. List.find (\<lambda>u. u_username u = name) (users d))) (\<lambda>row.
       case row of
         None \<Rightarrow> ret False
       | Some u \<Rightarrow>
           if argon2_parse_hash X (u_password_hash u)
           then ret (argon2_verify_password X password (u_password_hash u))
           else throw (Anyhow ''password hash''))"

subsection \<open>Administrators, keys and moderators\<close>

definition auth_is_admin :: "string \<Rightarrow> (adb, bool) action" where
  "auth_is_admin name = select (\<lambda>d. name \<in> set (admins d))"

definition sql_replace_admin :: "string \<Rightarrow> (adb, unit) action" where
  "sql_replace_admin name = exec (\<lambda>d.
     if is_user d name then (Inr (), d\<lparr>admins := filter (\<lambda>a. a \<noteq> name) (admins d) @ [name]\<rparr>)
     else (Inl Database, d))"

definition add_admin :: "string \<Rightarrow> string \<Rightarrow> (adb, unit) action" where
  "add_admin name key =
     bind_res (sql_replace_admin name) (\<lambda>_. sql_update_users name (\<lambda>u. u\<lparr>u_key := Some key\<rparr>))"

definition add_admin_without_key :: "string \<Rightarrow> (adb, unit) action" where
  "add_admin_without_key name = sql_replace_admin name"

definition remove_admin :: "string \<Rightarrow> (adb, unit) action" where
  "remove_admin name = sql_delete_admin name"

definition update_pgp_key :: "string \<Rightarrow> string \<Rightarrow> (adb, unit) action" where
  "update_pgp_key name key = sql_update_users name (\<lambda>u. u\<lparr>u_key := Some key\<rparr>)"

definition get_pgp_key :: "string \<Rightarrow> (adb, string option) action" where
  "get_pgp_key name =
     select (\<lambda>d. case List.find (\<lambda>u. u_username u = name) (users d) of
                   None \<Rightarrow> None | Some u \<Rightarrow> u_key u)"

definition add_moderator :: "string \<Rightarrow> string \<Rightarrow> (adb, unit) action" where
  "add_moderator name pattern = exec (\<lambda>d.
     if is_user d name
     then (Inr (), d\<lparr>moderators :=
             filter (\<lambda>m. \<not> (mod_username m = name \<and> mod_pattern m = pattern)) (moderators d) @
             [\<lparr>mod_username = name, mod_pattern = pattern\<rparr>]\<rparr>)
     else (Inl Database, d))"

definition remove_moderator :: "string \<Rightarrow> string \<Rightarrow> (adb, unit) action" where
  "remove_moderator name pattern =
     sql_delete_moderators (\<lambda>m. mod_username m = name \<and> mod_pattern m = pattern)"

definition is_moderator :: "ext \<Rightarrow> string \<Rightarrow> string \<Rightarrow> (adb, bool) action" where
  "is_moderator X name grp =
     bind_res (select (\<lambda>d. filter (\<lambda>m. mod_username m = name) (moderators d)))
       (\<lambda>rows. ret (list_ex (\<lambda>m. wildmat X (mod_pattern m) grp) rows))"

subsection \<open>Limits and usage\<close>

text \<open>\<^verbatim>\<open>u64 as i64\<close> and back keep the bits; so does a \<^verbatim>\<open>u32\<close>, which fits.\<close>

definition get_user_limits :: "string \<Rightarrow> (adb, user_limits option) action" where
  "get_user_limits name =
     select (\<lambda>d. map_option
       (\<lambda>r. \<lparr>limit_can_post = (case ul_can_post r of None \<Rightarrow> True | Some v \<Rightarrow> v \<noteq> 0),
             limit_max_connections = map_option of_int (ul_max_connections r),
             limit_bandwidth = map_option of_int (ul_bandwidth_limit_bytes r),
             limit_bandwidth_period_secs = map_option of_int (ul_bandwidth_period_secs r)\<rparr>)
       (List.find (\<lambda>r. ul_username r = name) (user_limits_table d)))"

definition set_user_limits :: "string \<Rightarrow> user_limits \<Rightarrow> (adb, unit) action" where
  "set_user_limits name limits = exec (\<lambda>d.
     if is_user d name
     then (Inr (), d\<lparr>user_limits_table := upsert ul_username
            \<lparr>ul_username = name,
             ul_can_post = Some (if limit_can_post limits then 1 else 0),
             ul_max_connections = map_option uint (limit_max_connections limits),
             ul_bandwidth_limit_bytes = map_option sint (limit_bandwidth limits),
             ul_bandwidth_period_secs = map_option sint (limit_bandwidth_period_secs limits)\<rparr>
            (user_limits_table d)\<rparr>)
     else (Inl Database, d))"

definition clear_user_limits :: "string \<Rightarrow> (adb, unit) action" where
  "clear_user_limits name = exec (\<lambda>d.
     (Inr (), d\<lparr>user_limits_table := filter (\<lambda>r. ul_username r \<noteq> name) (user_limits_table d)\<rparr>))"

definition parse_window_start :: "ext \<Rightarrow> string \<Rightarrow> datetime option" where
  "parse_window_start X s =
     (case chrono_parse_rfc3339 X s of
        Some t \<Rightarrow> Some t
      | None \<Rightarrow> chrono_parse_datetime X sqlite_format s)"

definition get_user_usage :: "ext \<Rightarrow> string \<Rightarrow> (adb, user_usage) action" where
  "get_user_usage X name =
     select (\<lambda>d. case List.find (\<lambda>r. uu_username r = name) (user_usage_table d) of
       None \<Rightarrow> default_user_usage
     | Some r \<Rightarrow> \<lparr>usage_bytes_uploaded = of_int (uu_bytes_uploaded r),
                  usage_bytes_downloaded = of_int (uu_bytes_downloaded r),
                  usage_window_start = parse_window_start X (uu_window_start_at r)\<rparr>)"

definition sql_upsert_usage :: "user_usage_row \<Rightarrow> (adb, unit) action" where
  "sql_upsert_usage row = exec (\<lambda>d.
     if is_user d (uu_username row)
     then (Inr (), d\<lparr>user_usage_table := upsert uu_username row (user_usage_table d)\<rparr>)
     else (Inl Database, d))"

definition set_user_usage :: "ext \<Rightarrow> string \<Rightarrow> user_usage \<Rightarrow> (adb, unit) action" where
  "set_user_usage X name usage = sql_upsert_usage
     \<lparr>uu_username = name,
      uu_bytes_uploaded = sint (usage_bytes_uploaded usage),
      uu_bytes_downloaded = sint (usage_bytes_downloaded usage),
      uu_window_start_at = chrono_format X sqlite_format
        (case usage_window_start usage of None \<Rightarrow> utc_now X | Some t \<Rightarrow> t)\<rparr>"

definition reset_user_usage :: "ext \<Rightarrow> string \<Rightarrow> (adb, unit) action" where
  "reset_user_usage X name = sql_upsert_usage
     \<lparr>uu_username = name, uu_bytes_uploaded = 0, uu_bytes_downloaded = 0,
      uu_window_start_at = chrono_format X sqlite_format (utc_now X)\<rparr>"

subsection \<open>Key discovery\<close>

text \<open>The key servers of an instance made without a list of them; the source makes none.\<close>

definition new_key_discovery :: "string list" where
  "new_key_discovery =
     [''hkps://keys.openpgp.org/pks/lookup?op=get&search=<email>'',
      ''hkps://pgp.mit.edu/pks/lookup?op=get&search=<email>'',
      ''hkps://keyserver.ubuntu.com/pks/lookup?op=get&search=<email>'']"

definition discover_key :: "ext \<Rightarrow> string list \<Rightarrow> string \<Rightarrow> string option result" where
  "discover_key X key_servers user =
     (case pgp_http_get_one X user key_servers of
        None \<Rightarrow> Inr None
      | Some public_key \<Rightarrow>
          (case pgp_to_armored_string X public_key of
             None \<Rightarrow> Inl (Anyhow ''Failed to serialize discovered key'')
           | Some armored_key \<Rightarrow> Inr (Some armored_key)))"

definition validate_key :: "ext \<Rightarrow> string \<Rightarrow> bool result" where
  "validate_key X key_text = Inr (pgp_key_from_string X key_text)"

end
