(* ===== verification/Auth_Properties.thy ===== *)
theory Auth_Properties
  imports Auth Sample_Externals
begin

text \<open>
  The invariant of the authentication tables (the keys of the schema), what the operations promise to
  their callers as a locale \<open>credential_store\<close> interpreted on the SQLite provider, and the properties of
  authentication.
\<close>

subsection \<open>Invariant\<close>

definition user_names :: "adb \<Rightarrow> string set" where
  "user_names d = u_username ` set (users d)"

definition adb_ok :: "adb \<Rightarrow> bool" where
  "adb_ok d \<longleftrightarrow>
     distinct (map u_username (users d)) \<and>
     distinct (admins d) \<and> set (admins d) \<subseteq> user_names d \<and>
     distinct (moderators d) \<and> mod_username ` set (moderators d) \<subseteq> user_names d \<and>
     distinct (map ul_username (user_limits_table d)) \<and>
     ul_username ` set (user_limits_table d) \<subseteq> user_names d \<and>
     distinct (map uu_username (user_usage_table d)) \<and>
     uu_username ` set (user_usage_table d) \<subseteq> user_names d"

lemma is_user_names: "is_user d name \<longleftrightarrow> name \<in> user_names d"
  by (auto simp: is_user_def user_names_def list_ex_iff)

lemma user_names_upd [simp]:
  "user_names (d\<lparr>faults := fs\<rparr>) = user_names d" "user_names (d\<lparr>admins := as\<rparr>) = user_names d"
  "user_names (d\<lparr>moderators := ms\<rparr>) = user_names d"
  "user_names (d\<lparr>user_limits_table := ls\<rparr>) = user_names d"
  "user_names (d\<lparr>user_usage_table := ws\<rparr>) = user_names d"
  by (simp_all add: user_names_def)

lemma user_names_delete [simp]:
  "user_names (d\<lparr>users := filter (\<lambda>u. u_username u \<noteq> name) (users d)\<rparr>) = user_names d - {name}"
  by (auto simp: user_names_def)

lemma user_names_replace [simp]:
  "user_names (d\<lparr>users := filter (\<lambda>u. u_username u \<noteq> u_username r) (users d) @ [r]\<rparr>) =
     insert (u_username r) (user_names d)"
  by (auto simp: user_names_def)

lemma adb_ok_faults [simp]: "adb_ok (d\<lparr>faults := fs\<rparr>) = adb_ok d"
  by (simp add: adb_ok_def)

lemma adb_ok_empty [simp]: "adb_ok empty_adb"
  by (simp add: adb_ok_def empty_adb_def)

lemma distinct_map_filter': "distinct (map f xs) \<Longrightarrow> distinct (map f (filter P xs))"
  by (auto simp: distinct_map inj_on_def)

named_theorems auth_ok "the statements keep the invariant of the authentication tables"

lemma sql_replace_user_ok [auth_ok]: "keeps adb_ok (sql_replace_user r)"
  unfolding sql_replace_user_def
  by (rule keeps_exec)
     (auto simp: keeps_def adb_ok_def is_user_names distinct_map_filter')

lemma sql_update_users_ok [auth_ok]:
  assumes "\<And>u. u_username (f u) = u_username u"
  shows "keeps adb_ok (sql_update_users name f)"
proof -
  have names: "map u_username (map (\<lambda>u. if u_username u = name then f u else u) us) = map u_username us"
    for us using assms by (induction us) auto
  then have "user_names (d\<lparr>users := map (\<lambda>u. if u_username u = name then f u else u) (users d)\<rparr>) =
      user_names d" for d
    by (metis (no_types, lifting) adb.select_convs(1) adb.surjective adb.update_convs(1) list.set_map user_names_def)
  with names show ?thesis
    unfolding sql_update_users_def
    by (intro keeps_exec) (auto simp: keeps_def adb_ok_def simp del: map_map)
qed

lemma sql_delete_user_ok [auth_ok]: "keeps adb_ok (sql_delete_user name)"
  unfolding sql_delete_user_def
  by (rule keeps_exec)
     (auto simp: keeps_def adb_ok_def is_user_names list_ex_iff distinct_map_filter')

lemma sql_delete_admin_ok [auth_ok]: "keeps adb_ok (sql_delete_admin name)"
  unfolding sql_delete_admin_def
  by (rule keeps_exec) (auto simp: keeps_def adb_ok_def)

lemma sql_delete_moderators_ok [auth_ok]: "keeps adb_ok (sql_delete_moderators p)"
  unfolding sql_delete_moderators_def
  by (rule keeps_exec) (auto simp: keeps_def adb_ok_def)

lemma sql_replace_admin_ok [auth_ok]: "keeps adb_ok (sql_replace_admin name)"
  unfolding sql_replace_admin_def
  by (rule keeps_exec) (auto simp: keeps_def adb_ok_def is_user_names)

lemma add_moderator_ok [auth_ok]: "keeps adb_ok (add_moderator name pattern)"
  unfolding add_moderator_def
  by (rule keeps_exec) (auto simp: keeps_def adb_ok_def is_user_names)

lemma set_user_limits_ok [auth_ok]: "keeps adb_ok (set_user_limits name limits)"
  unfolding set_user_limits_def
  by (rule keeps_exec)
     (auto simp: keeps_def adb_ok_def is_user_names distinct_upsert keys_upsert)

lemma clear_user_limits_ok [auth_ok]: "keeps adb_ok (clear_user_limits name)"
  unfolding clear_user_limits_def
  by (rule keeps_exec) (auto simp: keeps_def adb_ok_def distinct_map_filter')

lemma sql_upsert_usage_ok [auth_ok]: "keeps adb_ok (sql_upsert_usage row)"
  unfolding sql_upsert_usage_def
  by (rule keeps_exec)
     (auto simp: keeps_def adb_ok_def is_user_names distinct_upsert keys_upsert)

lemma auth_ops_ok [auth_ok]:
  "keeps adb_ok (add_user_with_key X u p k)" "keeps adb_ok (add_user X u p)"
  "keeps adb_ok (update_password X u p)" "keeps adb_ok (remove_user u)"
  "keeps adb_ok (add_admin u key)" "keeps adb_ok (add_admin_without_key u)"
  "keeps adb_ok (remove_admin u)" "keeps adb_ok (update_pgp_key u key)"
  "keeps adb_ok (remove_moderator u pattern)" "keeps adb_ok (set_user_usage X u w)"
  "keeps adb_ok (reset_user_usage X u)"
  unfolding add_user_def add_user_with_key_def update_password_def remove_user_def add_admin_def
    add_admin_without_key_def remove_admin_def update_pgp_key_def remove_moderator_def
    set_user_usage_def reset_user_usage_def
  by (intro keeps_intros auth_ok; simp)+

subsection \<open>The contract of a credential store\<close>

locale credential_store =
  fixes ok :: "'s \<Rightarrow> bool"
    and creds :: "'s \<Rightarrow> string \<Rightarrow> string option"
    and accepts :: "string \<Rightarrow> string \<Rightarrow> bool"
    and add :: "string \<Rightarrow> string \<Rightarrow> ('s, unit) action"
    and change :: "string \<Rightarrow> string \<Rightarrow> ('s, unit) action"
    and remove :: "string \<Rightarrow> ('s, unit) action"
    and verify :: "string \<Rightarrow> string \<Rightarrow> ('s, bool) action"
  assumes add_view: "ok s \<Longrightarrow> add u p s = (Inr (), s') \<Longrightarrow>
            \<exists>h. accepts h p \<and> creds s' = (creds s)(u \<mapsto> h) \<and> ok s'"
    and change_view: "ok s \<Longrightarrow> change u p s = (Inr (), s') \<Longrightarrow>
            \<exists>h. accepts h p \<and> ok s' \<and>
                creds s' = (if creds s u = None then creds s else (creds s)(u \<mapsto> h))"
    and remove_view: "ok s \<Longrightarrow> remove u s = (Inr (), s') \<Longrightarrow> creds s' = (creds s)(u := None) \<and> ok s'"
    and verify_view: "ok s \<Longrightarrow> verify u p s = (Inr b, s') \<Longrightarrow>
            b = (\<exists>h. creds s u = Some h \<and> accepts h p) \<and> creds s' = creds s \<and> ok s'"
begin

lemma verify_after_add:
  "ok s \<Longrightarrow> add u p s = (Inr (), s1) \<Longrightarrow> verify u p s1 = (Inr b, s2) \<Longrightarrow> b"
  using add_view [of s u p s1] verify_view [of s1 u p b s2] by auto

lemma verify_after_change:
  "ok s \<Longrightarrow> creds s u \<noteq> None \<Longrightarrow> change u p s = (Inr (), s1) \<Longrightarrow> verify u p s1 = (Inr b, s2) \<Longrightarrow> b"
  using change_view [of s u p s1] verify_view [of s1 u p b s2] by auto

lemma verify_after_remove:
  "ok s \<Longrightarrow> remove u s = (Inr (), s1) \<Longrightarrow> verify u p s1 = (Inr b, s2) \<Longrightarrow> \<not> b"
  using remove_view [of s u s1] verify_view [of s1 u p b s2] by auto

lemma verify_other_after_add:
  assumes "ok s" and "add u p s = (Inr (), s1)" and "v \<noteq> u"
    and "verify v q s1 = (Inr b, s2)" and "verify v q s = (Inr c, s3)"
  shows "b = c"
proof -
  obtain h where "creds s1 = (creds s)(u \<mapsto> h)" "ok s1" using add_view [OF assms(1,2)] by blast
  then show ?thesis
    using verify_view [OF _ assms(4)] verify_view [OF assms(1,5)] assms(3) by auto
qed

end

definition hash_of :: "adb \<Rightarrow> string \<Rightarrow> string option" where
  "hash_of d name = map_option u_password_hash (List.find (\<lambda>u. u_username u = name) (users d))"

definition auth_state_ok :: "ext \<Rightarrow> adb \<Rightarrow> bool" where
  "auth_state_ok X d \<longleftrightarrow> argon2_ok X \<and> adb_ok d"

lemma hash_of_faults [simp]: "hash_of (d\<lparr>faults := fs\<rparr>) = hash_of d"
  by (simp add: hash_of_def fun_eq_iff)

lemma hash_of_replace:
  assumes "sql_replace_user r d = (Inr (), d')"
  shows "hash_of d' = (hash_of d)(u_username r \<mapsto> u_password_hash r)"
proof -
  obtain fs where us: "users d' = filter (\<lambda>u. u_username u \<noteq> u_username r) (users d) @ [r]"
    using assms unfolding sql_replace_user_def by (auto elim!: exec_okE)
  have "List.find (\<lambda>u. u_username u = n) (filter (\<lambda>u. u_username u \<noteq> u_username r) us @ [r]) =
      (if n = u_username r then Some r else List.find (\<lambda>u. u_username u = n) us)" for n and us :: "user_row list"
    by (induction us) auto
  then show ?thesis by (auto simp: hash_of_def fun_eq_iff us)
qed

lemma hash_of_delete:
  assumes "remove_user name d = (Inr (), d')"
  shows "hash_of d' = (hash_of d)(name := None)"
proof -
  have "users d' = filter (\<lambda>u. u_username u \<noteq> name) (users d)"
    using assms unfolding remove_user_def sql_delete_user_def sql_delete_admin_def sql_delete_moderators_def
    by (auto elim!: bind_res_okE exec_okE split: if_splits)
  moreover have "List.find (\<lambda>u. u_username u = n) (filter (\<lambda>u. u_username u \<noteq> name) us) =
      (if n = name then None else List.find (\<lambda>u. u_username u = n) us)" for n and us :: "user_row list"
    by (induction us) auto
  ultimately show ?thesis by (auto simp: hash_of_def fun_eq_iff)
qed

lemma hash_of_update:
  assumes "sql_update_users name (\<lambda>u. u\<lparr>u_password_hash := h\<rparr>) d = (Inr (), d')"
  shows "hash_of d' = (if hash_of d name = None then hash_of d else (hash_of d)(name \<mapsto> h))"
proof -
  have us: "users d' = map (\<lambda>u. if u_username u = name then u\<lparr>u_password_hash := h\<rparr> else u) (users d)"
    using assms unfolding sql_update_users_def by (auto elim!: exec_okE)
  have "map_option u_password_hash (List.find (\<lambda>u. u_username u = n)
        (map (\<lambda>u. if u_username u = name then u\<lparr>u_password_hash := h\<rparr> else u) us)) =
      (if n = name \<and> List.find (\<lambda>u. u_username u = n) us \<noteq> None then Some h
       else map_option u_password_hash (List.find (\<lambda>u. u_username u = n) us))" for n and us :: "user_row list"
    by (induction us) auto
  then show ?thesis by (auto simp: hash_of_def fun_eq_iff us)
qed

interpretation sqlite_auth: credential_store "auth_state_ok X" hash_of
  "\<lambda>h p. argon2_verify_password X p h" "add_user X" "update_password X" remove_user "verify_user X" for X
proof
  fix d u p d'
  assume ok: "auth_state_ok X d" and add: "add_user X u p d = (Inr (), d')"
  then obtain h where h: "argon2_hash_password X p (salt_generate X) = Some h"
    and r: "sql_replace_user \<lparr>u_username = u, u_password_hash = h, u_key = None\<rparr> d = (Inr (), d')"
    by (auto simp: add_user_def add_user_with_key_def split: option.splits)
  have "adb_ok d'" using keepsD' [OF sql_replace_user_ok r] ok by (simp add: auth_state_ok_def)
  with ok h hash_of_replace [OF r] show "\<exists>h. argon2_verify_password X p h \<and>
      hash_of d' = (hash_of d)(u \<mapsto> h) \<and> auth_state_ok X d'"
    by (auto simp: auth_state_ok_def argon2_ok_def)
next
  fix d u p d'
  assume ok: "auth_state_ok X d" and up: "update_password X u p d = (Inr (), d')"
  then obtain h where h: "argon2_hash_password X p (salt_generate X) = Some h"
    and r: "sql_update_users u (\<lambda>u. u\<lparr>u_password_hash := h\<rparr>) d = (Inr (), d')"
    by (auto simp: update_password_def split: option.splits)
  have "adb_ok d'" using keepsD' [OF auth_ops_ok(3) up] ok by (simp add: auth_state_ok_def)
  with ok h hash_of_update [OF r] show "\<exists>h. argon2_verify_password X p h \<and> auth_state_ok X d' \<and>
      hash_of d' = (if hash_of d u = None then hash_of d else (hash_of d)(u \<mapsto> h))"
    by (intro exI [of _ h]) (auto simp: auth_state_ok_def argon2_ok_def)
next
  fix d u d'
  assume "auth_state_ok X d" and "remove_user u d = (Inr (), d')"
  then show "hash_of d' = (hash_of d)(u := None) \<and> auth_state_ok X d'"
    using hash_of_delete keepsD' [OF auth_ops_ok(4)] by (auto simp: auth_state_ok_def)
next
  fix d u p b d'
  assume ok: "auth_state_ok X d" and v: "verify_user X u p d = (Inr b, d')"
  from v obtain row d1 where
    sel: "select (\<lambda>d. List.find (\<lambda>r. u_username r = u) (users d)) d = (Inr row, d1)" and
    k: "(case row of None \<Rightarrow> ret False | Some r \<Rightarrow> if argon2_parse_hash X (u_password_hash r)
           then ret (argon2_verify_password X p (u_password_hash r))
           else throw (Anyhow ''password hash'')) d1 = (Inr b, d')"
    unfolding verify_user_def by (elim bind_res_okE)
  from select_cases [OF _ sel] obtain fs where
    "row = List.find (\<lambda>r. u_username r = u) (users d)" "d1 = d\<lparr>faults := fs\<rparr>" by auto
  with k ok show "b = (\<exists>h. hash_of d u = Some h \<and> argon2_verify_password X p h) \<and>
      hash_of d' = hash_of d \<and> auth_state_ok X d'"
    by (auto simp: hash_of_def auth_state_ok_def fun_eq_iff split: option.splits if_splits)
qed

subsection \<open>Properties\<close>

text \<open>The tables of the authentication database stay well formed (unique users, and every
  administrator, moderator, limit and usage row of an existing user) under every operation, failed
  statements included.\<close>

theorem auth_operations_keep_invariant:
  assumes "adb_ok d"
  shows "adb_ok (snd (add_user_with_key X u p k d)) \<and> adb_ok (snd (update_password X u p d)) \<and>
         adb_ok (snd (remove_user u d)) \<and> adb_ok (snd (add_admin u key d)) \<and>
         adb_ok (snd (add_admin_without_key u d)) \<and> adb_ok (snd (remove_admin u d)) \<and>
         adb_ok (snd (update_pgp_key u key d)) \<and> adb_ok (snd (add_moderator u pattern d)) \<and>
         adb_ok (snd (remove_moderator u pattern d)) \<and> adb_ok (snd (set_user_limits u l d)) \<and>
         adb_ok (snd (clear_user_limits u d)) \<and> adb_ok (snd (set_user_usage X u w d)) \<and>
         adb_ok (snd (reset_user_usage X u d))"
  by (intro conjI; rule keepsD [where P = adb_ok and s = d, OF _ assms]; rule auth_ok)

theorem auth_operations_keep_invariant_witness:
  "adb_ok (snd (add_admin ''root'' ''key'' (snd (add_user sample_ext ''root'' ''pw'' empty_adb))))"
  using auth_operations_keep_invariant [of empty_adb sample_ext "''root''" "''pw''" None]
    auth_operations_keep_invariant [of "snd (add_user sample_ext ''root'' ''pw'' empty_adb)"]
  by (simp add: add_user_def)



text \<open>Limits survive the database: what was set for a user (64-bit byte counts and periods, stored
  as signed integers, included) is what is read back, and nothing is read once they are cleared.\<close>

theorem user_limits_roundtrip:
  assumes "set_user_limits u l d = (Inr (), d1)" and "get_user_limits u d1 = (Inr v, d2)"
  shows "v = Some l"
proof -
  let ?row = "\<lparr>ul_username = u, ul_can_post = Some (if limit_can_post l then 1 else 0),
      ul_max_connections = map_option uint (limit_max_connections l),
      ul_bandwidth_limit_bytes = map_option sint (limit_bandwidth l),
      ul_bandwidth_period_secs = map_option sint (limit_bandwidth_period_secs l)\<rparr>"
  have "user_limits_table d1 = upsert ul_username ?row (user_limits_table d)"
    using assms(1) unfolding set_user_limits_def by (auto elim!: exec_okE split: if_splits)
  then have "List.find (\<lambda>r. ul_username r = u) (user_limits_table d1) = Some ?row"
    by (simp add: find_upsert)
  with assms(2) show ?thesis
    unfolding get_user_limits_def
    by (auto dest!: select_cases [rotated] simp: option.map_comp comp_def option.map_ident)
qed

theorem user_limits_roundtrip_witness:
  "get_user_limits ''u'' (snd (set_user_limits ''u''
      \<lparr>limit_can_post = False, limit_max_connections = Some 3, limit_bandwidth = Some (- 1),
       limit_bandwidth_period_secs = None\<rparr> (snd (add_user sample_ext ''u'' ''pw'' empty_adb)))) =
   (Inr (Some \<lparr>limit_can_post = False, limit_max_connections = Some 3, limit_bandwidth = Some (- 1),
       limit_bandwidth_period_secs = None\<rparr>), snd (set_user_limits ''u''
      \<lparr>limit_can_post = False, limit_max_connections = Some 3, limit_bandwidth = Some (- 1),
       limit_bandwidth_period_secs = None\<rparr> (snd (add_user sample_ext ''u'' ''pw'' empty_adb))))"
proof -
  let ?l = "\<lparr>limit_can_post = False, limit_max_connections = Some (3::u32), limit_bandwidth = Some (- 1 :: u64),
       limit_bandwidth_period_secs = None\<rparr>"
  let ?d = "snd (add_user sample_ext ''u'' ''pw'' empty_adb)"
  let ?d1 = "snd (set_user_limits ''u'' ?l ?d)"
  have "fst (set_user_limits ''u'' ?l ?d) = Inr ()" by code_simp
  then have st: "set_user_limits ''u'' ?l ?d = (Inr (), ?d1)" by (metis prod.collapse)
  have "faults ?d1 = []" by code_simp
  then obtain v where v: "get_user_limits ''u'' ?d1 = (Inr v, ?d1)"
    by (simp add: get_user_limits_def select_ok)
  with user_limits_roundtrip [OF st v] show ?thesis by simp
qed

text \<open>Removing a user who is an administrator or a moderator fails at its first statement and
  changes nothing: the user can still authenticate and is still an administrator.\<close>

theorem remove_user_of_admin_fails:
  assumes "adb_ok d" and "u \<in> set (admins d) \<or> u \<in> mod_username ` set (moderators d)"
  shows "\<exists>fs. remove_user u d = (Inl Database, d\<lparr>faults := fs\<rparr>)"
proof -
  have "is_user d u" using assms by (auto simp: adb_ok_def is_user_names)
  moreover have "u \<in> set (admins d) \<or> list_ex (\<lambda>m. mod_username m = u) (moderators d)"
    using assms(2) by (auto simp: list_ex_iff)
  ultimately have "sql_delete_user u d = (Inl Database, d\<lparr>faults := tl (faults d)\<rparr>)"
    by (cases "faults d") (auto simp: sql_delete_user_def exec_def faults_update_id is_user_names)
  then show ?thesis by (auto simp: remove_user_def bind_res_def)
qed

theorem remove_user_of_admin_fails_witness:
  "\<exists>fs. remove_user ''root'' (snd (add_admin ''root'' ''key'' (snd (add_user sample_ext ''root'' ''pw'' empty_adb)))) =
     (Inl Database, (snd (add_admin ''root'' ''key'' (snd (add_user sample_ext ''root'' ''pw'' empty_adb))))\<lparr>faults := fs\<rparr>)"
proof (rule remove_user_of_admin_fails)
  show "adb_ok (snd (add_admin ''root'' ''key'' (snd (add_user sample_ext ''root'' ''pw'' empty_adb))))"
    by (intro keepsD [of adb_ok] auth_ops_ok adb_ok_empty)
  show "''root'' \<in> set (admins (snd (add_admin ''root'' ''key'' (snd (add_user sample_ext ''root'' ''pw'' empty_adb))))) \<or>
      ''root'' \<in> mod_username ` set (moderators (snd (add_admin ''root'' ''key'' (snd (add_user sample_ext ''root'' ''pw'' empty_adb)))))"
    by code_simp
qed

end
