(* ===== verification/Config.thy ===== *)
theory Config
  imports Wildmat "HOL-Library.Product_Lexorder"
begin

text \<open>
  Configuration, from \<^verbatim>\<open>src/src/config.rs\<close>: the defaults, the parsers of sizes and durations with the
  deserialisers built on them, the per-group rules, and the reload of runtime settings.

  Durations are integers, nanoseconds, as times are. TOML itself, the placeholder expansion and the reading of
  the file are not modelled: \<open>finish_config\<close> is what \<^verbatim>\<open>Config::from_file\<close> does with the parsed value. The
  JSON parameters of a filter are kept as text.
\<close>

subsection \<open>Defaults\<close>

definition default_db_path :: string where
  "default_db_path = ''sqlite:///var/lib/renews/news.db''"

definition default_auth_db_path :: string where
  "default_auth_db_path = ''sqlite:///var/lib/renews/auth.db''"

definition default_peer_db_path :: string where
  "default_peer_db_path = ''sqlite:///var/lib/renews/peers.db''"

definition default_peer_sync_schedule :: string where
  "default_peer_sync_schedule = ''0 0 * * * *''"

definition default_idle_timeout_secs :: u64 where
  "default_idle_timeout_secs = 600"

definition default_article_queue_capacity :: nat where
  "default_article_queue_capacity = 1000"

definition default_article_worker_count :: nat where
  "default_article_worker_count = 4"

definition default_runtime_threads :: nat where
  "default_runtime_threads = 1"

text \<open>The value of the environment variable is the argument.\<close>

definition default_site_name :: "string option \<Rightarrow> string" where
  "default_site_name hostname = (case hostname of None \<Rightarrow> ''localhost'' | Some h \<Rightarrow> h)"

definition default_log_format :: string where
  "default_log_format = ''json''"

definition default_bandwidth_period_secs :: "u64 option" where
  "default_bandwidth_period_secs = Some (30 * 24 * 60 * 60)"

definition default_pgp_key_servers :: "string list" where
  "default_pgp_key_servers =
     [''hkps://keys.openpgp.org/pks/lookup?op=get&search=<email>'',
      ''hkps://pgp.mit.edu/pks/lookup?op=get&search=<email>'',
      ''hkps://keyserver.ubuntu.com/pks/lookup?op=get&search=<email>'']"

subsection \<open>Sizes and durations\<close>

definition parse_u64 :: "string \<Rightarrow> u64 option" where
  "parse_u64 s = map_option of_nat (parse_uint 64 s)"

text \<open>The unit letter at the end of the text, and the text before it; a digit is a unit of one.\<close>

definition duration_unit :: "string \<Rightarrow> (string \<times> u64) option" where
  "duration_unit s =
     (let c = last s
      in if c = CHR ''s'' \<or> c = CHR ''S'' then Some (butlast s, 1)
         else if c = CHR ''m'' \<or> c = CHR ''M'' then Some (butlast s, 60)
         else if c = CHR ''h'' \<or> c = CHR ''H'' then Some (butlast s, 60 * 60)
         else if c = CHR ''d'' \<or> c = CHR ''D'' then Some (butlast s, 60 * 60 * 24)
         else if c = CHR ''w'' \<or> c = CHR ''W'' then Some (butlast s, 60 * 60 * 24 * 7)
         else if is_ascii_digit c then Some (s, 1)
         else None)"

definition parse_duration_secs :: "string \<Rightarrow> u64 option" where
  "parse_duration_secs input =
     (let trimmed = str_trim input
      in if trimmed = [] \<or> trimmed = ''0'' then None
         else case duration_unit trimmed of
                None \<Rightarrow> None
              | Some (digits, factor) \<Rightarrow>
                  Option.bind (parse_u64 (str_trim digits)) (\<lambda>n. checked_mul n factor))"

definition size_unit :: "string \<Rightarrow> (string \<times> u64) option" where
  "size_unit s =
     (let c = last s
      in if c = CHR ''K'' \<or> c = CHR ''k'' then Some (butlast s, 1024)
         else if c = CHR ''M'' \<or> c = CHR ''m'' then Some (butlast s, 1024 * 1024)
         else if c = CHR ''G'' \<or> c = CHR ''g'' then Some (butlast s, 1024 * 1024 * 1024)
         else if is_ascii_digit c then Some (s, 1)
         else None)"

definition parse_size :: "string \<Rightarrow> u64 option" where
  "parse_size input =
     (let trimmed = str_trim input
      in if trimmed = [] then None
         else case size_unit trimmed of
                None \<Rightarrow> None
              | Some (digits, factor) \<Rightarrow>
                  Option.bind (parse_u64 (str_trim digits)) (\<lambda>n. checked_mul n factor))"

text \<open>The value a deserialiser's visitor is called with; an \<^verbatim>\<open>i64\<close> is an integer.\<close>

datatype de_value = VisitU64 u64 | VisitI64 int | VisitStr string | VisitNone | VisitUnit

definition deserialize_duration_secs :: "de_value \<Rightarrow> u64 option result" where
  "deserialize_duration_secs v =
     (case v of
        VisitU64 n \<Rightarrow> Inr (if n = 0 then None else Some n)
      | VisitI64 n \<Rightarrow>
          if n < 0 then Inl (Anyhow ''duration must be positive'')
          else if n = 0 then Inr None
          else Inr (Some (of_int n))
      | VisitStr s \<Rightarrow> Inr (if s = [] then None else parse_duration_secs s)
      | VisitNone \<Rightarrow> Inr None
      | VisitUnit \<Rightarrow> Inr None)"

definition deserialize_bandwidth_limit :: "de_value \<Rightarrow> u64 option result" where
  "deserialize_bandwidth_limit v =
     (case v of
        VisitU64 n \<Rightarrow> Inr (if n = 0 then None else Some n)
      | VisitI64 n \<Rightarrow>
          if n < 0 then Inl (Anyhow ''size must be positive'')
          else if n = 0 then Inr None
          else Inr (Some (of_int n))
      | VisitStr s \<Rightarrow>
          if s = [] \<or> s = ''0'' then Inr None
          else (case parse_size s of
                  None \<Rightarrow> Inl (Anyhow (''invalid size: '' @ s))
                | Some n \<Rightarrow> Inr (if n = 0 then None else Some n))
      | VisitNone \<Rightarrow> Inr None
      | VisitUnit \<Rightarrow> Inr None)"

definition deserialize_size :: "de_value \<Rightarrow> u64 option result" where
  "deserialize_size v =
     (case v of
        VisitU64 n \<Rightarrow> Inr (Some n)
      | VisitI64 n \<Rightarrow>
          if n < 0 then Inl (Anyhow ''size must be positive'') else Inr (Some (of_int n))
      | VisitStr s \<Rightarrow>
          (case parse_size s of
             None \<Rightarrow> Inl (Anyhow (''invalid size: '' @ s))
           | Some n \<Rightarrow> Inr (Some n))
      | VisitNone \<Rightarrow> Inr None
      | VisitUnit \<Rightarrow> Inr None)"

subsection \<open>The configuration\<close>

record group_rule =
  rule_group :: "string option"
  rule_pattern :: "string option"
  rule_retention_days :: "int option"
  rule_max_article_bytes :: "u64 option"

record peer_rule =
  rule_sitename :: string
  rule_patterns :: "string list"
  rule_sync_schedule :: "string option"

record filter_config =
  filter_name :: string
  filter_parameters :: string

record user_limits_config =
  ulc_allow_posting :: bool
  ulc_max_connections :: u32
  ulc_bandwidth_limit :: "u64 option"
  ulc_bandwidth_period :: "u64 option"

record logging_config =
  log_format :: string
  log_level :: "string option"

record config =
  cfg_addr :: string
  cfg_site_name :: string
  cfg_db_path :: string
  cfg_auth_db_path :: string
  cfg_peer_db_path :: string
  cfg_peer_sync_schedule :: string
  cfg_idle_timeout_secs :: u64
  cfg_peers :: "peer_rule list"
  cfg_tls_addr :: "string option"
  cfg_tls_cert :: "string option"
  cfg_tls_key :: "string option"
  cfg_ws_addr :: "string option"
  cfg_article_queue_capacity :: nat
  cfg_article_worker_count :: nat
  cfg_runtime_threads :: nat
  cfg_group_settings :: "group_rule list"
  cfg_filters :: "filter_config list"
  cfg_pgp_key_servers :: "string list"
  cfg_allow_auth_insecure_connections :: bool
  cfg_allow_anonymous_posting :: bool
  cfg_logging :: logging_config
  cfg_user_limits :: user_limits_config

definition default_user_limits_config :: user_limits_config where
  "default_user_limits_config =
     \<lparr>ulc_allow_posting = True, ulc_max_connections = 0, ulc_bandwidth_limit = None,
      ulc_bandwidth_period = default_bandwidth_period_secs\<rparr>"

definition default_logging_config :: logging_config where
  "default_logging_config = \<lparr>log_format = default_log_format, log_level = None\<rparr>"

definition ulc_is_connections_unlimited :: "user_limits_config \<Rightarrow> bool" where
  "ulc_is_connections_unlimited c \<longleftrightarrow> ulc_max_connections c = 0"

definition ulc_is_bandwidth_unlimited :: "user_limits_config \<Rightarrow> bool" where
  "ulc_is_bandwidth_unlimited c \<longleftrightarrow> ulc_bandwidth_limit c = None"

text \<open>The end of \<^verbatim>\<open>Config::from_file\<close>: the queue has room for an article, and a worker.\<close>

definition finish_config :: "config \<Rightarrow> config" where
  "finish_config c =
     c\<lparr>cfg_article_queue_capacity := max (cfg_article_queue_capacity c) 1,
       cfg_article_worker_count := max (cfg_article_worker_count c) 1\<rparr>"

definition get_runtime_threads :: "nat option \<Rightarrow> config \<Rightarrow> nat result" where
  "get_runtime_threads available_parallelism c =
     (if cfg_runtime_threads c = 0
      then (case available_parallelism of
              None \<Rightarrow> Inl (Anyhow ''Failed to determine number of CPU cores'')
            | Some n \<Rightarrow> Inr n)
      else Inr (cfg_runtime_threads c))"

subsection \<open>Rules per group\<close>

text \<open>\<^verbatim>\<open>Duration::days\<close> and \<^verbatim>\<open>Duration::seconds\<close> panic when the milliseconds do not fit an \<^verbatim>\<open>i64\<close>.\<close>

definition duration_seconds :: "int \<Rightarrow> int result" where
  "duration_seconds secs =
     (if \<bar>secs\<bar> \<le> 9223372036854775807 div 1000 then Inr (secs * 1000000000) else Inl Panic)"

definition duration_days :: "int \<Rightarrow> int result" where
  "duration_days days = duration_seconds (days * 86400)"

definition num_seconds :: "int \<Rightarrow> int" where
  "num_seconds dur = (if 0 \<le> dur then dur div 1000000000 else - ((- dur) div 1000000000))"

text \<open>The sorting key of a pattern: its wildcards, then minus its length (cast to \<^verbatim>\<open>i32\<close>).\<close>

definition pattern_key :: "group_rule \<Rightarrow> nat \<times> int" where
  "pattern_key r =
     (case rule_pattern r of
        None \<Rightarrow> (0, 0)
      | Some p \<Rightarrow> (length (filter (\<lambda>c. c = CHR ''*'' \<or> c = CHR ''?'') p),
                    - sint (of_nat (str_len p) :: 32 word)))"

definition pattern_matches :: "ext \<Rightarrow> string \<Rightarrow> group_rule \<Rightarrow> bool" where
  "pattern_matches X grp r \<longleftrightarrow>
     rule_group r = None \<and>
     (case rule_pattern r of None \<Rightarrow> False | Some p \<Rightarrow> wildmat X p grp)"

definition retention_for_group :: "ext \<Rightarrow> config \<Rightarrow> string \<Rightarrow> int option result" where
  "retention_for_group X c grp =
     (case Option.bind (List.find (\<lambda>r. rule_group r = Some grp) (cfg_group_settings c))
             rule_retention_days of
        Some days \<Rightarrow> if days > 0 then map_sum id Some (duration_days days) else Inr None
      | None \<Rightarrow>
          (let matches = filter (\<lambda>r. rule_retention_days r \<noteq> None)
                           (filter (pattern_matches X grp) (cfg_group_settings c))
           in case sort_key pattern_key matches of
                [] \<Rightarrow> Inr None
              | r # _ \<Rightarrow>
                  (case rule_retention_days r of
                     Some days \<Rightarrow> if days > 0 then map_sum id Some (duration_days days) else Inr None
                   | None \<Rightarrow> Inr None)))"

definition max_size_for_group :: "ext \<Rightarrow> config \<Rightarrow> string \<Rightarrow> u64 option" where
  "max_size_for_group X c grp =
     (case Option.bind (List.find (\<lambda>r. rule_group r = Some grp) (cfg_group_settings c))
             rule_max_article_bytes of
        Some n \<Rightarrow> Some n
      | None \<Rightarrow>
          (let matches = filter (\<lambda>r. rule_max_article_bytes r \<noteq> None)
                           (filter (pattern_matches X grp) (cfg_group_settings c))
           in case sort_key pattern_key matches of
                [] \<Rightarrow> None
              | r # _ \<Rightarrow> rule_max_article_bytes r))"

subsection \<open>Reload\<close>

definition update_runtime :: "config \<Rightarrow> config \<Rightarrow> config" where
  "update_runtime self other =
     self\<lparr>cfg_group_settings := cfg_group_settings other,
          cfg_filters := cfg_filters other,
          cfg_peer_sync_schedule := cfg_peer_sync_schedule other,
          cfg_idle_timeout_secs := cfg_idle_timeout_secs other,
          cfg_peers := cfg_peers other,
          cfg_tls_cert := cfg_tls_cert other,
          cfg_tls_key := cfg_tls_key other,
          cfg_ws_addr := cfg_ws_addr other,
          cfg_runtime_threads := cfg_runtime_threads other,
          cfg_pgp_key_servers := cfg_pgp_key_servers other,
          cfg_allow_auth_insecure_connections := cfg_allow_auth_insecure_connections other,
          cfg_allow_anonymous_posting := cfg_allow_anonymous_posting other,
          cfg_user_limits := cfg_user_limits other\<rparr>"

record static_config =
  st_addr :: string
  st_tls_addr :: "string option"
  st_tls_cert :: "string option"
  st_tls_key :: "string option"
  st_db_path :: string
  st_auth_db_path :: string
  st_peer_db_path :: string
  st_article_queue_capacity :: nat
  st_article_worker_count :: nat
  st_runtime_threads :: nat
  st_ws_addr :: "string option"

record dynamic_config =
  dyn_site_name :: string
  dyn_idle_timeout_secs :: u64
  dyn_allow_auth_insecure_connections :: bool
  dyn_allow_anonymous_posting :: bool
  dyn_group_settings :: "group_rule list"
  dyn_filters :: "filter_config list"
  dyn_peers :: "peer_rule list"
  dyn_peer_sync_schedule :: "string option"
  dyn_pgp_key_servers :: "string list"
  dyn_user_limits :: user_limits_config

definition static_config_of :: "config \<Rightarrow> static_config" where
  "static_config_of c =
     \<lparr>st_addr = cfg_addr c, st_tls_addr = cfg_tls_addr c, st_tls_cert = cfg_tls_cert c,
      st_tls_key = cfg_tls_key c, st_db_path = cfg_db_path c, st_auth_db_path = cfg_auth_db_path c,
      st_peer_db_path = cfg_peer_db_path c,
      st_article_queue_capacity = cfg_article_queue_capacity c,
      st_article_worker_count = cfg_article_worker_count c,
      st_runtime_threads = cfg_runtime_threads c, st_ws_addr = cfg_ws_addr c\<rparr>"

definition dynamic_config_of :: "config \<Rightarrow> dynamic_config" where
  "dynamic_config_of c =
     \<lparr>dyn_site_name = cfg_site_name c, dyn_idle_timeout_secs = cfg_idle_timeout_secs c,
      dyn_allow_auth_insecure_connections = cfg_allow_auth_insecure_connections c,
      dyn_allow_anonymous_posting = cfg_allow_anonymous_posting c,
      dyn_group_settings = cfg_group_settings c, dyn_filters = cfg_filters c, dyn_peers = cfg_peers c,
      dyn_peer_sync_schedule = Some (cfg_peer_sync_schedule c),
      dyn_pgp_key_servers = cfg_pgp_key_servers c, dyn_user_limits = cfg_user_limits c\<rparr>"

record server_config =
  static_cfg :: static_config
  dynamic_cfg :: dynamic_config

text \<open>The outcome of reading the configuration file is the argument.\<close>

definition server_config_from_file :: "config result \<Rightarrow> server_config result" where
  "server_config_from_file raw =
     map_sum id (\<lambda>c. \<lparr>static_cfg = static_config_of c, dynamic_cfg = dynamic_config_of c\<rparr>) raw"

definition reload_dynamic :: "config result \<Rightarrow> (server_config, unit) action" where
  "reload_dynamic raw sc =
     (case raw of
        Inl e \<Rightarrow> (Inl e, sc)
      | Inr c \<Rightarrow> (Inr (), sc\<lparr>dynamic_cfg := dynamic_config_of c\<rparr>))"

end
