(* ===== verification/Server.thy ===== *)
theory Server
  imports Storage Auth Config "HOL-Library.AList"
begin

text \<open>
  The state the connections and the workers of the server share: the storage, the authentication
  database, the usage tracker, the configuration and the article queue, as the handles of
  \<^verbatim>\<open>HandlerContext\<close> in \<^verbatim>\<open>src/src/handlers/mod.rs\<close> name them. A connection's own state extends this record
  (theory \<open>Context\<close>), so that an operation on the shared state is also one on a connection's.
\<close>

text \<open>The in-memory state of \<^verbatim>\<open>UsageTracker\<close> (\<^verbatim>\<open>src/src/limits/tracker.rs\<close>). The bandwidth map is an association list
  because \<open>persist\<close> iterates over it.\<close>

record bandwidth_state =
  bytes_uploaded :: u64
  bytes_downloaded :: u64
  window_start :: datetime

record tracker =
  connections :: "string \<Rightarrow> u64 option"
  bandwidth :: "(string \<times> bandwidth_state) list"
  limits_cache :: "string \<Rightarrow> user_limits option"
  tracker_defaults :: user_limits_config

text \<open>\<^verbatim>\<open>QueuedArticle\<close> and the bounded channel of \<^verbatim>\<open>src/src/queue.rs\<close>.\<close>

record queued_article =
  qa_message :: message
  qa_size :: u64
  qa_is_control :: bool
  qa_already_validated :: bool

record article_queue =
  queue_items :: "queued_article list"
  queue_capacity :: nat

record server =
  storage :: db
  auth :: adb
  usage_tracker :: tracker
  config :: config
  queue :: article_queue

definition on_storage :: "(db, 'a) action \<Rightarrow> ('z server_scheme, 'a) action" where
  "on_storage m w = (case m (storage w) of (r, d) \<Rightarrow> (r, w\<lparr>storage := d\<rparr>))"

definition on_auth :: "(adb, 'a) action \<Rightarrow> ('z server_scheme, 'a) action" where
  "on_auth m w = (case m (auth w) of (r, d) \<Rightarrow> (r, w\<lparr>auth := d\<rparr>))"

text \<open>Code that looks at an error instead of passing it on with \<^verbatim>\<open>?\<close>; a panic passes.\<close>

definition catch_res :: "('s, 'a) action \<Rightarrow> (error \<Rightarrow> ('s, 'b) action) \<Rightarrow> ('a \<Rightarrow> ('s, 'b) action) \<Rightarrow> ('s, 'b) action" where
  "catch_res m h k s =
     (case m s of
        (Inl e, s') \<Rightarrow> if e = Panic then (Inl Panic, s') else h e s'
      | (Inr x, s') \<Rightarrow> k x s')"

lemma keeps_catch_res [keeps_intros]:
  "keeps P m \<Longrightarrow> (\<And>e. keeps P (h e)) \<Longrightarrow> (\<And>x. keeps P (k x)) \<Longrightarrow> keeps P (catch_res m h k)"
  unfolding keeps_def catch_res_def by (fastforce split: prod.splits sum.splits)

lemma keeps_on_storage: "keeps Q m \<Longrightarrow> keeps (\<lambda>w. Q (storage w)) (on_storage m)"
  by (simp add: keeps_def on_storage_def split_beta)

lemma keeps_on_storage_frame:
  "(\<And>w d. R (w\<lparr>storage := d\<rparr>) = R w) \<Longrightarrow> keeps R (on_storage m)"
  by (auto simp: keeps_def on_storage_def split: prod.splits)

lemma keeps_on_auth: "keeps Q m \<Longrightarrow> keeps (\<lambda>w. Q (auth w)) (on_auth m)"
  by (simp add: keeps_def on_auth_def split_beta)

lemma keeps_on_auth_frame:
  "(\<And>w d. R (w\<lparr>auth := d\<rparr>) = R w) \<Longrightarrow> keeps R (on_auth m)"
  by (auto simp: keeps_def on_auth_def split: prod.splits)

lemma on_storage_other:
  "on_storage m w = (r, w') \<Longrightarrow> \<exists>d. m (storage w) = (r, d) \<and> w' = w\<lparr>storage := d\<rparr>"
  by (auto simp: on_storage_def split: prod.splits)

lemma on_auth_other:
  "on_auth m w = (r, w') \<Longrightarrow> \<exists>d. m (auth w) = (r, d) \<and> w' = w\<lparr>auth := d\<rparr>"
  by (auto simp: on_auth_def split: prod.splits)

end
