(* ===== verification/Tracker.thy ===== *)
theory Tracker
  imports Server
begin

text \<open>
  The usage tracker, \<^verbatim>\<open>src/src/limits/tracker.rs\<close>, one definition per operation on the shared state. An
  operation is one step here; the loop of \<open>try_connect\<close> that retries its compare-and-exchange is modelled with its
  interleavings in theory \<open>Connections\<close>.
\<close>

definition set_tracker :: "(tracker \<Rightarrow> tracker) \<Rightarrow> 'z server_scheme \<Rightarrow> 'z server_scheme" where
  "set_tracker f w = w\<lparr>usage_tracker := f (usage_tracker w)\<rparr>"

definition new_tracker :: "user_limits_config \<Rightarrow> tracker" where
  "new_tracker defaults =
     \<lparr>connections = (\<lambda>_. None), bandwidth = [], limits_cache = (\<lambda>_. None), tracker_defaults = defaults\<rparr>"

definition default_bandwidth_state :: "ext \<Rightarrow> bandwidth_state" where
  "default_bandwidth_state X =
     \<lparr>bytes_uploaded = 0, bytes_downloaded = 0, window_start = utc_now X\<rparr>"

definition update_defaults :: "user_limits_config \<Rightarrow> ('z server_scheme, unit) action" where
  "update_defaults defaults w = (Inr (), set_tracker (\<lambda>t. t\<lparr>tracker_defaults := defaults\<rparr>) w)"

definition limits_of_defaults :: "user_limits_config \<Rightarrow> user_limits" where
  "limits_of_defaults c =
     \<lparr>limit_can_post = ulc_allow_posting c,
      limit_max_connections = (if ulc_max_connections c = 0 then None else Some (ulc_max_connections c)),
      limit_bandwidth = ulc_bandwidth_limit c,
      limit_bandwidth_period_secs = ulc_bandwidth_period c\<rparr>"

definition get_effective_limits :: "string \<Rightarrow> ('z server_scheme, user_limits) action" where
  "get_effective_limits name w =
     (case limits_cache (usage_tracker w) name of
        Some cached \<Rightarrow> (Inr cached, w)
      | None \<Rightarrow>
          (case on_auth (get_user_limits name) w of
             (Inr (Some l), w') \<Rightarrow>
               (Inr l, set_tracker (\<lambda>t. t\<lparr>limits_cache := (limits_cache t)(name \<mapsto> l)\<rparr>) w')
           | (_, w') \<Rightarrow> (Inr (limits_of_defaults (tracker_defaults (usage_tracker w'))), w')))"

definition invalidate_limits_cache :: "string \<Rightarrow> ('z server_scheme, unit) action" where
  "invalidate_limits_cache name w =
     (Inr (), set_tracker (\<lambda>t. t\<lparr>limits_cache := (limits_cache t)(name := None)\<rparr>) w)"

definition connection_count :: "tracker \<Rightarrow> string \<Rightarrow> u64" where
  "connection_count t name = (case connections t name of None \<Rightarrow> 0 | Some c \<Rightarrow> c)"

definition try_connect :: "string \<Rightarrow> ('z server_scheme, limit_check_result) action" where
  "try_connect name = bind_res (get_effective_limits name) (\<lambda>limits w.
     let current = connection_count (usage_tracker w) name;
         set_count = (\<lambda>c. set_tracker (\<lambda>t. t\<lparr>connections := (connections t)(name \<mapsto> c)\<rparr>) w)
     in case limit_max_connections limits of
          None \<Rightarrow> (Inr Allowed, set_count (current + 1))
        | Some max_connections \<Rightarrow>
            if unat max_connections \<le> unat current
            then (Inr ConnectionLimitExceeded, set_count current)
            else (Inr Allowed, set_count (current + 1)))"

definition disconnect :: "string \<Rightarrow> 'z server_scheme \<Rightarrow> 'z server_scheme" where
  "disconnect name w =
     (case connections (usage_tracker w) name of
        None \<Rightarrow> w
      | Some c \<Rightarrow>
          set_tracker (\<lambda>t. t\<lparr>connections := (connections t)(name :=
            (if c = 1 then None else Some (c - 1)))\<rparr>) w)"

definition tracker_can_post :: "string \<Rightarrow> ('z server_scheme, limit_check_result) action" where
  "tracker_can_post name =
     bind_res (get_effective_limits name)
       (\<lambda>limits. ret (if limit_can_post limits then Allowed else PostingDisabled))"

text \<open>The bandwidth state of a user, made when it is first asked for.\<close>

definition bandwidth_entry :: "ext \<Rightarrow> tracker \<Rightarrow> string \<Rightarrow> bandwidth_state" where
  "bandwidth_entry X t name =
     (case map_of (bandwidth t) name of None \<Rightarrow> default_bandwidth_state X | Some s \<Rightarrow> s)"

definition put_bandwidth :: "string \<Rightarrow> bandwidth_state \<Rightarrow> 'z server_scheme \<Rightarrow> 'z server_scheme" where
  "put_bandwidth name s = set_tracker (\<lambda>t. t\<lparr>bandwidth := AList.update name s (bandwidth t)\<rparr>)"

definition window_expired :: "ext \<Rightarrow> u64 option \<Rightarrow> bandwidth_state \<Rightarrow> bool result" where
  "window_expired X period s =
     (case period of
        None \<Rightarrow> Inr False
      | Some period_secs \<Rightarrow>
          map_sum id (\<lambda>p. p \<le> utc_now X - window_start s) (duration_seconds (sint period_secs)))"

definition check_bandwidth :: "ext \<Rightarrow> string \<Rightarrow> u64 \<Rightarrow> ('z server_scheme, limit_check_result) action" where
  "check_bandwidth X name bytes = bind_res (get_effective_limits name) (\<lambda>limits w.
     case limit_bandwidth limits of
       None \<Rightarrow> (Inr Allowed, w)
     | Some limit \<Rightarrow>
         (let s = bandwidth_entry X (usage_tracker w) name
          in case window_expired X (limit_bandwidth_period_secs limits) s of
               Inl e \<Rightarrow> (Inl e, put_bandwidth name s w)
             | Inr expired \<Rightarrow>
                 (let s' = (if expired
                            then \<lparr>bytes_uploaded = 0, bytes_downloaded = 0, window_start = utc_now X\<rparr>
                            else s);
                      current_total = saturating_add (bytes_uploaded s') (bytes_downloaded s')
                  in (Inr (if saturating_add current_total bytes > limit then BandwidthExceeded
                           else Allowed),
                      put_bandwidth name s' w))))"

definition record_bandwidth :: "ext \<Rightarrow> string \<Rightarrow> u64 \<Rightarrow> bool \<Rightarrow> 'z server_scheme \<Rightarrow> 'z server_scheme" where
  "record_bandwidth X name bytes is_upload w =
     (let s = bandwidth_entry X (usage_tracker w) name
      in put_bandwidth name
           (if is_upload then s\<lparr>bytes_uploaded := saturating_add (bytes_uploaded s) bytes\<rparr>
            else s\<lparr>bytes_downloaded := saturating_add (bytes_downloaded s) bytes\<rparr>) w)"

definition usage_of_state :: "bandwidth_state \<Rightarrow> user_usage" where
  "usage_of_state s =
     \<lparr>usage_bytes_uploaded = bytes_uploaded s, usage_bytes_downloaded = bytes_downloaded s,
      usage_window_start = Some (window_start s)\<rparr>"

definition get_usage :: "tracker \<Rightarrow> string \<Rightarrow> user_usage" where
  "get_usage t name =
     (case map_of (bandwidth t) name of None \<Rightarrow> default_user_usage | Some s \<Rightarrow> usage_of_state s)"

definition reset_usage :: "ext \<Rightarrow> string \<Rightarrow> ('z server_scheme, unit) action" where
  "reset_usage X name w =
     (let w1 = (case map_of (bandwidth (usage_tracker w)) name of
                  None \<Rightarrow> w
                | Some _ \<Rightarrow> put_bandwidth name
                    \<lparr>bytes_uploaded = 0, bytes_downloaded = 0, window_start = utc_now X\<rparr> w)
      in (Inr (), snd (on_auth (reset_user_usage X name) w1)))"

text \<open>A failed write is logged, and the loop goes on.\<close>

definition persist :: "ext \<Rightarrow> ('z server_scheme, unit) action" where
  "persist X w =
     (Inr (), fold (\<lambda>(name, s) w. snd (on_auth (set_user_usage X name (usage_of_state s)) w))
       (bandwidth (usage_tracker w)) w)"

definition load :: "('z server_scheme, unit) action" where
  "load w = (Inr (), w)"

definition load_user :: "ext \<Rightarrow> string \<Rightarrow> ('z server_scheme, unit) action" where
  "load_user X name w =
     (case on_auth (get_user_usage X name) w of
        (Inr usage, w') \<Rightarrow>
          (Inr (), put_bandwidth name
             \<lparr>bytes_uploaded = usage_bytes_uploaded usage, bytes_downloaded = usage_bytes_downloaded usage,
              window_start = (case usage_window_start usage of None \<Rightarrow> utc_now X | Some t \<Rightarrow> t)\<rparr> w')
      | (Inl _, w') \<Rightarrow> (Inr (), w'))"

end
