(* ===== verification/Sample_Server.thy ===== *)
theory Sample_Server
  imports Tracker Sample_Externals
begin

text \<open>
  A small concrete server state (one unmoderated group, one user, an administrator, a queue of two
  places) at which closed instances of the theorems are evaluated.
\<close>

definition sample_config :: config where
  "sample_config = \<lparr>
     cfg_addr = '':119'', cfg_site_name = ''news.example'', cfg_db_path = default_db_path,
     cfg_auth_db_path = default_auth_db_path, cfg_peer_db_path = default_peer_db_path,
     cfg_peer_sync_schedule = default_peer_sync_schedule,
     cfg_idle_timeout_secs = default_idle_timeout_secs, cfg_peers = [], cfg_tls_addr = None,
     cfg_tls_cert = None, cfg_tls_key = None, cfg_ws_addr = None, cfg_article_queue_capacity = 2,
     cfg_article_worker_count = 1, cfg_runtime_threads = 1, cfg_group_settings = [],
     cfg_filters = [], cfg_pgp_key_servers = [], cfg_allow_auth_insecure_connections = False,
     cfg_allow_anonymous_posting = False, cfg_logging = default_logging_config,
     cfg_user_limits = default_user_limits_config\<rparr>"

definition sample_db :: db where
  "sample_db = \<lparr>faults = [], messages = [], group_articles = [],
     groups = [\<lparr>g_name = ''misc.test'', g_created_at = 0, g_moderated = False, g_description = ''tests''\<rparr>],
     overview = []\<rparr>"

definition sample_adb :: adb where
  "sample_adb = \<lparr>faults = [],
     users = [\<lparr>u_username = ''u'', u_password_hash = ''saltpw'', u_key = None\<rparr>,
              \<lparr>u_username = ''root'', u_password_hash = ''saltsecret'', u_key = Some ''key''\<rparr>],
     admins = [''root''], moderators = [], user_limits_table = [], user_usage_table = []\<rparr>"

definition sample_server :: server where
  "sample_server = \<lparr>storage = sample_db, auth = sample_adb,
     usage_tracker = new_tracker default_user_limits_config, config = sample_config,
     queue = \<lparr>queue_items = [], queue_capacity = 2\<rparr>\<rparr>"

definition one_connection :: user_limits where
  "one_connection = \<lparr>limit_can_post = True, limit_max_connections = Some 1, limit_bandwidth = Some 100,
     limit_bandwidth_period_secs = None\<rparr>"

definition limited_server :: server where
  "limited_server = set_tracker (\<lambda>t. t\<lparr>limits_cache := (limits_cache t)(''u'' \<mapsto> one_connection)\<rparr>)
     sample_server"

end
