(* ===== verification/Connections.thy ===== *)
theory Connections
  imports Sample_Server
begin

text \<open>
  The connection limit under interleaving. \<open>conn_run\<close> runs the operations of the tracker one after the other,
  as they run on one runtime thread: \<open>try_connect\<close> and \<open>disconnect\<close> do not wait in the middle. \<open>race_step\<close>
  is the finer model for several runtime threads, which the default configuration has too (the runtime that \<^verbatim>\<open>main\<close>
  asks for when one thread is configured has one for every core): its steps are the accesses to the shared map, each
  of which holds the lock of the map's shard, so that the compare-and-exchange of \<open>try_connect\<close> always succeeds,
  but \<open>disconnect\<close> is three separate accesses.
\<close>

subsection \<open>Operations in sequence\<close>

text \<open>\<open>conn_run name w n w'\<close>: from \<open>w\<close>, a sequence of connections and disconnections of the user \<open>name\<close> leads to
  \<open>w'\<close> with \<open>n\<close> connections open. Only open connections are closed.\<close>

inductive conn_run :: "string \<Rightarrow> server \<Rightarrow> nat \<Rightarrow> server \<Rightarrow> bool" for name w where
  start: "conn_run name w 0 w"
| connected: "conn_run name w n w' \<Longrightarrow> try_connect name w' = (Inr Allowed, w'') \<Longrightarrow>
    conn_run name w (Suc n) w''"
| rejected: "conn_run name w n w' \<Longrightarrow> try_connect name w' = (Inr ConnectionLimitExceeded, w'') \<Longrightarrow>
    conn_run name w n w''"
| closed: "conn_run name w (Suc n) w' \<Longrightarrow> conn_run name w n (disconnect name w')"

inductive_cases conn_runE: "conn_run name w n w'"

definition cached_max :: "string \<Rightarrow> u32 \<Rightarrow> server \<Rightarrow> bool" where
  "cached_max name m w \<longleftrightarrow>
     (\<exists>l. limits_cache (usage_tracker w) name = Some l \<and> limit_max_connections l = Some m)"

lemma effective_cached:
  assumes "limits_cache (usage_tracker w) name = Some l"
  shows "get_effective_limits name w = (Inr l, w)"
  using assms by (simp add: get_effective_limits_def)

lemma try_connect_cached:
  assumes "cached_max name m w"
  shows "try_connect name w =
     (let c = connection_count (usage_tracker w) name
      in if unat m \<le> unat c
         then (Inr ConnectionLimitExceeded, set_tracker (\<lambda>t. t\<lparr>connections := (connections t)(name \<mapsto> c)\<rparr>) w)
         else (Inr Allowed, set_tracker (\<lambda>t. t\<lparr>connections := (connections t)(name \<mapsto> c + 1)\<rparr>) w))"
  using assms effective_cached by (force simp: cached_max_def try_connect_def bind_res_def Let_def)

lemma unat_u32_less: "unat (m :: u32) < 2 ^ 64"
  using unsigned_less [of m, where 'a = nat] by simp

lemma unat_inc_u64: "unat (c :: u64) < n \<Longrightarrow> n < 2 ^ 64 \<Longrightarrow> unat (c + 1) = unat c + 1"
  by (simp add: unat_word_ariths)

lemma unat_dec_u64: "unat (c :: u64) = Suc n \<Longrightarrow> unat (c - 1) = n"
  by (metis Suc_neq_Zero diff_Suc_1 unat_0 unat_minus_one)

lemma connection_count_set [simp]:
  "connection_count (usage_tracker (set_tracker (\<lambda>t. t\<lparr>connections := (connections t)(name \<mapsto> c)\<rparr>) w)) name = c"
  by (simp add: connection_count_def set_tracker_def)

lemma cached_max_set [simp]:
  "cached_max name m (set_tracker (\<lambda>t. t\<lparr>connections := f t\<rparr>) w) = cached_max name m w"
  by (simp add: cached_max_def set_tracker_def)

lemma disconnect_count:
  assumes "unat (connection_count (usage_tracker w) name) = Suc n"
  shows "unat (connection_count (usage_tracker (disconnect name w)) name) = n"
    and "cached_max name m (disconnect name w) = cached_max name m w"
proof -
  obtain c where c: "connections (usage_tracker w) name = Some c" "unat c = Suc n"
    using assms by (auto simp: connection_count_def split: option.splits)
  show "unat (connection_count (usage_tracker (disconnect name w)) name) = n"
    using c unat_dec_u64 by (auto simp: disconnect_def connection_count_def set_tracker_def)
  show "cached_max name m (disconnect name w) = cached_max name m w"
    using c by (simp add: disconnect_def)
qed

lemma conn_run_inv:
  assumes "conn_run name w n w'" and "cached_max name m w" and "connections (usage_tracker w) name = None"
  shows "cached_max name m w' \<and> unat (connection_count (usage_tracker w') name) = n \<and> n \<le> unat m"
  using assms
proof (induction rule: conn_run.induct)
  case start
  then show ?case by (simp add: connection_count_def)
next
  case (connected n w' w'')
  then have inv: "cached_max name m w'" "unat (connection_count (usage_tracker w') name) = n" by auto
  from connected.hyps(2) try_connect_cached [OF inv(1)] have
    lt: "n < unat m" and w'': "w'' = set_tracker (\<lambda>t. t\<lparr>connections := (connections t)(name \<mapsto>
      connection_count (usage_tracker w') name + 1)\<rparr>) w'"
    using inv(2) by (auto simp: Let_def split: if_splits)
  have "unat (connection_count (usage_tracker w') name + 1) = Suc n"
    using unat_inc_u64 [OF _ unat_u32_less [of m]] lt inv(2) by simp
  with lt inv(1) show ?case by (simp add: w'')
next
  case (rejected n w' w'')
  then show ?case
    using try_connect_cached [of name m w'] by (auto simp: Let_def split: if_splits)
next
  case (closed n w')
  then show ?case using disconnect_count(1) [of w' name n] disconnect_count(2) [of w' name n m] by simp
qed

text \<open>When the operations of the tracker run one at a time, a user with a connection limit never
  has more connections open than the limit, the counter of the tracker is the number of open
  connections, and a new connection is admitted exactly when the number is below the limit.\<close>

theorem connection_limit_respected:
  assumes "conn_run name w n w'" and "cached_max name m w" and "connections (usage_tracker w) name = None"
  shows "n \<le> unat m \<and> unat (connection_count (usage_tracker w') name) = n \<and>
         fst (try_connect name w') = Inr (if n < unat m then Allowed else ConnectionLimitExceeded)"
  using conn_run_inv [OF assms] try_connect_cached [of name m w'] by (auto simp: Let_def)

theorem connection_limit_respected_witness:
  "Suc 0 \<le> unat (1 :: u32) \<and>
   unat (connection_count (usage_tracker (snd (try_connect ''u'' limited_server))) ''u'') = Suc 0 \<and>
   fst (try_connect ''u'' (snd (try_connect ''u'' limited_server))) =
     Inr (if Suc 0 < unat (1 :: u32) then Allowed else ConnectionLimitExceeded)"
proof (rule connection_limit_respected)
  have c: "cached_max ''u'' 1 limited_server"
    by (simp add: cached_max_def limited_server_def set_tracker_def one_connection_def)
  then show "cached_max ''u'' 1 limited_server" .
  show "connections (usage_tracker limited_server) ''u'' = None" by code_simp
  then have "fst (try_connect ''u'' limited_server) = Inr Allowed"
    using try_connect_cached [OF c] by (simp add: connection_count_def)
  then have "try_connect ''u'' limited_server = (Inr Allowed, snd (try_connect ''u'' limited_server))"
    by (metis prod.collapse)
  with conn_run.start show "conn_run ''u'' limited_server (Suc 0) (snd (try_connect ''u'' limited_server))"
    by (rule conn_run.connected)
qed

subsection \<open>Accesses of several threads\<close>

text \<open>The entry of one user in the shared map, and where each task of that user is: not connected,
  connected, having taken the count to zero and about to remove the entry, or having removed an entry
  that another task had incremented meanwhile and about to put it back.
  The subtraction wraps, as \<^verbatim>\<open>fetch_sub\<close> does.\<close>

datatype pc = NotConnected | Connected | Removing | PutBack u64

record race_state =
  entry :: "u64 option"
  tasks :: "nat \<Rightarrow> pc"

definition entry_count :: "race_state \<Rightarrow> u64" where
  "entry_count s = (case entry s of None \<Rightarrow> 0 | Some c \<Rightarrow> c)"

definition set_pc :: "nat \<Rightarrow> pc \<Rightarrow> race_state \<Rightarrow> race_state" where
  "set_pc i p s = s\<lparr>tasks := (tasks s)(i := p)\<rparr>"

inductive race_step :: "u64 \<Rightarrow> race_state \<Rightarrow> race_state \<Rightarrow> bool" for max_connections where
  admit: "tasks s i = NotConnected \<Longrightarrow> entry_count s < max_connections \<Longrightarrow>
    race_step max_connections s (set_pc i Connected (s\<lparr>entry := Some (entry_count s + 1)\<rparr>))"
| refuse: "tasks s i = NotConnected \<Longrightarrow> max_connections \<le> entry_count s \<Longrightarrow>
    race_step max_connections s (s\<lparr>entry := Some (entry_count s)\<rparr>)"
| fetch_sub: "tasks s i = Connected \<Longrightarrow> entry s = Some c \<Longrightarrow>
    race_step max_connections s
      (set_pc i (if c = 1 then Removing else NotConnected) (s\<lparr>entry := Some (c - 1)\<rparr>))"
| no_entry: "tasks s i = Connected \<Longrightarrow> entry s = None \<Longrightarrow>
    race_step max_connections s (set_pc i NotConnected s)"
| remove: "tasks s i = Removing \<Longrightarrow>
    race_step max_connections s
      (set_pc i (if entry_count s > 0 then PutBack (entry_count s) else NotConnected) (s\<lparr>entry := None\<rparr>))"
| put_back: "tasks s i = PutBack c \<Longrightarrow>
    race_step max_connections s (set_pc i NotConnected (s\<lparr>entry := Some c\<rparr>))"

definition race_start :: race_state where
  "race_start = \<lparr>entry = None, tasks = (\<lambda>_. NotConnected)\<rparr>"


end
