(* ===== verification/Control.thy ===== *)
theory Control
  imports Server
begin

text \<open>
  Control messages, \<^verbatim>\<open>src/src/control.rs\<close>: cancel, newgroup and rmgroup commands, their authentication by a
  cancel key or by an administrator's PGP signature, and their effect on the storage.
\<close>

datatype control_command = Cancel string | NewGroup string bool | RmGroup string

definition parse_control :: "string \<Rightarrow> control_command option" where
  "parse_control val =
     (case split_whitespace val of
        [] \<Rightarrow> None
      | word # parts \<Rightarrow>
          (let cmd = to_ascii_lowercase word
           in if cmd = ''cancel'' then (case parts of [] \<Rightarrow> None | i # _ \<Rightarrow> Some (Cancel i))
              else if cmd = ''newgroup''
              then (case parts of
                      [] \<Rightarrow> None
                    | grp # rest \<Rightarrow>
                        Some (NewGroup grp
                          (case rest of [] \<Rightarrow> False | w # _ \<Rightarrow> eq_ignore_ascii_case w ''moderated'')))
              else if cmd = ''rmgroup'' then (case parts of [] \<Rightarrow> None | g # _ \<Rightarrow> Some (RmGroup g))
              else None))"

subsection \<open>Cancel keys\<close>

definition parse_elements :: "string \<Rightarrow> (string \<times> string) list" where
  "parse_elements val =
     List.map_filter (\<lambda>p. map_option (\<lambda>(s, v). (to_ascii_lowercase s, v))
         (split_once CHR '':'' (trim_matches (\<lambda>c. c = CHR '','') p)))
       (split_whitespace val)"

definition hash_key :: "ext \<Rightarrow> string \<Rightarrow> string \<Rightarrow> string option" where
  "hash_key X scheme key =
     (if scheme = ''sha256'' then Some (base64_encode X (sha256_digest X key))
      else if scheme = ''sha512'' then Some (base64_encode X (sha512_digest X key))
      else if scheme = ''sha1'' then Some (base64_encode X (sha1_digest X key))
      else None)"

definition verify_cancel :: "ext \<Rightarrow> (string \<times> string) list \<Rightarrow> (string \<times> string) list \<Rightarrow> bool" where
  "verify_cancel X keys locks =
     list_ex (\<lambda>(scheme, key).
       case hash_key X scheme key of
         None \<Rightarrow> False
       | Some hash \<Rightarrow> list_ex (\<lambda>(ls, lv). eq_ignore_ascii_case scheme ls \<and> lv = hash) locks) keys"

subsection \<open>PGP signatures\<close>

fun replace_crlf :: "string \<Rightarrow> string" where
  "replace_crlf (a # b # r) = (if a = CR \<and> b = LF then LF # replace_crlf r else a # replace_crlf (b # r))"
| "replace_crlf s = s"

definition canonical_text :: "message \<Rightarrow> string \<Rightarrow> string" where
  "canonical_text msg signed_headers =
     ''X-Signed-Headers: '' @ signed_headers @ [LF] @
     concat (map (\<lambda>name. name @ '': '' @
        (case List.find (\<lambda>(k, _). eq_ignore_ascii_case k name) (headers msg) of
           None \<Rightarrow> [] | Some (_, v) \<Rightarrow> v) @ [LF]) (str_split CHR '','' signed_headers)) @
     [LF] @
     concat (map (\<lambda>line. (if starts_with line ''-'' then ''- '' else []) @ line)
       (split_inclusive_LF (replace_crlf (body msg)))) @
     (if ends_with (body msg) [LF] then [] else [LF])"

definition is_control_message :: "message \<Rightarrow> bool" where
  "is_control_message msg \<longleftrightarrow>
     list_ex (\<lambda>(k, v). eq_ignore_ascii_case k ''Control'' \<and> str_trim v \<noteq> []) (headers msg)"

definition signature_armor :: "string \<Rightarrow> string \<Rightarrow> string" where
  "signature_armor version sig_data =
     ''-----BEGIN PGP SIGNATURE-----'' @ [LF] @ ''Version: '' @ version @ [LF, LF] @ sig_data @ [LF] @
     ''-----END PGP SIGNATURE-----'' @ [LF]"

text \<open>The outer result is the parsing of the key and of the signature, the inner one the verification.\<close>

definition try_verify_with_key ::
  "ext \<Rightarrow> message \<Rightarrow> string \<Rightarrow> string \<Rightarrow> string \<Rightarrow> string \<Rightarrow> unit result result" where
  "try_verify_with_key X msg key_text version signed_headers sig_data =
     (if \<not> pgp_key_from_string X key_text then Inl (Anyhow ''key'')
      else let armor = signature_armor version sig_data
           in if \<not> pgp_sig_from_armor X armor then Inl (Anyhow ''signature'')
              else if pgp_sig_verify X key_text armor (canonical_text msg signed_headers)
              then Inr (Inr ()) else Inr (Inl (Anyhow ''verify'')))"

definition key_accepts :: "ext \<Rightarrow> message \<Rightarrow> string \<Rightarrow> string \<Rightarrow> string \<Rightarrow> string \<Rightarrow> bool" where
  "key_accepts X msg version signed_headers sig_data key_text \<longleftrightarrow>
     try_verify_with_key X msg key_text version signed_headers sig_data = Inr (Inr ())"

definition verify_pgp ::
  "ext \<Rightarrow> message \<Rightarrow> string \<Rightarrow> string \<Rightarrow> string \<Rightarrow> string \<Rightarrow> string list \<Rightarrow>
   ('z server_scheme, unit) action" where
  "verify_pgp X msg user version signed_headers sig_data key_servers =
     bind_res (on_auth (get_pgp_key user)) (\<lambda>stored_key.
       if (case stored_key of
             None \<Rightarrow> False
           | Some key_text \<Rightarrow>
               try_verify_with_key X msg key_text version signed_headers sig_data = Inr (Inr ()))
       then ret ()
       else case discover_key X key_servers user of
              Inl e \<Rightarrow> throw e
            | Inr (Some discovered_key) \<Rightarrow>
                (case try_verify_with_key X msg discovered_key version signed_headers sig_data of
                   Inl e \<Rightarrow> throw e
                 | Inr (Inr ()) \<Rightarrow>
                     catch_res (on_auth (update_pgp_key user discovered_key)) (\<lambda>_. ret ()) (\<lambda>_. ret ())
                 | Inr (Inl _) \<Rightarrow>
                     throw (Anyhow ''Signature verification failed even with discovered key''))
            | Inr None \<Rightarrow>
                throw (Anyhow (if stored_key \<noteq> None
                  then ''Signature verification failed with stored key and no alternative key could be discovered''
                  else ''No PGP key found for user and no key could be discovered'')))"

subsection \<open>Handling\<close>

text \<open>The signature header's words: the version, the signed headers, and the signature's lines.\<close>

definition split_signature :: "string \<Rightarrow> (string \<times> string \<times> string) option" where
  "split_signature sig_header =
     (case split_whitespace sig_header of
        version # signed_hs # rest \<Rightarrow> Some (version, signed_hs, join [LF] rest)
      | _ \<Rightarrow> None)"

definition handle_cancel_key :: "ext \<Rightarrow> string \<Rightarrow> string \<Rightarrow> ('z server_scheme, bool) action" where
  "handle_cancel_key X i key_val =
     bind_res (on_storage (get_article_by_id X i)) (\<lambda>orig.
       case Option.bind orig (\<lambda>o'. List.find (\<lambda>(k, _). eq_ignore_ascii_case k ''Cancel-Lock'') (headers o')) of
         Some (_, lock_val) \<Rightarrow>
           bind_res
             (if verify_cancel X (parse_elements key_val) (parse_elements lock_val)
              then on_storage (delete_article_by_id i) else ret ())
             (\<lambda>_. ret True)
       | None \<Rightarrow> ret True)"

definition apply_control :: "ext \<Rightarrow> control_command \<Rightarrow> ('z server_scheme, unit) action" where
  "apply_control X cmd =
     (case cmd of
        Cancel i \<Rightarrow> on_storage (delete_article_by_id i)
      | NewGroup g moderated \<Rightarrow> on_storage (add_group X g moderated)
      | RmGroup g \<Rightarrow> on_storage (remove_group g))"

definition handle_signed_control ::
  "ext \<Rightarrow> message \<Rightarrow> config \<Rightarrow> control_command \<Rightarrow> ('z server_scheme, bool) action" where
  "handle_signed_control X msg cfg cmd =
     (let from = (case List.find (\<lambda>(k, _). eq_ignore_ascii_case k ''From'') (headers msg) of
                    None \<Rightarrow> [] | Some (_, v) \<Rightarrow> v)
      in case List.find (\<lambda>(k, _). eq_ignore_ascii_case k ''X-PGP-Sig'') (headers msg) of
           None \<Rightarrow> throw (Anyhow ''missing signature'')
         | Some (_, sig_header) \<Rightarrow>
             bind_res (on_auth (auth_is_admin from)) (\<lambda>admin.
               if \<not> admin then throw (Anyhow ''not admin'')
               else case split_signature sig_header of
                      None \<Rightarrow> throw (Anyhow ''bad signature'')
                    | Some (version, signed_hs, sig_rest) \<Rightarrow>
                        bind_res
                          (verify_pgp X msg from version signed_hs sig_rest (cfg_pgp_key_servers cfg))
                          (\<lambda>_. bind_res (apply_control X cmd) (\<lambda>_. ret True))))"

definition handle_control :: "ext \<Rightarrow> message \<Rightarrow> config \<Rightarrow> ('z server_scheme, bool) action" where
  "handle_control X msg cfg =
     (case List.find (\<lambda>(k, _). eq_ignore_ascii_case k ''Control'') (headers msg) of
        None \<Rightarrow> ret False
      | Some (_, control_val) \<Rightarrow>
          (case parse_control control_val of
             None \<Rightarrow> throw (Anyhow ''unknown control'')
           | Some cmd \<Rightarrow>
               (case (cmd, List.find (\<lambda>(k, _). eq_ignore_ascii_case k ''Cancel-Key'') (headers msg)) of
                  (Cancel i, Some (_, key_val)) \<Rightarrow> handle_cancel_key X i key_val
                | _ \<Rightarrow> handle_signed_control X msg cfg cmd)))"

end
