(* ===== verification/Control_Properties.thy ===== *)
theory Control_Properties
  imports Control Storage_Interface Sample_Server
begin

text \<open>
  Who may change the storage by a control message, and what a control message changes.
\<close>

definition tables :: "db \<Rightarrow> db" where
  "tables d = d\<lparr>faults := []\<rparr>"

lemma tables_faults [simp]: "tables (d\<lparr>faults := fs\<rparr>) = tables d"
  by (simp add: tables_def)

definition from_header :: "message \<Rightarrow> string" where
  "from_header msg =
     (case List.find (\<lambda>(k, _). eq_ignore_ascii_case k ''From'') (headers msg) of
        None \<Rightarrow> [] | Some (_, v) \<Rightarrow> v)"

definition stored_key :: "adb \<Rightarrow> string \<Rightarrow> string option" where
  "stored_key d name =
     (case List.find (\<lambda>u. u_username u = name) (users d) of None \<Rightarrow> None | Some u \<Rightarrow> u_key u)"

text \<open>The signature of the message is accepted by the key stored for the user, or by one that the key
  servers have for that name.\<close>

definition signature_accepted :: "ext \<Rightarrow> string list \<Rightarrow> adb \<Rightarrow> message \<Rightarrow> string \<Rightarrow> string \<Rightarrow> string \<Rightarrow> string \<Rightarrow> bool" where
  "signature_accepted X servers d msg user version signed_hs sig_data \<longleftrightarrow>
     (\<exists>k. key_accepts X msg version signed_hs sig_data k \<and>
          (stored_key d user = Some k \<or> discover_key X servers user = Inr (Some k)))"

definition admin_authorised :: "ext \<Rightarrow> config \<Rightarrow> adb \<Rightarrow> message \<Rightarrow> bool" where
  "admin_authorised X cfg d msg \<longleftrightarrow>
     from_header msg \<in> set (admins d) \<and>
     (\<exists>sig_header version signed_hs sig_rest.
        get_header_value msg ''X-PGP-Sig'' = Some sig_header \<and>
        split_signature sig_header = Some (version, signed_hs, sig_rest) \<and>
        signature_accepted X (cfg_pgp_key_servers cfg) d msg (from_header msg) version signed_hs sig_rest)"

definition cancel_authorised :: "ext \<Rightarrow> db \<Rightarrow> message \<Rightarrow> string \<Rightarrow> bool" where
  "cancel_authorised X d msg i \<longleftrightarrow>
     (\<exists>key_val orig lock_val.
        get_header_value msg ''Cancel-Key'' = Some key_val \<and>
        articles (abs_spool X d) i = Some orig \<and>
        get_header_value orig ''Cancel-Lock'' = Some lock_val \<and>
        verify_cancel X (parse_elements key_val) (parse_elements lock_val))"

subsection \<open>Steps that leave the storage alone\<close>

lemma on_auth_storage: "on_auth m w = (r, w') \<Longrightarrow> storage w' = storage w"
  by (auto simp: on_auth_def split: prod.splits)

lemma get_pgp_key_value:
  "on_auth (get_pgp_key u) w = (Inr k, w') \<Longrightarrow> k = stored_key (auth w) u"
  unfolding get_pgp_key_def stored_key_def
  by (auto simp: on_auth_def split: prod.splits dest!: select_cases [rotated])

lemma auth_is_admin_value:
  "on_auth (auth_is_admin u) w = (Inr b, w') \<Longrightarrow>
     b = (u \<in> set (admins (auth w))) \<and> (\<exists>fs. auth w' = (auth w)\<lparr>faults := fs\<rparr>)"
  unfolding auth_is_admin_def
  by (auto simp: on_auth_def split: prod.splits dest!: select_cases [rotated])

lemma verify_pgp_storage: "verify_pgp X msg u v s r ks w = (res, w') \<Longrightarrow> storage w' = storage w"
  unfolding verify_pgp_def bind_res_def catch_res_def
  by (auto split: prod.splits sum.splits option.splits if_splits unit.splits dest!: on_auth_storage)

lemma verify_pgp_ok:
  assumes "verify_pgp X msg u v s r ks w = (Inr (), w')"
  shows "signature_accepted X ks (auth w) msg u v s r"
  using assms unfolding verify_pgp_def signature_accepted_def key_accepts_def
  by (elim bind_res_okE)
     (auto split: option.splits sum.splits if_splits unit.splits dest!: get_pgp_key_value)

lemma signature_accepted_faults [simp]:
  "signature_accepted X ks (d\<lparr>faults := fs\<rparr>) = signature_accepted X ks d"
  by (simp add: signature_accepted_def stored_key_def fun_eq_iff)

lemma signed_control_safe:
  assumes "handle_signed_control X msg cfg cmd w = (r, w')" and "storage w' \<noteq> storage w"
  shows "admin_authorised X cfg (auth w) msg"
proof -
  obtain k sig_header where sig: "List.find (\<lambda>(k, _). eq_ignore_ascii_case k ''X-PGP-Sig'') (headers msg) =
      Some (k, sig_header)"
    using assms by (cases "List.find (\<lambda>(k, _). eq_ignore_ascii_case k ''X-PGP-Sig'') (headers msg)")
      (auto simp: handle_signed_control_def)
  obtain ra w1 where adm: "on_auth (auth_is_admin (from_header msg)) w = (ra, w1)" by fastforce
  obtain v s rest rv w2 where
    isadm: "ra = Inr True" and split: "split_signature sig_header = Some (v, s, rest)" and
    ver: "verify_pgp X msg (from_header msg) v s rest (cfg_pgp_key_servers cfg) w1 = (rv, w2)"
    using assms adm on_auth_storage [OF adm]
    by (auto simp: handle_signed_control_def sig from_header_def [symmetric] Let_def bind_res_def
        split: sum.splits if_splits option.splits prod.splits)
  have "rv = Inr ()"
  proof (rule ccontr)
    assume "rv \<noteq> Inr ()"
    with assms(1) sig adm isadm split ver have "w' = w2"
      by (cases rv) (auto simp: handle_signed_control_def from_header_def [symmetric] Let_def bind_res_def)
    with assms(2) verify_pgp_storage [OF ver] on_auth_storage [OF adm] show False by simp
  qed
  with verify_pgp_ok ver isadm auth_is_admin_value adm have
    "signature_accepted X (cfg_pgp_key_servers cfg) (auth w) msg (from_header msg) v s rest"
    "from_header msg \<in> set (admins (auth w))"
    by fastforce+
  then show ?thesis
    using sig split by (auto simp: admin_authorised_def get_header_value_def)
qed

lemma cancel_key_safe:
  assumes "storage_ok X (storage w)" and "handle_cancel_key X i key_val w = (r, w')"
    and "tables (storage w') \<noteq> tables (storage w)"
  shows "\<exists>orig lock_val. articles (abs_spool X (storage w)) i = Some orig \<and>
     get_header_value orig ''Cancel-Lock'' = Some lock_val \<and>
     verify_cancel X (parse_elements key_val) (parse_elements lock_val)"
proof -
  obtain fs where "get_article_by_id X i (storage w) = (Inl Database, (storage w)\<lparr>faults := fs\<rparr>) \<or>
      get_article_by_id X i (storage w) = (Inr (articles (abs_spool X (storage w)) i), (storage w)\<lparr>faults := fs\<rparr>)"
    using get_article_by_id_view [OF assms(1)] by blast
  with assms(2,3) show ?thesis
    by (auto simp: handle_cancel_key_def bind_res_def on_storage_def get_header_value_def
        split: prod.splits sum.splits option.splits if_splits Option.bind_splits)
qed

lemma header_find:
  "List.find (\<lambda>(k, _). eq_ignore_ascii_case k n) (headers msg) = Some (k, v) \<Longrightarrow>
     get_header_value msg n = Some v"
  by (simp add: get_header_value_def)

lemma handle_control_safe:
  assumes "storage_ok X (storage w)" and "handle_control X msg cfg w = (r, w')"
    and "tables (storage w') \<noteq> tables (storage w)"
  shows "\<exists>v cmd. get_header_value msg ''Control'' = Some v \<and> parse_control v = Some cmd \<and>
           (admin_authorised X cfg (auth w) msg \<or>
            (\<exists>i. cmd = Cancel i \<and> cancel_authorised X (storage w) msg i))"
proof -
  obtain k v cmd where ctl: "List.find (\<lambda>(k, _). eq_ignore_ascii_case k ''Control'') (headers msg) = Some (k, v)"
    and cmd: "parse_control v = Some cmd"
    using assms(2,3) by (auto simp: handle_control_def split: option.splits)
  let ?key = "List.find (\<lambda>(k, _). eq_ignore_ascii_case k ''Cancel-Key'') (headers msg)"
  consider (key) i kk key_val where "cmd = Cancel i" "?key = Some (kk, key_val)"
    | (signed) "handle_signed_control X msg cfg cmd w = (r, w')"
    using assms(2) ctl cmd by (cases cmd; cases ?key) (auto simp: handle_control_def)
  then show ?thesis
  proof cases
    case key
    with assms(2) ctl cmd have "handle_cancel_key X i key_val w = (r, w')"
      by (simp add: handle_control_def)
    from cancel_key_safe [OF assms(1) this assms(3)] header_find [OF key(2)]
    have "cancel_authorised X (storage w) msg i" by (auto simp: cancel_authorised_def)
    with key(1) cmd header_find [OF ctl] show ?thesis by blast
  next
    case signed
    with signed_control_safe assms(3) have "admin_authorised X cfg (auth w) msg" by metis
    with cmd header_find [OF ctl] show ?thesis by blast
  qed
qed

subsection \<open>Properties\<close>

text \<open>C17: a control message changes the storage only when it carries a known command and is
  authorised: its sender is an administrator and its signature is accepted by the key stored for that
  administrator or found for that name on the key servers, or it cancels an article whose lock one of
  its cancel keys opens.\<close>

theorem control_change_is_authorised:
  assumes "storage_ok X (storage w)" and "handle_control X msg cfg w = (r, w')"
    and "tables (storage w') \<noteq> tables (storage w)"
  shows "\<exists>v cmd. get_header_value msg ''Control'' = Some v \<and> parse_control v = Some cmd \<and>
           (admin_authorised X cfg (auth w) msg \<or>
            (\<exists>i. cmd = Cancel i \<and> cancel_authorised X (storage w) msg i))"
  by (rule handle_control_safe [OF assms])

lemma storage_ok_sample: "storage_ok sample_ext sample_db"
  by (simp add: storage_ok_def json_ok_sample db_ok_def rows_ok_def sample_db_def)

definition demo_control :: message where
  "demo_control = \<lparr>headers = [(''From'', ''root''), (''Control'', ''newgroup alt.new''),
     (''X-PGP-Sig'', ''1 From,Control abc'')], body = ''please''\<rparr>"

theorem control_change_is_authorised_witness:
  "\<exists>v cmd. get_header_value demo_control ''Control'' = Some v \<and> parse_control v = Some cmd \<and>
     (admin_authorised sample_ext sample_config (auth sample_server) demo_control \<or>
      (\<exists>i. cmd = Cancel i \<and> cancel_authorised sample_ext (storage sample_server) demo_control i))"
proof (rule control_change_is_authorised)
  show "storage_ok sample_ext (storage sample_server)"
    using storage_ok_sample by (simp add: sample_server_def)
  show "handle_control sample_ext demo_control sample_config sample_server =
      (fst (handle_control sample_ext demo_control sample_config sample_server),
       snd (handle_control sample_ext demo_control sample_config sample_server))" by simp
  show "tables (storage (snd (handle_control sample_ext demo_control sample_config sample_server))) \<noteq>
      tables (storage sample_server)" by code_simp
qed

end
