(* ===== verification/Milter.thy ===== *)
theory Milter
  imports Message
begin

text \<open>
  The milter filter's protocol, \<^verbatim>\<open>src/src/filters/milter.rs\<close>: the frames it sends for an article, the decoding of
  the replies, and the verdict. The network and the milter server are external: \<open>tcp_connect\<close> and \<open>unix_connect\<close> are
  the outcomes of connecting, \<open>load_native_certs\<close>, \<open>root_store_add\<close>, \<open>server_name_valid\<close> and \<open>tls_connect\<close> those of the steps of a TLS
  handshake (the text of a failure, or none), \<open>milter_reply\<close> the bytes that can be read after
  the frames sent so far, or \<open>None\<close> when the connection fails at the last of them.
\<close>

definition MILTER_CONNECT :: u8 where "MILTER_CONNECT = 67"
definition MILTER_HEADER :: u8 where "MILTER_HEADER = 76"
definition MILTER_END_HEADERS :: u8 where "MILTER_END_HEADERS = 78"
definition MILTER_BODY :: u8 where "MILTER_BODY = 66"
definition MILTER_END_MESSAGE :: u8 where "MILTER_END_MESSAGE = 69"
definition MILTER_QUIT :: u8 where "MILTER_QUIT = 81"
definition MILTER_ACCEPT :: u8 where "MILTER_ACCEPT = 97"
definition MILTER_REJECT :: u8 where "MILTER_REJECT = 114"
definition MILTER_DISCARD :: u8 where "MILTER_DISCARD = 100"
definition MILTER_TEMPFAIL :: u8 where "MILTER_TEMPFAIL = 116"
definition MILTER_CONTINUE :: u8 where "MILTER_CONTINUE = 99"

lemmas milter_codes = MILTER_CONNECT_def MILTER_HEADER_def MILTER_END_HEADERS_def MILTER_BODY_def
  MILTER_END_MESSAGE_def MILTER_QUIT_def MILTER_ACCEPT_def MILTER_REJECT_def MILTER_DISCARD_def
  MILTER_TEMPFAIL_def MILTER_CONTINUE_def

record milter_config =
  milter_address :: string
  milter_timeout_secs :: nat

definition default_milter_timeout :: nat where
  "default_milter_timeout = 30"

datatype milter_error =
    ConnectionFailed string
  | ProtocolError string
  | IoError
  | TlsError string
  | InvalidScheme string
  | Rejected string
  | TempFail string

subsection \<open>Frames\<close>

definition utf8_bytes :: "string \<Rightarrow> u8 list" where
  "utf8_bytes s = concat (map (\<lambda>c. if char_code c < 128 then [of_nat (char_code c)]
     else [of_nat (192 + char_code c div 64), of_nat (128 + char_code c mod 64)]) s)"

definition be_bytes :: "nat \<Rightarrow> u8 list" where
  "be_bytes n = [of_nat (n div 2 ^ 24), of_nat (n div 2 ^ 16), of_nat (n div 2 ^ 8), of_nat n]"

definition send_command :: "u8 \<Rightarrow> u8 list \<Rightarrow> u8 list" where
  "send_command cmd data = be_bytes (length data + 1) @ [cmd] @ data"

definition from_be_bytes :: "u8 list \<Rightarrow> nat" where
  "from_be_bytes bs = foldl (\<lambda>a b. 256 * a + unat b) 0 bs"

definition read_response :: "u8 list \<Rightarrow> milter_error + u8" where
  "read_response input =
     (if length input < 4 then Inl IoError
      else let len = from_be_bytes (take 4 input); rest = drop 4 input
           in if len = 0 then Inl (ProtocolError ''Invalid response length'')
              else if length rest < len then Inl IoError
              else Inr (hd rest))"

definition handle_response :: "u8 \<Rightarrow> milter_error + unit" where
  "handle_response response =
     (if response = MILTER_ACCEPT \<or> response = MILTER_CONTINUE then Inr ()
      else if response = MILTER_REJECT then Inl (Rejected ''Article rejected by Milter'')
      else if response = MILTER_DISCARD then Inl (Rejected ''Article discarded by Milter'')
      else if response = MILTER_TEMPFAIL then Inl (TempFail ''Temporary failure from Milter'')
      else Inl (ProtocolError (''Unknown response: '' @ show_nat (unat response))))"

subsection \<open>Connecting\<close>

fun split_scheme :: "string \<Rightarrow> (string \<times> string) option" where
  "split_scheme [] = None"
| "split_scheme (c # r) =
     (if starts_with (c # r) ''://'' then Some ([], drop 2 r)
      else map_option (\<lambda>(a, b). (c # a, b)) (split_scheme r))"

definition dialled :: "dial_outcome \<Rightarrow> milter_error + unit" where
  "dialled outcome =
     (case outcome of
        Dialed \<Rightarrow> Inr ()
      | DialTimeout \<Rightarrow> Inl (ConnectionFailed ''timeout'')
      | DialError e \<Rightarrow> Inl (ConnectionFailed e))"

definition connect_tcp :: "ext \<Rightarrow> string \<Rightarrow> nat \<Rightarrow> milter_error + unit" where
  "connect_tcp X address timeout = dialled (tcp_connect X address timeout)"

fun add_roots :: "ext \<Rightarrow> string list \<Rightarrow> milter_error + unit" where
  "add_roots X [] = Inr ()"
| "add_roots X (cert # certs) =
     (case root_store_add X cert of Some e \<Rightarrow> Inl (TlsError e) | None \<Rightarrow> add_roots X certs)"

text \<open>The host name for the handshake is the address up to its first colon.\<close>

definition connect_tls :: "ext \<Rightarrow> string \<Rightarrow> nat \<Rightarrow> milter_error + unit" where
  "connect_tls X address timeout =
     (case dialled (tcp_connect X address timeout) of
        Inl e \<Rightarrow> Inl e
      | Inr _ \<Rightarrow>
     (case load_native_certs X of
        Inl e \<Rightarrow> Inl (TlsError e)
      | Inr certs \<Rightarrow>
     (case add_roots X certs of
        Inl e \<Rightarrow> Inl e
      | Inr _ \<Rightarrow>
          let hostname = takeWhile (\<lambda>c. c \<noteq> CHR '':'') address
          in if \<not> server_name_valid X hostname then Inl (TlsError ''Invalid hostname'')
             else case tls_connect X certs hostname address of
                    Some e \<Rightarrow> Inl (TlsError e)
                  | None \<Rightarrow> Inr ())))"

definition connect_unix :: "ext \<Rightarrow> string \<Rightarrow> nat \<Rightarrow> milter_error + unit" where
  "connect_unix X path timeout = dialled (unix_connect X path timeout)"

definition milter_connect :: "ext \<Rightarrow> milter_config \<Rightarrow> milter_error + string" where
  "milter_connect X c =
     (case split_scheme (milter_address c) of
        Some (scheme, address) \<Rightarrow>
          map_sum id (\<lambda>_. milter_address c)
            (if scheme = ''tcp'' then connect_tcp X address (milter_timeout_secs c)
             else if scheme = ''tls'' then connect_tls X address (milter_timeout_secs c)
             else if scheme = ''unix'' then connect_unix X address (milter_timeout_secs c)
             else Inl (InvalidScheme (''Unsupported scheme: '' @ scheme @
                    ''. Supported schemes: tcp://, tls://, unix://'')))
      | None \<Rightarrow> Inl (InvalidScheme (''Invalid address format: '' @ milter_address c @
                 ''. Expected format: scheme://address (e.g., tcp://localhost:8888)'')))"

subsection \<open>The conversation\<close>

text \<open>Send a frame after those sent before, and read the reply.\<close>

definition milter_exchange :: "ext \<Rightarrow> string \<Rightarrow> u8 list list \<Rightarrow> u8 list \<Rightarrow> milter_error + u8" where
  "milter_exchange X conn sent frame =
     (case milter_reply X conn (sent @ [frame]) of
        None \<Rightarrow> Inl IoError
      | Some input \<Rightarrow> read_response input)"

text \<open>The frames that must each be answered with CONTINUE; another answer is the verdict.\<close>

fun milter_frames :: "ext \<Rightarrow> string \<Rightarrow> u8 list list \<Rightarrow> u8 list list \<Rightarrow> milter_error + (unit + u8 list list)" where
  "milter_frames X conn sent [] = Inr (Inr sent)"
| "milter_frames X conn sent (f # fs) =
     (case milter_exchange X conn sent f of
        Inl e \<Rightarrow> Inl e
      | Inr response \<Rightarrow>
          if response \<noteq> MILTER_CONTINUE then map_sum id Inl (handle_response response)
          else milter_frames X conn (sent @ [f]) fs)"

definition article_frames :: "message \<Rightarrow> u8 list list" where
  "article_frames article =
     [send_command MILTER_CONNECT (utf8_bytes ''NNTP 127.0.0.1'')] @
     map (\<lambda>(name, val). send_command MILTER_HEADER (utf8_bytes (name @ '': '' @ val))) (headers article) @
     [send_command MILTER_END_HEADERS [], send_command MILTER_BODY (utf8_bytes (body article))]"

definition milter_process_article :: "ext \<Rightarrow> milter_config \<Rightarrow> message \<Rightarrow> milter_error + unit" where
  "milter_process_article X c article =
     (case milter_connect X c of
        Inl e \<Rightarrow> Inl e
      | Inr conn \<Rightarrow>
          (case milter_frames X conn [] (article_frames article) of
             Inl e \<Rightarrow> Inl e
           | Inr (Inl ()) \<Rightarrow> Inr ()
           | Inr (Inr sent) \<Rightarrow>
               (case milter_exchange X conn sent (send_command MILTER_END_MESSAGE []) of
                  Inl e \<Rightarrow> Inl e
                | Inr response \<Rightarrow>
                    (case handle_response response of
                       Inl e \<Rightarrow> Inl e
                     | Inr () \<Rightarrow>
                         (case milter_reply X conn (sent @ [send_command MILTER_END_MESSAGE [],
                                 send_command MILTER_QUIT []]) of
                            None \<Rightarrow> Inl IoError
                          | Some _ \<Rightarrow> Inr ())))))"

text \<open>The text of an error; that of an I/O error is the system's and is left out.\<close>

fun milter_error_text :: "milter_error \<Rightarrow> string" where
  "milter_error_text (ConnectionFailed msg) = ''Milter connection failed: '' @ msg"
| "milter_error_text (ProtocolError msg) = ''Milter protocol error: '' @ msg"
| "milter_error_text IoError = ''Milter I/O error: ''"
| "milter_error_text (TlsError msg) = ''Milter TLS error: '' @ msg"
| "milter_error_text (InvalidScheme msg) = ''Milter invalid scheme: '' @ msg"
| "milter_error_text (Rejected msg) = ''Article rejected by Milter: '' @ msg"
| "milter_error_text (TempFail msg) = ''Milter temporary failure: '' @ msg"

definition milter_validate :: "ext \<Rightarrow> milter_config \<Rightarrow> message \<Rightarrow> unit result" where
  "milter_validate X c article =
     (case milter_process_article X c article of Inl e \<Rightarrow> Inl (Anyhow (milter_error_text e)) | Inr () \<Rightarrow> Inr ())"

subsection \<open>Facts\<close>

text \<open>A well-formed reply frame is read as its code.\<close>

lemma from_be_bytes_be_bytes:
  assumes "n < 2 ^ 32"
  shows "from_be_bytes (be_bytes n) = n"
proof -
  define a b c where "a = n div 256" and "b = a div 256" and "c = b div 256"
  have abc: "n div 2 ^ 8 = a" "n div 2 ^ 16 = b" "n div 2 ^ 24 = c"
    by (simp_all add: a_def b_def c_def div_mult2_eq [symmetric])
  have "c < 256" using assms by (simp add: abc [symmetric] less_mult_imp_div_less)
  then have "from_be_bytes (be_bytes n) = 256 * (256 * (256 * c + b mod 256) + a mod 256) + n mod 256"
    by (simp add: from_be_bytes_def be_bytes_def unat_of_nat abc [simplified])
  moreover have "256 * c + b mod 256 = b" "256 * b + a mod 256 = a" "256 * a + n mod 256 = n"
    by (simp_all add: a_def b_def c_def)
  ultimately show ?thesis by presburger
qed

lemma read_response_send_command:
  assumes "length data + 1 < 2 ^ 32"
  shows "read_response (send_command code data @ tail) = Inr code"
proof -
  have "length (be_bytes n) = 4" for n by (simp add: be_bytes_def)
  then show ?thesis
    using from_be_bytes_be_bytes [OF assms] by (simp add: read_response_def send_command_def Let_def)
qed

lemma handle_response_ok: "handle_response r = Inr () \<longleftrightarrow> r = MILTER_ACCEPT \<or> r = MILTER_CONTINUE"
  by (auto simp: handle_response_def)

text \<open>The frames before the last are each answered with CONTINUE, until one is answered with ACCEPT.\<close>

definition answered :: "ext \<Rightarrow> string \<Rightarrow> u8 list list \<Rightarrow> u8 list list \<Rightarrow> nat \<Rightarrow> u8 \<Rightarrow> bool" where
  "answered X conn sent fs i code \<longleftrightarrow> milter_exchange X conn (sent @ take i fs) (fs ! i) = Inr code"

lemma milter_frames_ok:
  assumes "milter_frames X conn sent fs = Inr v"
  shows "(\<exists>n < length fs. (\<forall>i < n. answered X conn sent fs i MILTER_CONTINUE) \<and>
            answered X conn sent fs n MILTER_ACCEPT \<and> v = Inl ()) \<or>
         (\<forall>i < length fs. answered X conn sent fs i MILTER_CONTINUE) \<and> v = Inr (sent @ fs)"
  using assms
proof (induction fs arbitrary: sent)
  case (Cons f fs)
  let ?later = "\<lambda>i. answered X conn (sent @ [f]) fs i"
  have shift: "answered X conn sent (f # fs) (Suc i) = ?later i" for i
    by (simp add: answered_def fun_eq_iff)
  from Cons.prems obtain code where code: "milter_exchange X conn sent f = Inr code"
    by (auto split: sum.splits)
  then have first: "answered X conn sent (f # fs) 0 code" by (simp add: answered_def)
  show ?case
  proof (cases "code = MILTER_CONTINUE")
    case False
    with Cons.prems code have "map_sum id Inl (handle_response code) = Inr v" by simp
    then have "handle_response code = Inr ()" "v = Inl ()" by (cases "handle_response code"; simp)+
    with False have "code = MILTER_ACCEPT" by (simp add: handle_response_ok)
    with first \<open>v = Inl ()\<close> show ?thesis by auto
  next
    case True
    with Cons.prems code have "milter_frames X conn (sent @ [f]) fs = Inr v" by simp
    have all: "(\<forall>i < Suc n. answered X conn sent (f # fs) i MILTER_CONTINUE) \<longleftrightarrow> (\<forall>i < n. ?later i MILTER_CONTINUE)" for n
      using first True shift by (auto simp: less_Suc_eq_0_disj)
    from Cons.IH [OF \<open>milter_frames X conn (sent @ [f]) fs = Inr v\<close>] show ?thesis
    proof (elim disjE exE conjE)
      fix n assume "n < length fs" "\<forall>i < n. ?later i MILTER_CONTINUE" "?later n MILTER_ACCEPT" "v = Inl ()"
      then show ?thesis using all shift by (intro disjI1 exI [of _ "Suc n"]) auto
    next
      assume "\<forall>i < length fs. ?later i MILTER_CONTINUE" "v = Inr ((sent @ [f]) @ fs)"
      then show ?thesis using all by simp
    qed
  qed
qed simp

end
