(* ===== verification/Filters.thy ===== *)
theory Filters
  imports Control Milter
begin

text \<open>
  Article validation: the filters of \<^verbatim>\<open>src/src/filters/\<close> (header, size, groups, moderation, milter), the chain
  of filters and the factory that makes a chain from the configuration, and the validation functions
  of \<^verbatim>\<open>src/src/handlers/utils.rs\<close> built on them.
\<close>

datatype article_filter =
    HeaderFilter
  | SizeFilter
  | GroupExistenceFilter
  | ModerationFilter
  | MilterFilter milter_config

subsection \<open>The filters\<close>

definition header_validate :: "message \<Rightarrow> ('z server_scheme, unit) action" where
  "header_validate article =
     (if \<not> has_header article ''From'' \<or> \<not> has_header article ''Subject'' \<or> extract_newsgroups article = []
      then throw (Anyhow ''missing required headers'') else ret ())"

definition size_validate :: "ext \<Rightarrow> config \<Rightarrow> message \<Rightarrow> u64 \<Rightarrow> ('z server_scheme, unit) action" where
  "size_validate X cfg article sz =
     for_each (\<lambda>grp. case max_size_for_group X cfg grp of
         None \<Rightarrow> ret ()
       | Some max_size \<Rightarrow>
           if sz > max_size then throw (Anyhow (''article too large for group '' @ grp)) else ret ())
       (extract_newsgroups article)"

definition group_existence_validate :: "message \<Rightarrow> ('z server_scheme, unit) action" where
  "group_existence_validate article =
     bind_res (on_storage list_groups) (\<lambda>all_groups.
       for_each (\<lambda>grp. if grp \<in> set all_groups then ret () else throw (Anyhow ''group does not exist''))
         (extract_newsgroups article))"

text \<open>The moderators of a group among the Approved headers, with the signature headers at the same
  positions.\<close>

fun collect_moderators ::
  "ext \<Rightarrow> string \<Rightarrow> (string \<times> string option) list \<Rightarrow> ('z server_scheme, string list \<times> string list) action" where
  "collect_moderators X grp [] w = (Inr ([], []), w)"
| "collect_moderators X grp ((approved, sig) # rest) w =
     bind_res (on_auth (is_moderator X approved grp)) (\<lambda>moderator.
       bind_res (collect_moderators X grp rest) (\<lambda>(mods, sigs).
         ret (if moderator
              then (approved # mods, (case sig of None \<Rightarrow> sigs | Some s \<Rightarrow> s # sigs))
              else (mods, sigs)))) w"

definition approved_message :: "message \<Rightarrow> string \<Rightarrow> message" where
  "approved_message article approved =
     \<lparr>headers = filter (\<lambda>(k, _). \<not> eq_ignore_ascii_case k ''Approved'') (headers article) @
                [(''Approved'', approved)],
      body = body article\<rparr>"

definition verify_moderator ::
  "ext \<Rightarrow> config \<Rightarrow> message \<Rightarrow> string \<times> string \<Rightarrow> ('z server_scheme, unit) action" where
  "verify_moderator X cfg article = (\<lambda>(approved, sig_header).
     case split_signature sig_header of
       None \<Rightarrow> throw (Anyhow ''bad signature'')
     | Some (version, signed_hs, sig_rest) \<Rightarrow>
         verify_pgp X (approved_message article approved) approved version signed_hs sig_rest
           (cfg_pgp_key_servers cfg))"

definition pad_signatures :: "string list \<Rightarrow> string list \<Rightarrow> (string \<times> string option) list" where
  "pad_signatures approved sigs =
     map (\<lambda>i. (approved ! i, if i < length sigs then Some (sigs ! i) else None)) [0..<length approved]"

definition moderate_group :: "ext \<Rightarrow> config \<Rightarrow> message \<Rightarrow> string \<Rightarrow> ('z server_scheme, unit) action" where
  "moderate_group X cfg article grp =
     bind_res (on_storage (is_group_moderated grp)) (\<lambda>moderated.
       if \<not> moderated then ret ()
       else bind_res
         (collect_moderators X grp (pad_signatures (get_header_values article ''Approved'')
            (get_header_values article ''X-PGP-Sig'')))
         (\<lambda>(mods, sigs).
            if mods = [] then throw (Anyhow ''missing approval for moderated group'')
            else if length sigs < length mods then throw (Anyhow ''missing signature for moderator'')
            else for_each (verify_moderator X cfg article) (zip mods sigs)))"

definition moderation_validate :: "ext \<Rightarrow> config \<Rightarrow> message \<Rightarrow> ('z server_scheme, unit) action" where
  "moderation_validate X cfg article =
     for_each (moderate_group X cfg article) (extract_newsgroups article)"

definition filter_validate ::
  "ext \<Rightarrow> config \<Rightarrow> message \<Rightarrow> u64 \<Rightarrow> article_filter \<Rightarrow> ('z server_scheme, unit) action" where
  "filter_validate X cfg article sz f =
     (case f of
        HeaderFilter \<Rightarrow> header_validate article
      | SizeFilter \<Rightarrow> size_validate X cfg article sz
      | GroupExistenceFilter \<Rightarrow> group_existence_validate article
      | ModerationFilter \<Rightarrow> moderation_validate X cfg article
      | MilterFilter c \<Rightarrow> (\<lambda>w. (milter_validate X c article, w)))"

subsection \<open>Chains\<close>

definition filter_chain_validate ::
  "ext \<Rightarrow> article_filter list \<Rightarrow> config \<Rightarrow> message \<Rightarrow> u64 \<Rightarrow> ('z server_scheme, unit) action" where
  "filter_chain_validate X chain cfg article sz = for_each (filter_validate X cfg article sz) chain"

definition default_filter_chain :: "article_filter list" where
  "default_filter_chain = [HeaderFilter, SizeFilter, GroupExistenceFilter, ModerationFilter]"

fun article_filter_name :: "article_filter \<Rightarrow> string" where
  "article_filter_name HeaderFilter = ''HeaderFilter''"
| "article_filter_name SizeFilter = ''SizeFilter''"
| "article_filter_name GroupExistenceFilter = ''GroupExistenceFilter''"
| "article_filter_name ModerationFilter = ''ModerationFilter''"
| "article_filter_name (MilterFilter c) = ''MilterFilter''"

datatype filter_factory_error = UnknownFilter string | InvalidParameters string

definition create_filter :: "ext \<Rightarrow> filter_config \<Rightarrow> filter_factory_error + article_filter" where
  "create_filter X c =
     (if filter_name c = ''HeaderFilter'' then Inr HeaderFilter
      else if filter_name c = ''SizeFilter'' then Inr SizeFilter
      else if filter_name c = ''GroupExistenceFilter'' then Inr GroupExistenceFilter
      else if filter_name c = ''ModerationFilter'' then Inr ModerationFilter
      else if filter_name c = ''MilterFilter''
      then (case milter_config_from_json X (filter_parameters c) of
              None \<Rightarrow> Inl (InvalidParameters ''MilterFilter configuration error'')
            | Some (address, timeout) \<Rightarrow>
                Inr (MilterFilter \<lparr>milter_address = address, milter_timeout_secs = timeout\<rparr>))
      else Inl (UnknownFilter (filter_name c)))"

fun create_filters :: "ext \<Rightarrow> filter_config list \<Rightarrow> filter_factory_error + article_filter list" where
  "create_filters X [] = Inr []"
| "create_filters X (c # cs) =
     (case create_filter X c of
        Inl e \<Rightarrow> Inl e
      | Inr f \<Rightarrow> map_sum id ((#) f) (create_filters X cs))"

definition create_filter_chain :: "ext \<Rightarrow> filter_config list \<Rightarrow> filter_factory_error + article_filter list" where
  "create_filter_chain X configs =
     (if configs = [] then Inr default_filter_chain else create_filters X configs)"

subsection \<open>Validation in the handlers\<close>

definition basic_validate_article :: "message \<Rightarrow> unit result" where
  "basic_validate_article article =
     (if \<not> has_header article ''From'' \<or> \<not> has_header article ''Subject'' \<or> extract_newsgroups article = []
      then Inl (Anyhow ''missing required headers'') else Inr ())"

definition validate_article_with_filters ::
  "ext \<Rightarrow> config \<Rightarrow> message \<Rightarrow> u64 \<Rightarrow> article_filter list \<Rightarrow> ('z server_scheme, unit) action" where
  "validate_article_with_filters X cfg article sz chain =
     filter_chain_validate X chain cfg article sz"

definition comprehensive_validate_article ::
  "ext \<Rightarrow> config \<Rightarrow> message \<Rightarrow> u64 \<Rightarrow> ('z server_scheme, unit) action" where
  "comprehensive_validate_article X cfg article sz =
     validate_article_with_filters X cfg article sz default_filter_chain"

definition validate_article ::
  "ext \<Rightarrow> config \<Rightarrow> message \<Rightarrow> u64 \<Rightarrow> ('z server_scheme, unit) action" where
  "validate_article X cfg article sz = comprehensive_validate_article X cfg article sz"

end
