(* ===== verification/Filter_Properties.thy ===== *)
theory Filter_Properties
  imports Filters Control_Properties
begin

text \<open>
  What an article that passes validation satisfies. The contract of a filter is a locale, interpreted
  on the filters of the source; the chain's meaning follows from it once for all chains.
\<close>

subsection \<open>The contract of a filter\<close>

locale filter_contract =
  fixes validate :: "'f \<Rightarrow> ('s, unit) action"
    and meaning :: "'f \<Rightarrow> 's \<Rightarrow> bool"
    and later :: "'s \<Rightarrow> 's \<Rightarrow> bool"
  assumes later_refl: "reflp later"
    and later_trans: "transp later"
    and validate_moves: "moves later (validate f)"
    and validate_sound: "validate f s = (Inr (), s') \<Longrightarrow> meaning f s"
    and meaning_back: "later s s' \<Longrightarrow> meaning f s' \<Longrightarrow> meaning f s"
begin

lemma chain_moves: "moves later (for_each validate fs)"
  by (intro moves_for_each later_refl later_trans validate_moves)

lemma chain_sound:
  assumes "for_each validate fs s = (Inr (), s')" and "f \<in> set fs"
  shows "meaning f s"
proof -
  obtain t t' where "later s t" "validate f t = (Inr (), t')"
    using for_each_ok [OF later_refl later_trans validate_moves assms] by blast
  then show ?thesis using validate_sound meaning_back by blast
qed

end

subsection \<open>What validation may change\<close>

text \<open>Validation reads: it leaves the tables, the moderators, the tracker, the queue, the configuration
  and the connection as they are, and changes at most stored keys, to keys that the key servers have.\<close>

definition account_rows :: "adb \<Rightarrow> string list \<times> user_limits_row list \<times> user_usage_row list" where
  "account_rows d = (map u_username (users d), user_limits_table d, user_usage_table d)"

definition only_keys :: "ext \<Rightarrow> string list \<Rightarrow> 'z server_scheme \<Rightarrow> 'z server_scheme \<Rightarrow> bool" where
  "only_keys X servers w w' \<longleftrightarrow>
     tables (storage w') = tables (storage w) \<and>
     moderators (auth w') = moderators (auth w) \<and> admins (auth w') = admins (auth w) \<and>
     account_rows (auth w') = account_rows (auth w) \<and>
     (\<forall>u. stored_key (auth w') u = stored_key (auth w) u \<or>
          discover_key X servers u = Inr (stored_key (auth w') u)) \<and>
     usage_tracker w' = usage_tracker w \<and> queue w' = queue w \<and> config w' = config w \<and>
     server.more w' = server.more w"

lemma only_keys_refl: "reflp (only_keys X servers)"
  by (simp add: reflp_def only_keys_def)

lemma only_keys_trans: "transp (only_keys X servers)"
  by (rule transpI) (simp add: only_keys_def, metis)

lemmas only_keys_order = only_keys_refl only_keys_trans

lemma moves_on_storage_select:
  assumes "\<And>d fs. q (d\<lparr>faults := fs\<rparr>) = q d"
  shows "moves (only_keys X servers) (on_storage (select q))"
  unfolding moves_def
proof
  fix w
  obtain r d where sel: "select q (storage w) = (r, d)" by fastforce
  with select_cases [OF assms sel] show "only_keys X servers w (snd (on_storage (select q) w))"
    by (auto simp: on_storage_def only_keys_def)
qed

lemma moves_on_auth_select:
  assumes "\<And>d fs. q (d\<lparr>faults := fs\<rparr>) = q d"
  shows "moves (only_keys X servers) (on_auth (select q))"
  unfolding moves_def
proof
  fix w
  obtain r d where sel: "select q (auth w) = (r, d)" by fastforce
  with select_cases [OF assms sel] show "only_keys X servers w (snd (on_auth (select q) w))"
    by (auto simp: on_auth_def only_keys_def stored_key_def account_rows_def)
qed

lemma stored_key_update:
  assumes "update_pgp_key u k d = (r, d')"
  shows "(stored_key d' v = stored_key d v \<or> v = u \<and> stored_key d' v = Some k) \<and>
     moderators d' = moderators d \<and> admins d' = admins d \<and> account_rows d' = account_rows d"
proof -
  have "map_option u_key (List.find (\<lambda>x. u_username x = v)
        (map (\<lambda>x. if u_username x = u then x\<lparr>u_key := Some k\<rparr> else x) us)) =
      (if v = u \<and> List.find (\<lambda>x. u_username x = v) us \<noteq> None then Some (Some k)
       else map_option u_key (List.find (\<lambda>x. u_username x = v) us))" for us :: "user_row list"
    by (induction us) auto
  from this [of "users d"] assms show ?thesis
    by (auto simp: update_pgp_key_def sql_update_users_def exec_def stored_key_def account_rows_def
        split: list.splits if_splits option.splits)
qed

lemma moves_verify_pgp:
  "moves (only_keys X servers) (verify_pgp X msg u v s r servers)"
  unfolding moves_def
proof
  fix w :: "'a server_scheme"
  obtain rk w1 where k: "on_auth (get_pgp_key u) w = (rk, w1)" by fastforce
  have 1: "only_keys X servers w w1"
    using movesD [OF moves_on_auth_select k [unfolded get_pgp_key_def]] by simp
  show "only_keys X servers w (snd (verify_pgp X msg u v s r servers w))"
  proof (cases "\<exists>dk. discover_key X servers u = Inr (Some dk)")
    case False
    then show ?thesis
      using 1 k by (auto simp: verify_pgp_def bind_res_def split: sum.splits option.splits)
  next
    case True
    then obtain dk where dk: "discover_key X servers u = Inr (Some dk)" by blast
    obtain ru w2 where up: "on_auth (update_pgp_key u dk) w1 = (ru, w2)" by fastforce
    then have "only_keys X servers w1 w2"
      using stored_key_update [of u dk "auth w1" ru "auth w2"] dk
      by (auto simp: on_auth_def only_keys_def split: prod.splits) metis
    with 1 have 2: "only_keys X servers w w2" using only_keys_trans by (metis transpD)
    show ?thesis
      using 1 2 k up dk
      by (auto simp: verify_pgp_def bind_res_def catch_res_def split: sum.splits option.splits unit.splits if_splits)
  qed
qed

subsection \<open>What the filters mean\<close>

definition group_moderated :: "db \<Rightarrow> string \<Rightarrow> bool" where
  "group_moderated d g \<longleftrightarrow>
     (case List.find (\<lambda>r. g_name r = g) (groups d) of None \<Rightarrow> False | Some r \<Rightarrow> g_moderated r)"

definition moderates :: "ext \<Rightarrow> adb \<Rightarrow> string \<Rightarrow> string \<Rightarrow> bool" where
  "moderates X d name g \<longleftrightarrow>
     list_ex (\<lambda>m. wildmat X (mod_pattern m) g) (filter (\<lambda>m. mod_username m = name) (moderators d))"

definition approved_by :: "ext \<Rightarrow> config \<Rightarrow> adb \<Rightarrow> message \<Rightarrow> string \<Rightarrow> bool" where
  "approved_by X cfg d article g \<longleftrightarrow>
     (\<exists>name sig version signed_hs sig_rest.
        name \<in> set (get_header_values article ''Approved'') \<and> moderates X d name g \<and>
        sig \<in> set (get_header_values article ''X-PGP-Sig'') \<and>
        split_signature sig = Some (version, signed_hs, sig_rest) \<and>
        signature_accepted X (cfg_pgp_key_servers cfg) d (approved_message article name) name
          version signed_hs sig_rest)"

definition filter_meaning ::
  "ext \<Rightarrow> config \<Rightarrow> message \<Rightarrow> u64 \<Rightarrow> article_filter \<Rightarrow> 'z server_scheme \<Rightarrow> bool" where
  "filter_meaning X cfg article sz f w \<longleftrightarrow>
     (case f of
        HeaderFilter \<Rightarrow>
          has_header article ''From'' \<and> has_header article ''Subject'' \<and> extract_newsgroups article \<noteq> []
      | SizeFilter \<Rightarrow>
          (\<forall>g \<in> set (extract_newsgroups article). \<forall>m. max_size_for_group X cfg g = Some m \<longrightarrow> sz \<le> m)
      | GroupExistenceFilter \<Rightarrow>
          set (extract_newsgroups article) \<subseteq> g_name ` set (groups (storage w))
      | ModerationFilter \<Rightarrow>
          (\<forall>g \<in> set (extract_newsgroups article).
             group_moderated (storage w) g \<longrightarrow> approved_by X cfg (auth w) article g)
      | MilterFilter c \<Rightarrow> milter_validate X c article = Inr ())"

lemma tables_groups: "tables d' = tables d \<Longrightarrow> groups d' = groups d"
  by (drule arg_cong [of _ _ groups]) (simp add: tables_def)

lemma signature_accepted_back:
  "only_keys X servers w w' \<Longrightarrow> signature_accepted X servers (auth w') msg u v s r \<Longrightarrow>
     signature_accepted X servers (auth w) msg u v s r"
  unfolding signature_accepted_def only_keys_def by metis

lemma approved_by_back:
  assumes "only_keys X (cfg_pgp_key_servers cfg) w w'" and "approved_by X cfg (auth w') article g"
  shows "approved_by X cfg (auth w) article g"
proof -
  have "moderators (auth w') = moderators (auth w)" using assms(1) by (simp add: only_keys_def)
  with assms(2) signature_accepted_back [OF assms(1)] show ?thesis
    unfolding approved_by_def moderates_def by metis
qed

lemma filter_meaning_back:
  assumes "only_keys X (cfg_pgp_key_servers cfg) w w'" and "filter_meaning X cfg article sz f w'"
  shows "filter_meaning X cfg article sz f w"
proof -
  have "groups (storage w') = groups (storage w)"
    using assms(1) by (intro tables_groups) (simp add: only_keys_def)
  with assms(2) approved_by_back [OF assms(1)] show ?thesis
    by (cases f) (auto simp: filter_meaning_def group_moderated_def)
qed

subsection \<open>Soundness of the filters\<close>

lemma moves_is_moderator: "moves (only_keys X servers) (on_auth (is_moderator X u g))"
proof -
  have "snd (is_moderator X u g d) = snd (select (\<lambda>d. filter (\<lambda>m. mod_username m = u) (moderators d)) d)" for d
    by (simp add: is_moderator_def bind_res_def split: prod.splits sum.splits)
  then show ?thesis
    using moves_on_auth_select [of "\<lambda>d. filter (\<lambda>m. mod_username m = u) (moderators d)" X servers]
    by (simp add: moves_def on_auth_def split_beta)
qed

lemma is_moderator_value:
  "on_auth (is_moderator X u g) w = (Inr b, w') \<Longrightarrow> b = moderates X (auth w) u g"
  unfolding is_moderator_def moderates_def
  by (auto simp: on_auth_def split: prod.splits elim!: bind_res_okE dest!: select_cases [rotated])

lemma collect_moderators_Cons:
  "collect_moderators X g ((n, sig) # ps) =
     bind_res (on_auth (is_moderator X n g)) (\<lambda>moderator.
       bind_res (collect_moderators X g ps) (\<lambda>(mods, sigs).
         ret (if moderator
              then (n # mods, (case sig of None \<Rightarrow> sigs | Some s \<Rightarrow> s # sigs))
              else (mods, sigs))))"
  by (simp add: fun_eq_iff)

lemma collect_moderators_moves: "moves (only_keys X servers) (collect_moderators X g ps)"
proof (induction ps)
  case Nil
  then show ?case by (simp add: moves_def only_keys_refl reflpD)
next
  case (Cons p ps)
  then show ?case
    unfolding collect_moderators_Cons [of X g "fst p" "snd p" ps, unfolded prod.collapse]
    by (intro moves_intros only_keys_order moves_is_moderator)
qed

lemma collect_moderators_sound:
  assumes "collect_moderators X g ps w = (Inr (mods, sigs), w')"
  shows "(\<forall>n \<in> set mods. moderates X (auth w) n g \<and> n \<in> fst ` set ps) \<and> Some ` set sigs \<subseteq> snd ` set ps"
  using assms
proof (induction ps arbitrary: mods sigs w)
  case (Cons p ps)
  obtain n sig where p: "p = (n, sig)" by fastforce
  from Cons.prems p obtain b w1 ms ss where
    1: "on_auth (is_moderator X n g) w = (Inr b, w1)" and
    2: "collect_moderators X g ps w1 = (Inr (ms, ss), w')" and
    eq: "mods = (if b then n # ms else ms)"
        "sigs = (if b then (case sig of None \<Rightarrow> ss | Some s \<Rightarrow> s # ss) else ss)"
    by (auto elim!: bind_res_okE split: if_splits)
  have "moderators (auth w1) = moderators (auth w)"
    using movesD [OF moves_is_moderator 1, of "[]"] by (simp add: only_keys_def)
  then have "moderates X (auth w1) = moderates X (auth w)" by (simp add: fun_eq_iff moderates_def)
  with Cons.IH [OF 2] is_moderator_value [OF 1] show ?case
    by (auto simp: eq p split: if_splits option.splits)
qed simp

lemma set_pad_signatures:
  "fst ` set (pad_signatures as ss) \<subseteq> set as" "Some x \<in> snd ` set (pad_signatures as ss) \<Longrightarrow> x \<in> set ss"
  by (auto simp: pad_signatures_def split: if_splits)

lemma moves_verify_moderator:
  "moves (only_keys X (cfg_pgp_key_servers cfg)) (verify_moderator X cfg article p)"
  unfolding verify_moderator_def by (intro moves_intros only_keys_order moves_verify_pgp)

lemma moves_moderate_group:
  "moves (only_keys X (cfg_pgp_key_servers cfg)) (moderate_group X cfg article g)"
  unfolding moderate_group_def is_group_moderated_def
  by (intro moves_intros only_keys_order collect_moderators_moves moves_verify_moderator
      moves_on_storage_select) simp_all

lemma moderate_group_sound:
  assumes "moderate_group X cfg article g w = (Inr (), w')" and "group_moderated (storage w) g"
  shows "approved_by X cfg (auth w) article g"
proof -
  let ?servers = "cfg_pgp_key_servers cfg"
  let ?ps = "pad_signatures (get_header_values article ''Approved'') (get_header_values article ''X-PGP-Sig'')"
  from assms(1) obtain b w1 where
    1: "on_storage (is_group_moderated g) w = (Inr b, w1)" and
    rest: "(if \<not> b then ret () else bind_res (collect_moderators X g ?ps) (\<lambda>(mods, sigs).
        if mods = [] then throw (Anyhow ''missing approval for moderated group'')
        else if length sigs < length mods then throw (Anyhow ''missing signature for moderator'')
        else for_each (verify_moderator X cfg article) (zip mods sigs))) w1 = (Inr (), w')"
    unfolding moderate_group_def by (elim bind_res_okE)
  have "b = group_moderated (storage w) g"
    using 1 unfolding is_group_moderated_def group_moderated_def
    by (auto simp: on_storage_def split: prod.splits dest!: select_cases [rotated])
  with assms(2) rest obtain mods sigs w2 where
    2: "collect_moderators X g ?ps w1 = (Inr (mods, sigs), w2)" and
    mods: "mods \<noteq> []" "length mods \<le> length sigs" and
    3: "for_each (verify_moderator X cfg article) (zip mods sigs) w2 = (Inr (), w')"
    by (auto elim!: bind_res_okE split: if_splits)
  from mods obtain n ns sig ss where ms: "mods = n # ns" "sigs = sig # ss"
    by (cases mods; cases sigs) auto
  with 3 obtain w3 where v: "verify_moderator X cfg article (n, sig) w2 = (Inr (), w3)"
    by (auto elim: bind_res_okE)
  have w1: "only_keys X ?servers w w1"
    using movesD [OF moves_on_storage_select 1 [unfolded is_group_moderated_def]] by simp
  have w2: "only_keys X ?servers w1 w2" using movesD [OF collect_moderators_moves 2] .
  have "moderates X (auth w1) n g" "n \<in> fst ` set ?ps" "Some sig \<in> snd ` set ?ps"
    using collect_moderators_sound [OF 2] by (auto simp: ms)
  then have "moderates X (auth w1) n g" "n \<in> set (get_header_values article ''Approved'')"
    "sig \<in> set (get_header_values article ''X-PGP-Sig'')"
    using set_pad_signatures by blast+
  moreover obtain ver hs sr where "split_signature sig = Some (ver, hs, sr)"
      "signature_accepted X ?servers (auth w2) (approved_message article n) n ver hs sr"
    using v by (auto simp: verify_moderator_def split: option.splits dest: verify_pgp_ok)
  ultimately have "approved_by X cfg (auth w1) article g"
    using signature_accepted_back [OF w2] unfolding approved_by_def by blast
  with approved_by_back [OF w1] show ?thesis .
qed

lemma for_each_check:
  assumes "\<And>x s. f x s = (if P x then Inr () else Inl (e x), s)"
  shows "for_each f xs s = (r, s') \<Longrightarrow> s' = s \<and> (r = Inr () \<longleftrightarrow> (\<forall>x \<in> set xs. P x))"
proof (induction xs)
  case (Cons x xs)
  then show ?case by (cases "P x") (auto simp: bind_res_def assms)
qed simp

lemma size_validate_check:
  "size_validate X cfg article sz w = (r, w') \<Longrightarrow>
     w' = w \<and> (r = Inr () \<longleftrightarrow> filter_meaning X cfg article sz SizeFilter w)"
proof -
  let ?P = "\<lambda>g. \<forall>m. max_size_for_group X cfg g = Some m \<longrightarrow> sz \<le> m"
  let ?e = "\<lambda>g. Anyhow (''article too large for group '' @ g)"
  assume "size_validate X cfg article sz w = (r, w')"
  then show ?thesis
    unfolding size_validate_def filter_meaning_def article_filter.case
    by (rule for_each_check [where P = ?P and e = ?e, rotated]) (auto split: option.splits)
qed

lemma size_validate_state: "snd (size_validate X cfg article sz w) = w"
  using size_validate_check [of X cfg article sz w "fst (size_validate X cfg article sz w)"
      "snd (size_validate X cfg article sz w)"]
  by simp

lemma group_existence_ok:
  assumes "group_existence_validate article w = (Inr (), w')"
  shows "filter_meaning X cfg article sz GroupExistenceFilter w"
proof -
  from assms obtain names w1 where
    1: "on_storage list_groups w = (Inr names, w1)" and
    2: "for_each (\<lambda>g. if g \<in> set names then ret () else throw (Anyhow ''group does not exist''))
          (extract_newsgroups article) w1 = (Inr (), w')"
    unfolding group_existence_validate_def by (elim bind_res_okE)
  have "names = map g_name (sort_key g_name (groups (storage w)))"
    using 1 unfolding list_groups_def
    by (auto simp: on_storage_def split: prod.splits dest!: select_cases [rotated])
  moreover have "w' = w1 \<and> ((Inr () :: unit result) = Inr () \<longleftrightarrow> (\<forall>g \<in> set (extract_newsgroups article). g \<in> set names))"
    by (rule for_each_check [where e = "\<lambda>_. Anyhow ''group does not exist''", OF _ 2]) simp
  ultimately show ?thesis by (auto simp: filter_meaning_def)
qed

lemma moves_filter_validate:
  "moves (only_keys X (cfg_pgp_key_servers cfg)) (filter_validate X cfg article sz f)"
proof (cases f)
  case SizeFilter
  then show ?thesis
    by (simp add: filter_validate_def moves_def size_validate_state reflpD [OF only_keys_refl])
next
  case GroupExistenceFilter
  then show ?thesis
    unfolding filter_validate_def group_existence_validate_def list_groups_def
    by (simp, intro moves_intros only_keys_order moves_on_storage_select) simp
next
  case ModerationFilter
  then show ?thesis
    unfolding filter_validate_def moderation_validate_def
    by (simp, intro moves_intros only_keys_order moves_moderate_group)
qed (use only_keys_refl in \<open>auto simp: filter_validate_def header_validate_def moves_def reflp_def\<close>)

lemma filter_validate_sound:
  assumes "filter_validate X cfg article sz f w = (Inr (), w')"
  shows "filter_meaning X cfg article sz f w"
proof (cases f)
  case HeaderFilter
  with assms show ?thesis
    by (auto simp: filter_validate_def header_validate_def filter_meaning_def split: if_splits)
next
  case SizeFilter
  with assms size_validate_check show ?thesis by (fastforce simp: filter_validate_def)
next
  case GroupExistenceFilter
  with assms group_existence_ok show ?thesis by (fastforce simp: filter_validate_def)
next
  case ModerationFilter
  let ?servers = "cfg_pgp_key_servers cfg"
  have "approved_by X cfg (auth w) article g"
    if g: "g \<in> set (extract_newsgroups article)" "group_moderated (storage w) g" for g
  proof -
    have "for_each (moderate_group X cfg article) (extract_newsgroups article) w = (Inr (), w')"
      using assms ModerationFilter by (simp add: filter_validate_def moderation_validate_def)
    from for_each_ok [OF only_keys_order moves_moderate_group this g(1)] obtain t t' where
      t: "only_keys X ?servers w t" and mg: "moderate_group X cfg article g t = (Inr (), t')" by blast
    have "group_moderated (storage t) g"
      using g(2) tables_groups [of "storage t" "storage w"] t by (simp add: only_keys_def group_moderated_def)
    from approved_by_back [OF t moderate_group_sound [OF mg this]] show ?thesis .
  qed
  with ModerationFilter show ?thesis by (simp add: filter_meaning_def)
next
  case (MilterFilter c)
  with assms show ?thesis by (simp add: filter_validate_def filter_meaning_def)
qed

interpretation filters: filter_contract "filter_validate X cfg article sz" "filter_meaning X cfg article sz"
  "only_keys X (cfg_pgp_key_servers cfg)" for X cfg article sz
  by unfold_locales
     (rule only_keys_refl only_keys_trans moves_filter_validate filter_validate_sound filter_meaning_back;
      assumption?)+

lemma validate_article_chain:
  "validate_article X cfg article sz = for_each (filter_validate X cfg article sz) default_filter_chain"
  by (simp add: validate_article_def comprehensive_validate_article_def validate_article_with_filters_def
      filter_chain_validate_def fun_eq_iff)

lemma moves_validate_article:
  "moves (only_keys X (cfg_pgp_key_servers cfg)) (validate_article X cfg article sz)"
  unfolding validate_article_chain by (rule filters.chain_moves)

subsection \<open>Acceptance without moderation\<close>

definition plainly_acceptable :: "ext \<Rightarrow> config \<Rightarrow> message \<Rightarrow> u64 \<Rightarrow> db \<Rightarrow> bool" where
  "plainly_acceptable X cfg article sz d \<longleftrightarrow>
     has_header article ''From'' \<and> has_header article ''Subject'' \<and> extract_newsgroups article \<noteq> [] \<and>
     (\<forall>g \<in> set (extract_newsgroups article).
        g \<in> g_name ` set (groups d) \<and> (\<forall>m. max_size_for_group X cfg g = Some m \<longrightarrow> sz \<le> m))"

lemma for_each_all_ok:
  "(\<And>x s. x \<in> set xs \<Longrightarrow> Q s \<Longrightarrow> f x s = (Inr (), s)) \<Longrightarrow> Q s \<Longrightarrow> for_each f xs s = (Inr (), s)"
  by (induction xs) (auto simp: bind_res_def)

lemma moderate_group_unmoderated:
  assumes "faults (storage w) = []" and "\<not> group_moderated (storage w) g"
  shows "moderate_group X cfg article g w = (Inr (), w)"
proof -
  have "on_storage (is_group_moderated g) w = (Inr False, w)"
    using assms by (auto simp: is_group_moderated_def on_storage_def group_moderated_def select_ok)
  then show ?thesis by (simp add: moderate_group_def bind_res_def)
qed

lemma group_existence_complete:
  assumes "faults (storage w) = []"
    and "set (extract_newsgroups article) \<subseteq> g_name ` set (groups (storage w))"
  shows "group_existence_validate article w = (Inr (), w)"
proof -
  have "on_storage list_groups w = (Inr (map g_name (sort_key g_name (groups (storage w)))), w)"
    using assms(1) by (simp add: list_groups_def on_storage_def select_ok)
  moreover have "for_each (\<lambda>g. if g \<in> set (map g_name (sort_key g_name (groups (storage w)))) then ret ()
      else throw (Anyhow ''group does not exist'')) (extract_newsgroups article) w = (Inr (), w)"
    by (rule for_each_all_ok [where Q = "\<lambda>_. True"]) (use assms(2) in auto)
  ultimately show ?thesis by (simp add: group_existence_validate_def bind_res_def)
qed

lemma validate_article_complete:
  assumes "faults (storage w) = []" and "plainly_acceptable X cfg article sz (storage w)"
    and "\<forall>g \<in> set (extract_newsgroups article). \<not> group_moderated (storage w) g"
  shows "validate_article X cfg article sz w = (Inr (), w)"
proof -
  have "header_validate article w = (Inr (), w)"
    using assms(2) by (simp add: header_validate_def plainly_acceptable_def)
  moreover have "size_validate X cfg article sz w = (Inr (), w)"
    using size_validate_check [of X cfg article sz w "fst (size_validate X cfg article sz w)" w]
      size_validate_state [of X cfg article sz w] assms(2)
    by (auto simp: filter_meaning_def plainly_acceptable_def prod_eq_iff)
  moreover have "group_existence_validate article w = (Inr (), w)"
    using assms(1,2) by (intro group_existence_complete) (auto simp: plainly_acceptable_def)
  moreover have "moderation_validate X cfg article w = (Inr (), w)"
    unfolding moderation_validate_def
    by (rule for_each_all_ok [where Q = "\<lambda>v. v = w"])
       (use assms(1,3) in \<open>simp_all add: moderate_group_unmoderated\<close>)
  ultimately show ?thesis
    by (simp add: validate_article_chain default_filter_chain_def filter_validate_def bind_res_def)
qed

lemma validate_article_sound:
  assumes "validate_article X cfg article sz w = (Inr (), w')"
  shows "plainly_acceptable X cfg article sz (storage w) \<and>
    (\<forall>g \<in> set (extract_newsgroups article).
       group_moderated (storage w) g \<longrightarrow> approved_by X cfg (auth w) article g)"
proof -
  have "filter_meaning X cfg article sz f w" if "f \<in> set default_filter_chain" for f
    using filters.chain_sound [OF _ that] assms by (auto simp: validate_article_chain)
  from this [of HeaderFilter] this [of SizeFilter] this [of GroupExistenceFilter] this [of ModerationFilter]
  show ?thesis
    unfolding default_filter_chain_def filter_meaning_def plainly_acceptable_def article_filter.case
    by (simp add: subset_iff)
qed

subsection \<open>Properties\<close>

text \<open>C18: an article that passes validation has the required headers, names at least one newsgroup,
  names only existing newsgroups, exceeds the size limit of none of them, and for each of them that is
  moderated carries the approval of one of its moderators with a signature over the article that the
  moderator's stored or discovered key accepts; and validation, whatever its verdict, changes nothing
  but stored keys, and those only to keys the key servers have.\<close>

theorem validation_is_sound:
  assumes "validate_article X cfg article sz w = (r, w')"
  shows "only_keys X (cfg_pgp_key_servers cfg) w w' \<and>
    (r = Inr () \<longrightarrow>
       plainly_acceptable X cfg article sz (storage w) \<and>
       (\<forall>g \<in> set (extract_newsgroups article).
          group_moderated (storage w) g \<longrightarrow> approved_by X cfg (auth w) article g))"
  using movesD [OF moves_validate_article assms] validate_article_sound [of X cfg article sz w w'] assms
  by blast

definition demo_post :: message where
  "demo_post = \<lparr>headers = [(''From'', ''u@example''), (''Subject'', ''hello''), (''Newsgroups'', ''misc.test'')],
     body = ''hi''\<rparr>"

theorem validation_is_sound_witness:
  "fst (validate_article sample_ext sample_config demo_post 2 sample_server) = Inr () \<and>
   plainly_acceptable sample_ext sample_config demo_post 2 (storage sample_server)"
proof
  show ok: "fst (validate_article sample_ext sample_config demo_post 2 sample_server) = Inr ()" by code_simp
  from validation_is_sound [OF outcomeI [OF ok]]
  show "plainly_acceptable sample_ext sample_config demo_post 2 (storage sample_server)" by simp
qed

text \<open>As long as no statement of the database fails and none of its newsgroups is moderated, an
  article is accepted exactly when it has the required headers, names at least one newsgroup, names only
  existing newsgroups and exceeds the size limit of none of them; nothing else is held against it, and
  the server's state stays as it is.\<close>

theorem unmoderated_validation_is_exact:
  assumes "faults (storage w) = []"
    and "\<forall>g \<in> set (extract_newsgroups article). \<not> group_moderated (storage w) g"
  shows "validate_article X cfg article sz w = (Inr (), w) \<longleftrightarrow> plainly_acceptable X cfg article sz (storage w)"
proof
  assume "validate_article X cfg article sz w = (Inr (), w)"
  then have "for_each (filter_validate X cfg article sz) default_filter_chain w = (Inr (), w)"
    by (simp add: validate_article_chain)
  note meaning = filters.chain_sound [OF this, unfolded default_filter_chain_def]
  from meaning [of HeaderFilter] meaning [of SizeFilter] meaning [of GroupExistenceFilter]
  show "plainly_acceptable X cfg article sz (storage w)"
    unfolding filter_meaning_def plainly_acceptable_def article_filter.case by (simp add: subset_iff)
qed (rule validate_article_complete [OF assms(1) _ assms(2)])

theorem unmoderated_validation_is_exact_witness:
  "validate_article sample_ext sample_config demo_post 2 sample_server = (Inr (), sample_server) \<longleftrightarrow>
     plainly_acceptable sample_ext sample_config demo_post 2 (storage sample_server)"
  by (rule unmoderated_validation_is_exact; code_simp)

text \<open>C19: an article passes a milter only on the milter's word. The filter succeeds only when the address could be
  connected to and every frame up to some point was answered with CONTINUE and the next one with ACCEPT, or all
  frames of the article with CONTINUE and the end of the message with ACCEPT or CONTINUE: no rejection, temporary
  failure, unknown code, broken or malformed answer is taken for acceptance.\<close>

theorem milter_passes_on_its_word:
  assumes "milter_validate X c article = Inr ()"
  shows "\<exists>conn. milter_connect X c = Inr conn \<and>
     (let fs = article_frames article in
       (\<exists>n < length fs. (\<forall>i < n. answered X conn [] fs i MILTER_CONTINUE) \<and> answered X conn [] fs n MILTER_ACCEPT) \<or>
       (\<forall>i < length fs. answered X conn [] fs i MILTER_CONTINUE) \<and>
         milter_exchange X conn fs (send_command MILTER_END_MESSAGE []) \<in> {Inr MILTER_ACCEPT, Inr MILTER_CONTINUE})"
proof -
  from assms obtain conn v where conn: "milter_connect X c = Inr conn"
    and frames: "milter_frames X conn [] (article_frames article) = Inr v"
    and final: "v = Inl () \<or> (\<exists>sent code. v = Inr sent \<and>
      milter_exchange X conn sent (send_command MILTER_END_MESSAGE []) = Inr code \<and> handle_response code = Inr ())"
    by (auto simp: milter_validate_def milter_process_article_def split: sum.splits option.splits unit.splits)
  from milter_frames_ok [OF frames] final conn show ?thesis
    by (auto simp: Let_def handle_response_ok)
qed

definition local_milter :: milter_config where
  "local_milter = \<lparr>milter_address = ''tls://localhost:8888'', milter_timeout_secs = 30\<rparr>"

definition short_article :: message where
  "short_article = \<lparr>headers = [(''Subject'', ''x'')], body = ''hi''\<rparr>"

text \<open>The sample's milter answers every frame with CONTINUE.\<close>

lemma sample_milter_exchange: "milter_exchange sample_ext conn sent f = Inr MILTER_CONTINUE"
  by (simp add: milter_exchange_def sample_ext_def read_response_def from_be_bytes_def MILTER_CONTINUE_def Let_def)

lemma sample_milter_frames: "milter_frames sample_ext conn sent fs = Inr (Inr (sent @ fs))"
  by (induction fs arbitrary: sent) (simp_all add: sample_milter_exchange)

lemma sample_milter_connect: "milter_connect sample_ext local_milter = Inr (milter_address local_milter)"
  by code_simp

theorem milter_passes_on_its_word_witness:
  "milter_validate sample_ext local_milter short_article = Inr () \<and>
     (\<exists>conn. milter_connect sample_ext local_milter = Inr conn)"
proof -
  have "milter_reply sample_ext conn cmds = Some [0, 0, 0, 1, 99]" for conn cmds by (simp add: sample_ext_def)
  moreover have "handle_response MILTER_CONTINUE = Inr ()" by (simp add: handle_response_ok)
  ultimately have "milter_validate sample_ext local_milter short_article = Inr ()"
    by (simp add: milter_validate_def milter_process_article_def sample_milter_connect sample_milter_frames
        sample_milter_exchange split: unit.split)
  with milter_passes_on_its_word [OF this] show ?thesis by blast
qed

end
