(* ===== verification/Queue.thy ===== *)
theory Queue
  imports Filters
begin

text \<open>
  The article queue and its workers, \<^verbatim>\<open>src/src/queue.rs\<close>. The queue is a bounded channel: its items in the order
  they were sent, and its capacity. A send into a full channel waits until a worker has received an
  item, a receive from an empty one until an item is sent: waiting is the value \<open>None\<close>. A send never fails,
  because the queue itself holds a receiver. (A channel of capacity 0, where a send waits for a receiver
  that is already waiting, is outside the model: the sends of the model then wait.)
\<close>

definition new_queue :: "nat \<Rightarrow> article_queue" where
  "new_queue capacity = \<lparr>queue_items = [], queue_capacity = capacity\<rparr>"

definition queue_is_empty :: "article_queue \<Rightarrow> bool" where
  "queue_is_empty q \<longleftrightarrow> queue_items q = []"

definition queue_len :: "article_queue \<Rightarrow> nat" where
  "queue_len q = length (queue_items q)"

definition submit :: "queued_article \<Rightarrow> 'z server_scheme \<Rightarrow> (unit result \<times> 'z server_scheme) option" where
  "submit article w =
     (if queue_len (queue w) < queue_capacity (queue w)
      then Some (Inr (), w\<lparr>queue := (queue w)\<lparr>queue_items := queue_items (queue w) @ [article]\<rparr>\<rparr>)
      else None)"

text \<open>The chain a worker validates with; an invalid configuration falls back to the default chain.\<close>

definition worker_filter_chain :: "ext \<Rightarrow> config \<Rightarrow> article_filter list" where
  "worker_filter_chain X cfg =
     (case create_filter_chain X (cfg_filters cfg) of
        Inr chain \<Rightarrow> chain
      | Inl _ \<Rightarrow> default_filter_chain)"

definition store_if_new :: "ext \<Rightarrow> message \<Rightarrow> ('z server_scheme, unit) action" where
  "store_if_new X article =
     (let message_id = (case extract_message_id article of None \<Rightarrow> [] | Some i \<Rightarrow> i)
      in bind_res
           (if message_id \<noteq> []
            then bind_res (on_storage (get_article_by_id X message_id)) (\<lambda>found. ret (found \<noteq> None))
            else ret False)
           (\<lambda>known. if known then ret () else on_storage (store_article X article)))"

definition process_article :: "ext \<Rightarrow> queued_article \<Rightarrow> ('z server_scheme, unit) action" where
  "process_article X q w =
     bind_res
       (if qa_is_control q then handle_control X (qa_message q) (config w) else ret False)
       (\<lambda>handled.
          if handled then ret ()
          else bind_res
            (if \<not> qa_already_validated q
             then validate_article_with_filters X (config w) (qa_message q) (qa_size q)
                    (worker_filter_chain X (config w))
             else ret ())
            (\<lambda>_. store_if_new X (qa_message q))) w"

text \<open>One turn of the loop of \<^verbatim>\<open>worker_task\<close>: an article is received and processed; its error is logged.\<close>

definition worker_step :: "ext \<Rightarrow> 'z server_scheme \<Rightarrow> 'z server_scheme option" where
  "worker_step X w =
     (case queue_items (queue w) of
        [] \<Rightarrow> None
      | q # rest \<Rightarrow>
          Some (snd (process_article X q (w\<lparr>queue := (queue w)\<lparr>queue_items := rest\<rparr>\<rparr>))))"

text \<open>\<^verbatim>\<open>WorkerPool::start\<close>: the numbers of the workers it spawns, each of which runs the loop.\<close>

definition worker_pool_start :: "nat \<Rightarrow> nat list" where
  "worker_pool_start worker_count = [0..<worker_count]"

text \<open>The loop itself, as long as there is something to receive.\<close>

fun worker_task :: "nat \<Rightarrow> ext \<Rightarrow> 'z server_scheme \<Rightarrow> 'z server_scheme" where
  "worker_task 0 X w = w"
| "worker_task (Suc n) X w =
     (case worker_step X w of None \<Rightarrow> w | Some w' \<Rightarrow> worker_task n X w')"

end
