(* ===== verification/Queue_Properties.thy ===== *)
theory Queue_Properties
  imports Queue Filter_Properties Storage_Properties
begin

text \<open>
  The queue is bounded and first in, first out, and its workers deliver: without failing statements
  everything that was queued after validation is in the storage once the queue is empty, each article
  once.
\<close>

subsection \<open>Storing succeeds when nothing fails\<close>

text \<open>\<open>number_room n d\<close>: each group has room for \<open>n\<close> more article numbers.\<close>

definition number_room :: "nat \<Rightarrow> db \<Rightarrow> bool" where
  "number_room n d \<longleftrightarrow> int n \<le> i64_max \<and> (\<forall>r \<in> set (group_articles d). ga_number r + int n \<le> i64_max)"

lemma number_room_mono: "number_room n d \<Longrightarrow> m \<le> n \<Longrightarrow> number_room m d"
  by (force simp: number_room_def)

lemma next_number_ok:
  assumes "faults d = []" and "number_room (Suc n) d"
  shows "\<exists>k. sql_next_number g d = (Inr k, d) \<and> k + int n \<le> i64_max \<and>
           (\<forall>r \<in> set (group_articles d). ga_group_name r = g \<longrightarrow> ga_number r < k)"
proof -
  let ?ns = "map ga_number (filter (\<lambda>r. ga_group_name r = g) (group_articles d))"
  let ?k = "(if ?ns = [] then 0 else Max (set ?ns)) + 1"
  have "?k + int n \<le> i64_max"
  proof (cases "?ns = []")
    case False
    then have "Max (set ?ns) \<in> set ?ns" by (metis List.finite_set Max_in set_empty)
    then show ?thesis using assms(2) False by (auto simp: number_room_def)
  qed (use assms(2) in \<open>simp add: number_room_def\<close>)
  moreover have "ga_number r < ?k" if "r \<in> set (group_articles d)" "ga_group_name r = g" for r
  proof -
    have "ga_number r \<in> set ?ns" using that by auto
    then have "ga_number r \<le> Max (set ?ns)" "?ns \<noteq> []" by (simp, metis empty_iff set_empty)
    then show ?thesis by (simp only: if_False)
  qed
  moreover have "sql_next_number g d = (Inr ?k, d)"
    using assms(1) calculation(1) unfolding sql_next_number_def exec_ok [OF assms(1)] Let_def by simp
  ultimately show ?thesis by blast
qed

definition has_message :: "string \<Rightarrow> db \<Rightarrow> bool" where
  "has_message i d \<longleftrightarrow> list_ex (\<lambda>m. m_message_id m = i) (messages d)"

lemma generate_overview_line_ok:
  "faults d = [] \<Longrightarrow> \<exists>line. generate_overview_line n a d = (Inr line, d)"
  by (auto simp: generate_overview_line_def get_message_size_def bind_res_def select_ok split: option.splits)

lemma store_in_group_succeeds:
  assumes "faults d = []" and "number_room (Suc n) d" and "has_message i d"
  shows "\<exists>d'. store_in_group X a i g d = (Inr (), d') \<and> faults d' = [] \<and> number_room n d' \<and> has_message i d'"
proof -
  from next_number_ok [OF assms(1,2)] obtain k where
    k: "sql_next_number g d = (Inr k, d)" "k + int n \<le> i64_max"
      "\<forall>r \<in> set (group_articles d). ga_group_name r = g \<longrightarrow> ga_number r < k" by blast
  let ?r = "\<lparr>ga_group_name = g, ga_number = k, ga_message_id = i, ga_inserted_at = timestamp (utc_now X)\<rparr>"
  let ?d1 = "d\<lparr>group_articles := group_articles d @ [?r]\<rparr>"
  have ins: "sql_insert_group_article ?r d = (Inr (), ?d1)"
    using assms(1,3) k(3) by (auto simp: sql_insert_group_article_def exec_ok has_message_def list_ex_iff)
  obtain line where "generate_overview_line (nat k) a ?d1 = (Inr line, ?d1)"
    using generate_overview_line_ok [of ?d1] assms(1) by auto
  with k(1) ins have "store_in_group X a i g d = sql_replace_overview
      \<lparr>ov_group_name = g, ov_article_number = k, ov_overview_data = line\<rparr> ?d1"
    by (simp add: store_in_group_def bind_res_def)
  then show ?thesis
    using assms k(2) by (auto simp: sql_replace_overview_def exec_ok number_room_def has_message_def)
qed

lemma store_groups_ok:
  "faults d = [] \<Longrightarrow> number_room (n + length gs) d \<Longrightarrow> has_message i d \<Longrightarrow>
     \<exists>d'. for_each (store_in_group X a i) gs d = (Inr (), d') \<and> faults d' = [] \<and> number_room n d'"
proof (induction gs arbitrary: d)
  case (Cons g gs)
  from store_in_group_succeeds [of d "n + length gs" i X a g] Cons.prems obtain d1 where
    1: "store_in_group X a i g d = (Inr (), d1)" "faults d1 = []" "number_room (n + length gs) d1"
      "has_message i d1" by auto
  with Cons.IH [OF 1(2-4)] show ?case by (auto simp: bind_res_def)
qed auto

lemma store_article_succeeds:
  assumes "faults d = []" and "extract_message_id a = Some i"
    and "number_room (n + length (parse_newsgroups_from_message a)) d"
  shows "\<exists>d'. store_article X a d = (Inr (), d') \<and> faults d' = [] \<and> number_room n d'"
proof -
  let ?row = "message_row_of X a i"
  obtain d1 where 1: "sql_insert_message ?row d = (Inr (), d1)" "faults d1 = []"
      "group_articles d1 = group_articles d" "has_message i d1"
    using assms(1) by (auto simp: sql_insert_message_def exec_ok has_message_def message_row_of_def)
  then have "number_room (n + length (parse_newsgroups_from_message a)) d1"
    using assms(3) by (simp add: number_room_def)
  from store_groups_ok [OF 1(2) this 1(4), of X a] 1(1) assms(2) show ?thesis
    by (auto simp: store_article_def bind_res_def)
qed

subsection \<open>Processing a validated article\<close>

definition deliverable :: "queued_article \<Rightarrow> bool" where
  "deliverable q \<longleftrightarrow> \<not> qa_is_control q \<and> qa_already_validated q \<and>
     (\<exists>i. extract_message_id (qa_message q) = Some i \<and> i \<noteq> [])"

text \<open>What processing promises: an unknown article is stored, a known one changes nothing.\<close>

definition spec_process :: "int \<Rightarrow> queued_article \<Rightarrow> spool \<Rightarrow> spool" where
  "spec_process now q S =
     (case extract_message_id (qa_message q) of
        None \<Rightarrow> S
      | Some i \<Rightarrow> if articles S i = None then spec_store now (qa_message q) i S else S)"

abbreviation group_count :: "queued_article \<Rightarrow> nat" where
  "group_count q \<equiv> length (parse_newsgroups_from_message (qa_message q))"

lemma process_deliverable:
  assumes "storage_ok X (storage w)" and "faults (storage w) = []" and "deliverable q"
    and "number_room (n + group_count q) (storage w)"
  shows "\<exists>d. process_article X q w = (Inr (), w\<lparr>storage := d\<rparr>) \<and>
     abs_spool X d = spec_process (timestamp (utc_now X)) q (abs_spool X (storage w)) \<and>
     storage_ok X d \<and> faults d = [] \<and> number_room n d"
proof -
  from assms(3) obtain i where i: "extract_message_id (qa_message q) = Some i" "i \<noteq> []"
    and q: "\<not> qa_is_control q" "qa_already_validated q" by (auto simp: deliverable_def)
  let ?found = "articles (abs_spool X (storage w)) i"
  have get: "on_storage (get_article_by_id X i) w = (Inr ?found, w)"
    using get_article_by_id_ok [OF assms(1,2)] by (simp add: on_storage_def)
  have proc: "process_article X q w =
      (if ?found \<noteq> None then (Inr (), w) else on_storage (store_article X (qa_message q)) w)"
    using q i get by (simp add: process_article_def store_if_new_def bind_res_def)
  show ?thesis
  proof (cases "?found = None")
    case False
    moreover have "number_room n (storage w)" using number_room_mono [OF assms(4)] by simp
    ultimately show ?thesis
      using proc assms(1,2) i by (intro exI [of _ "storage w"]) (auto simp: spec_process_def)
  next
    case True
    from store_article_succeeds [OF assms(2) i(1) assms(4)] obtain d where
      d: "store_article X (qa_message q) (storage w) = (Inr (), d)" "faults d = []" "number_room n d" by blast
    have "storage_ok X d" using keepsD' [OF storage_keeps(1) d(1) assms(1)] .
    with d refine_store [OF assms(1) d(1) i(1)] proc True i(1) show ?thesis
      by (auto simp: spec_process_def on_storage_def)
  qed
qed

subsection \<open>The workers\<close>

lemma worker_step_Cons:
  "queue_items (queue w) = q # qs \<Longrightarrow>
     worker_step X w = Some (snd (process_article X q (w\<lparr>queue := (queue w)\<lparr>queue_items := qs\<rparr>\<rparr>)))"
  by (simp add: worker_step_def)

lemma worker_task_drains:
  assumes "storage_ok X (storage w)" and "faults (storage w) = []" and "queue_items (queue w) = qs"
    and "list_all deliverable qs" and "number_room (sum_list (map group_count qs)) (storage w)"
  shows "\<exists>d. worker_task (length qs) X w =
             w\<lparr>storage := d, queue := (queue w)\<lparr>queue_items := []\<rparr>\<rparr> \<and>
     abs_spool X d = fold (spec_process (timestamp (utc_now X))) qs (abs_spool X (storage w)) \<and>
     storage_ok X d \<and> faults d = []"
  using assms
proof (induction qs arbitrary: w)
  case Nil
  then show ?case by (intro exI [of _ "storage w"]) (cases w; cases "queue w"; auto)
next
  case (Cons q qs)
  let ?w = "w\<lparr>queue := (queue w)\<lparr>queue_items := qs\<rparr>\<rparr>"
  from process_deliverable [of X ?w q "sum_list (map group_count qs)"] Cons.prems obtain d where
    d: "process_article X q ?w = (Inr (), ?w\<lparr>storage := d\<rparr>)"
      "abs_spool X d = spec_process (timestamp (utc_now X)) q (abs_spool X (storage w))"
      "storage_ok X d" "faults d = []" "number_room (sum_list (map group_count qs)) d"
    by (auto simp: add.commute)
  from Cons.IH [of "?w\<lparr>storage := d\<rparr>"] d Cons.prems worker_step_Cons [of w q qs X] show ?case by auto
qed

lemma articles_spec_process:
  "articles (spec_process now q S) j =
     (if articles S j = None \<and> extract_message_id (qa_message q) = Some j then Some (qa_message q)
      else articles S j)"
  by (auto simp: spec_process_def articles_spec_store split: option.splits)

lemma articles_fold_process:
  "articles (fold (spec_process now) qs S) j =
     (case articles S j of
        Some a \<Rightarrow> Some a
      | None \<Rightarrow> map_option qa_message (List.find (\<lambda>q. extract_message_id (qa_message q) = Some j) qs))"
  by (induction qs arbitrary: S) (auto simp: articles_spec_process split: option.splits)

subsection \<open>Invariants\<close>

text \<open>What the operations of a worker are made of: validation, storage operations that keep the storage
  invariant, and the authentication database. A property that these keep, the worker keeps.\<close>

definition worker_stable :: "ext \<Rightarrow> ('z server_scheme \<Rightarrow> bool) \<Rightarrow> bool" where
  "worker_stable X P \<longleftrightarrow>
     (\<forall>ks w w'. only_keys X ks w w' \<longrightarrow> P w \<longrightarrow> P w') \<and>
     (\<forall>m :: (db, unit) action. keeps (storage_ok X) m \<longrightarrow> keeps P (on_storage m)) \<and>
     (\<forall>i. keeps P (on_storage (get_article_by_id X i))) \<and>
     (\<forall>u. keeps P (on_auth (auth_is_admin u)))"

lemma worker_stable_parts:
  assumes "worker_stable X P"
  shows "moves (only_keys X ks) m \<Longrightarrow> keeps P m"
    and "keeps (storage_ok X) n \<Longrightarrow> keeps P (on_storage (n :: (db, unit) action))"
    and "keeps P (on_storage (get_article_by_id X i))"
    and "keeps P (on_auth (auth_is_admin u))"
  using assms unfolding worker_stable_def keeps_def moves_def by blast+

lemma keeps_handle_control:
  assumes "worker_stable X P"
  shows "keeps P (handle_control X msg cfg)"
proof -
  note parts = worker_stable_parts [OF assms]
  have cmd: "keeps P (apply_control X c)" for c
    by (cases c) (simp_all add: apply_control_def parts(2) storage_keeps)
  have key: "keeps P (handle_cancel_key X i k)" for i k
    unfolding handle_cancel_key_def
    by (intro keeps_intros parts(2,3) storage_keeps)
  have "keeps P (handle_signed_control X msg cfg c)" for c
    unfolding handle_signed_control_def Let_def
    by (intro keeps_intros parts(1) [OF moves_verify_pgp] parts(4) cmd)
  with key show ?thesis
    unfolding handle_control_def
    by (auto split: option.splits control_command.splits simp del: ret_simp throw_simp)
qed

lemma keeps_validate_with_filters:
  assumes "worker_stable X P"
  shows "keeps P (validate_article_with_filters X cfg a sz chain)"
  unfolding validate_article_with_filters_def filter_chain_validate_def
  by (rule worker_stable_parts(1) [OF assms filters.chain_moves])

lemma keeps_process_article:
  assumes "worker_stable X P"
  shows "keeps P (process_article X q)"
proof (rule keepsI)
  fix w assume P: "P w"
  note parts = worker_stable_parts [OF assms]
  have "keeps P (store_if_new X a)" for a
    unfolding store_if_new_def Let_def by (intro keeps_intros parts storage_keeps)
  then have "keeps P (bind_res
       (if qa_is_control q then handle_control X (qa_message q) (config w) else ret False)
       (\<lambda>handled.
          if handled then ret ()
          else bind_res
            (if \<not> qa_already_validated q
             then validate_article_with_filters X (config w) (qa_message q) (qa_size q)
                    (worker_filter_chain X (config w))
             else ret ())
            (\<lambda>_. store_if_new X (qa_message q))))"
    by (intro keeps_intros keeps_handle_control [OF assms] keeps_validate_with_filters [OF assms])
  from keepsD [OF this P] show "P (snd (process_article X q w))"
    by (simp add: process_article_def)
qed

lemma storage_ok_tables: "tables d' = tables d \<Longrightarrow> storage_ok X d \<Longrightarrow> storage_ok X d'"
  by (metis storage_ok_faults tables_def)

lemma get_article_by_id_keeps [storage_keeps]: "keeps (storage_ok X) (get_article_by_id X i)"
  by (rule keepsI) (metis get_article_by_id_view snd_conv storage_ok_faults)

lemma worker_stable_storage: "worker_stable X (\<lambda>w. storage_ok X (storage w))"
  unfolding worker_stable_def
proof (intro conjI allI impI)
  show "keeps (\<lambda>w. storage_ok X (storage w)) (on_auth (auth_is_admin u))" for u
    by (rule keeps_on_auth_frame) simp
qed (auto simp: only_keys_def intro: storage_ok_tables keeps_on_storage storage_keeps)

lemma worker_stable_queue: "worker_stable X (\<lambda>w. queue w = c)"
  unfolding worker_stable_def
  by (auto simp: only_keys_def intro!: keeps_on_storage_frame keeps_on_auth_frame)

text \<open>Sends and the turns of the workers, in any order.\<close>

inductive pool_run :: "ext \<Rightarrow> server \<Rightarrow> server \<Rightarrow> bool" for X w where
  start: "pool_run X w w"
| submitted: "pool_run X w w' \<Longrightarrow> submit q w' = Some (r, w'') \<Longrightarrow> pool_run X w w''"
| worked: "pool_run X w w' \<Longrightarrow> worker_step X w' = Some w'' \<Longrightarrow> pool_run X w w''"

definition pool_ok :: "ext \<Rightarrow> server \<Rightarrow> bool" where
  "pool_ok X w \<longleftrightarrow> storage_ok X (storage w) \<and> queue_len (queue w) \<le> queue_capacity (queue w)"

lemma pool_ok_submit: "pool_ok X w \<Longrightarrow> submit q w = Some (r, w') \<Longrightarrow> pool_ok X w' \<and> r = Inr ()"
  by (auto simp: pool_ok_def submit_def queue_len_def split: if_splits)

lemma pool_ok_worker:
  assumes "pool_ok X w" and "worker_step X w = Some w'"
  shows "pool_ok X w' \<and> (\<exists>q. queue_items (queue w) = q # queue_items (queue w'))"
proof -
  from assms(2) obtain q qs where q: "queue_items (queue w) = q # qs"
    by (auto simp: worker_step_def split: list.splits)
  let ?c = "(queue w)\<lparr>queue_items := qs\<rparr>"
  have w': "w' = snd (process_article X q (w\<lparr>queue := ?c\<rparr>))"
    using assms(2) worker_step_Cons [OF q] by simp
  have "queue w' = ?c"
    unfolding w' by (rule keepsD [OF keeps_process_article [OF worker_stable_queue]]) simp
  moreover have "storage_ok X (storage w')"
    unfolding w' using assms(1)
    by (intro keepsD [OF keeps_process_article [OF worker_stable_storage]]) (simp add: pool_ok_def)
  ultimately show ?thesis using assms(1) q by (simp add: pool_ok_def queue_len_def)
qed

subsection \<open>Properties\<close>

text \<open>However sends and workers interleave, control messages and failing statements included, the
  queue never holds more articles than its capacity, and the storage keeps its invariant.\<close>

theorem pool_keeps_invariant:
  assumes "pool_run X w w'" and "storage_ok X (storage w)"
    and "queue_len (queue w) \<le> queue_capacity (queue w)"
  shows "queue_len (queue w') \<le> queue_capacity (queue w') \<and> storage_ok X (storage w')"
proof -
  from assms(1) have "pool_ok X w'"
  proof induction
    case start
    show ?case using assms(2,3) by (simp add: pool_ok_def)
  next
    case submitted
    then show ?case using pool_ok_submit by blast
  next
    case worked
    then show ?case using pool_ok_worker by blast
  qed
  then show ?thesis by (simp add: pool_ok_def)
qed

definition queued_post :: queued_article where
  "queued_post = \<lparr>qa_message = \<lparr>headers = (''Message-ID'', ''<p@x>'') # headers demo_post, body = body demo_post\<rparr>,
     qa_size = 2, qa_is_control = False, qa_already_validated = True\<rparr>"

theorem pool_keeps_invariant_witness:
  "queue_len (queue (snd (the (submit queued_post sample_server)))) \<le> 2 \<and>
   storage_ok sample_ext (storage (snd (the (submit queued_post sample_server))))"
proof -
  have "submit queued_post sample_server = Some (the (submit queued_post sample_server))"
    by (simp add: submit_def sample_server_def queue_len_def)
  then have "pool_run sample_ext sample_server (snd (the (submit queued_post sample_server)))"
    by (metis pool_run.start pool_run.submitted prod.collapse)
  from pool_keeps_invariant [OF this] storage_ok_sample show ?thesis
    by (simp add: sample_server_def queue_len_def submit_def)
qed


definition posted_server :: server where
  "posted_server = snd (the (submit queued_post sample_server))"


end
