(* ===== verification/Retention.thy ===== *)
theory Retention
  imports Server
begin

text \<open>
  Retention, \<^verbatim>\<open>src/src/retention.rs\<close>: for each group the articles older than its retention period go, then the
  articles whose Expires header has passed, and at the end the messages that no group refers to any
  more. An error in one group is logged and the next group is looked at; a panic is not an error.
\<close>

text \<open>Subtracting a duration from a time panics outside the years chrono can represent, -262143 to
  262142.\<close>

definition datetime_minus :: "datetime \<Rightarrow> int \<Rightarrow> datetime result" where
  "datetime_minus t dur =
     (if -8334601228800 * 1000000000 \<le> t - dur \<and> t - dur < 8210266876800 * 1000000000
      then Inr (t - dur) else Inl Panic)"

definition parse_expires_header :: "ext \<Rightarrow> message \<Rightarrow> datetime option" where
  "parse_expires_header X msg =
     Option.bind (List.find (\<lambda>(k, _). eq_ignore_ascii_case k ''Expires'') (headers msg)) (\<lambda>(_, v).
       case chrono_parse_rfc2822 X v of
         Some t \<Rightarrow> Some t
       | None \<Rightarrow> chrono_parse_rfc3339 X v)"

definition cleanup_group_by_retention :: "ext \<Rightarrow> config \<Rightarrow> string \<Rightarrow> datetime \<Rightarrow> (db, unit) action" where
  "cleanup_group_by_retention X cfg grp now =
     (case retention_for_group X cfg grp of
        Inl e \<Rightarrow> throw e
      | Inr None \<Rightarrow> ret ()
      | Inr (Some retention_duration) \<Rightarrow>
          if 0 < num_seconds retention_duration
          then (case datetime_minus now retention_duration of
                  Inl e \<Rightarrow> throw e
                | Inr cutoff \<Rightarrow>
                    catch_res (purge_group_before grp cutoff)
                      (\<lambda>_. throw (Anyhow ''Failed to purge old articles from group''))
                      (\<lambda>_. ret ()))
          else ret ())"

definition is_expired :: "ext \<Rightarrow> datetime \<Rightarrow> message \<Rightarrow> bool" where
  "is_expired X now article \<longleftrightarrow>
     (case parse_expires_header X article of None \<Rightarrow> False | Some t \<Rightarrow> t \<le> now)"

text \<open>The loop over the articles of a group; its result counts the deleted ones.\<close>

fun expire_articles :: "ext \<Rightarrow> datetime \<Rightarrow> string list \<Rightarrow> nat \<Rightarrow> (db, nat) action" where
  "expire_articles X now [] expired_count d = (Inr expired_count, d)"
| "expire_articles X now (i # ids) expired_count d =
     catch_res (get_article_by_id X i)
       (\<lambda>_. expire_articles X now ids expired_count)
       (\<lambda>found.
          case found of
            Some article \<Rightarrow>
              if is_expired X now article
              then catch_res (delete_article_by_id i)
                     (\<lambda>_. expire_articles X now ids expired_count)
                     (\<lambda>_. expire_articles X now ids (expired_count + 1))
              else expire_articles X now ids expired_count
          | None \<Rightarrow> expire_articles X now ids expired_count) d"

definition cleanup_group_by_expires_header :: "ext \<Rightarrow> string \<Rightarrow> datetime \<Rightarrow> (db, nat) action" where
  "cleanup_group_by_expires_header X grp now =
     bind_res (list_article_ids grp) (\<lambda>ids. expire_articles X now ids 0)"

definition cleanup_group :: "ext \<Rightarrow> config \<Rightarrow> datetime \<Rightarrow> string \<Rightarrow> (db, unit) action" where
  "cleanup_group X cfg now grp =
     bind_res (catch_res (cleanup_group_by_retention X cfg grp now) (\<lambda>_. ret ()) ret) (\<lambda>_.
       catch_res (cleanup_group_by_expires_header X grp now) (\<lambda>_. ret ()) (\<lambda>_. ret ()))"

definition cleanup_expired_articles :: "ext \<Rightarrow> config \<Rightarrow> (db, unit) action" where
  "cleanup_expired_articles X cfg =
     bind_res list_groups (\<lambda>names.
     bind_res (for_each (cleanup_group X cfg (utc_now X)) names) (\<lambda>_.
     purge_orphan_messages))"

end
