(* ===== verification/Retention_Properties.thy ===== *)
theory Retention_Properties
  imports Retention Control_Properties
begin

text \<open>
  Retention removes what it should and nothing else. The proof follows the abstract spool: \<open>narrowed\<close> relates the
  spool before the cleanup to the one after some of the groups were cleaned.
\<close>

subsection \<open>Storage operations that cannot fail\<close>

lemma delete_article_ok:
  assumes "faults d = []"
  shows "\<exists>d'. delete_article_by_id i d = (Inr (), d') \<and> faults d' = []"
  using assms by (simp add: delete_article_by_id_def sql_delete_group_articles_def sql_delete_orphans_def
      bind_res_def exec_ok)

lemma purge_group_ok:
  assumes "faults d = []"
  shows "\<exists>d'. purge_group_before g t d = (Inr (), d') \<and> faults d' = []"
  using assms by (simp add: purge_group_before_def sql_delete_group_articles_def exec_ok)

lemma purge_orphans_ok:
  assumes "faults d = []"
  shows "\<exists>d'. purge_orphan_messages d = (Inr (), d') \<and> faults d' = []"
  using assms by (simp add: purge_orphan_messages_def sql_delete_orphans_def exec_ok)

subsection \<open>The policy\<close>

text \<open>The time before which articles of a group are too old; \<open>None\<close> when the group has no retention period.\<close>

definition cutoff_of :: "ext \<Rightarrow> config \<Rightarrow> string \<Rightarrow> datetime option" where
  "cutoff_of X cfg g =
     (case retention_for_group X cfg g of
        Inr (Some dur) \<Rightarrow> if 0 < num_seconds dur then Some (utc_now X - dur) else None
      | _ \<Rightarrow> None)"

text \<open>The configured periods are within the range of times.\<close>

definition retention_ok :: "ext \<Rightarrow> config \<Rightarrow> bool" where
  "retention_ok X cfg \<longleftrightarrow>
     (\<forall>g. \<exists>dur. retention_for_group X cfg g = Inr dur \<and>
        (case dur of None \<Rightarrow> True | Some t \<Rightarrow> is_ok (datetime_minus (utc_now X) t)))"

definition too_old :: "ext \<Rightarrow> config \<Rightarrow> string \<Rightarrow> int \<Rightarrow> bool" where
  "too_old X cfg g inserted_at \<longleftrightarrow>
     (case cutoff_of X cfg g of None \<Rightarrow> False | Some t \<Rightarrow> inserted_at < timestamp t)"

definition expired_in :: "ext \<Rightarrow> spool \<Rightarrow> string \<Rightarrow> bool" where
  "expired_in X S i \<longleftrightarrow> (\<exists>a. articles S i = Some a \<and> is_expired X (utc_now X) a)"

text \<open>\<open>narrowed\<close>: entries only go, those with \<open>must\<close> are gone, those without \<open>may\<close> are there, and at most expired articles
  are gone.\<close>

type_synonym entry_pred = "string \<times> int \<Rightarrow> string \<times> int \<Rightarrow> bool"

definition narrowed :: "ext \<Rightarrow> entry_pred \<Rightarrow> entry_pred \<Rightarrow> spool \<Rightarrow> spool \<Rightarrow> bool" where
  "narrowed X may must S0 S \<longleftrightarrow>
     active S = active S0 \<and>
     (\<forall>k e. index S k = Some e \<longrightarrow> index S0 k = Some e \<and> \<not> must k e) \<and>
     (\<forall>k e. index S0 k = Some e \<longrightarrow> \<not> may k e \<longrightarrow> index S k = Some e) \<and>
     (\<forall>i. articles S i = articles S0 i \<or> expired_in X S0 i \<and> articles S i = None)"

lemma narrowedI:
  assumes "active S = active S0"
    and "\<And>k e. index S k = Some e \<Longrightarrow> index S0 k = Some e"
    and "\<And>k e. index S k = Some e \<Longrightarrow> \<not> must k e"
    and "\<And>k e. index S0 k = Some e \<Longrightarrow> \<not> may k e \<Longrightarrow> index S k = Some e"
    and "\<And>i. articles S i = articles S0 i \<or> expired_in X S0 i \<and> articles S i = None"
  shows "narrowed X may must S0 S"
  using assms unfolding narrowed_def by blast

lemma narrowedD:
  assumes "narrowed X may must S0 S"
  shows "active S = active S0"
    and "index S k = Some e \<Longrightarrow> index S0 k = Some e"
    and "index S k = Some e \<Longrightarrow> \<not> must k e"
    and "index S0 k = Some e \<Longrightarrow> \<not> may k e \<Longrightarrow> index S k = Some e"
    and "articles S i = articles S0 i \<or> expired_in X S0 i \<and> articles S i = None"
  using assms unfolding narrowed_def by blast+

definition may_go :: "ext \<Rightarrow> config \<Rightarrow> spool \<Rightarrow> string set \<Rightarrow> entry_pred" where
  "may_go X cfg S0 gs k e \<longleftrightarrow> expired_in X S0 (fst e) \<or> fst k \<in> gs \<and> too_old X cfg (fst k) (snd e)"

text \<open>In the groups \<open>gs\<close> what is old or expired is gone; in \<open>g\<close>, the group that is looked at, of the expired articles
  those in \<open>todo\<close> may be left.\<close>

definition must_go :: "ext \<Rightarrow> config \<Rightarrow> spool \<Rightarrow> string set \<Rightarrow> entry_pred" where
  "must_go X cfg S0 gs k e \<longleftrightarrow>
     fst k \<in> gs \<and> (too_old X cfg (fst k) (snd e) \<or> expired_in X S0 (fst e))"

definition must_go_in :: "ext \<Rightarrow> config \<Rightarrow> spool \<Rightarrow> string set \<Rightarrow> string \<Rightarrow> string set \<Rightarrow> entry_pred" where
  "must_go_in X cfg S0 gs g todo k e \<longleftrightarrow>
     must_go X cfg S0 gs k e \<or>
     fst k = g \<and> (too_old X cfg (fst k) (snd e) \<or> expired_in X S0 (fst e) \<and> fst e \<notin> todo)"

lemma must_go_in_done: "must_go_in X cfg S0 gs g {} = must_go X cfg S0 (insert g gs)"
  by (auto simp: fun_eq_iff must_go_in_def must_go_def)

lemma narrowed_start: "narrowed X (may_go X cfg S {}) (must_go X cfg S {}) S S"
  by (simp add: narrowed_def must_go_def)

subsection \<open>Steps on the spool\<close>

lemma index_drop_entries:
  "index (spec_drop_entries p S) k = Some e \<longleftrightarrow> index S k = Some e \<and> \<not> p k e"
  by (auto simp: spec_drop_entries_def split: option.splits)

lemma spec_drop_entries_other [simp]:
  "articles (spec_drop_entries p S) = articles S" "active (spec_drop_entries p S) = active S"
  by (simp_all add: spec_drop_entries_def)

lemma spec_drop_orphans_other [simp]:
  "index (spec_drop_orphans p S) = index S" "active (spec_drop_orphans p S) = active S"
  by (simp_all add: spec_drop_orphans_def)

lemma narrowed_drop:
  assumes "narrowed X may must S0 S"
    and "\<And>k e. may k e \<or> p k e \<Longrightarrow> may' k e"
    and "\<And>k e. index S k = Some e \<Longrightarrow> must' k e \<Longrightarrow> must k e \<or> p k e"
  shows "narrowed X may' must' S0 (spec_drop_entries p S)"
proof (rule narrowedI)
  note D = narrowedD [OF assms(1)]
  show "active (spec_drop_entries p S) = active S0" using D(1) by simp
  show "index S0 k = Some e" if "index (spec_drop_entries p S) k = Some e" for k e
    using that D(2) unfolding index_drop_entries by blast
  show "\<not> must' k e" if "index (spec_drop_entries p S) k = Some e" for k e
    using that D(3) assms(3) unfolding index_drop_entries by blast
  show "index (spec_drop_entries p S) k = Some e" if "index S0 k = Some e" "\<not> may' k e" for k e
    using that D(4) assms(2) unfolding index_drop_entries by blast
  show "articles (spec_drop_entries p S) i = articles S0 i \<or>
      expired_in X S0 i \<and> articles (spec_drop_entries p S) i = None" for i
    using D(5) by simp
qed

lemma narrowed_must:
  assumes "narrowed X may must S0 S" and "\<And>k e. index S k = Some e \<Longrightarrow> must' k e \<Longrightarrow> must k e"
  shows "narrowed X may must' S0 S"
  using assms unfolding narrowed_def by blast

lemma narrowed_orphan:
  assumes "narrowed X may must S0 S" and "expired_in X S0 i" and "articles T = (articles S)(i := None)"
    and "index T = index S" and "active T = active S"
  shows "narrowed X may must S0 T"
proof (rule narrowedI)
  note D = narrowedD [OF assms(1)]
  show "articles T j = articles S0 j \<or> expired_in X S0 j \<and> articles T j = None" for j
    using D(5) [of j] assms(2,3) by auto
qed (use assms(4,5) narrowedD [OF assms(1)] in metis)+

lemma index_spec_delete: "index (spec_delete i S) = index (spec_drop_entries (\<lambda>_ e. fst e = i) S)"
  by (simp add: spec_delete_def)

lemma active_spec_delete [simp]: "active (spec_delete i S) = active S"
  by (simp add: spec_delete_def)

lemma narrowed_purge:
  assumes "narrowed X (may_go X cfg S0 gs) (must_go X cfg S0 gs) S0 S"
    and "\<And>k e. p k e \<longleftrightarrow> fst k = g \<and> too_old X cfg g (snd e)"
    and "\<And>n e. index S (g, n) = Some e \<Longrightarrow> \<not> too_old X cfg g (snd e) \<Longrightarrow> fst e \<in> todo"
  shows "narrowed X (may_go X cfg S0 (insert g gs)) (must_go_in X cfg S0 gs g todo) S0 (spec_drop_entries p S)"
proof (rule narrowed_drop [OF assms(1)])
  fix k e assume "index S k = Some e" and "must_go_in X cfg S0 gs g todo k e"
  with assms(3) [of "snd k" e] show "must_go X cfg S0 gs k e \<or> p k e"
    by (cases k) (auto simp: must_go_in_def assms(2))
qed (auto simp: may_go_def assms(2))

lemma narrowed_delete:
  assumes "narrowed X may (must_go_in X cfg S0 gs g (insert i todo)) S0 S"
    and "expired_in X S0 i" and "\<And>k e. expired_in X S0 (fst e) \<Longrightarrow> may k e"
  shows "narrowed X may (must_go_in X cfg S0 gs g todo) S0 (spec_delete i S)"
proof (rule narrowed_orphan [OF _ assms(2) _ index_spec_delete])
  show "narrowed X may (must_go_in X cfg S0 gs g todo) S0 (spec_drop_entries (\<lambda>_ e. fst e = i) S)"
    by (rule narrowed_drop [OF assms(1)]) (use assms(2,3) in \<open>auto simp: must_go_in_def\<close>)
qed (simp_all add: articles_spec_delete)

lemma narrowed_skip:
  assumes "narrowed X may (must_go_in X cfg S0 gs g (insert i todo)) S0 S"
    and "\<And>a. articles S i = Some a \<Longrightarrow> \<not> is_expired X (utc_now X) a"
    and "\<And>k e. index S k = Some e \<Longrightarrow> articles S (fst e) \<noteq> None"
  shows "narrowed X may (must_go_in X cfg S0 gs g todo) S0 S"
proof (rule narrowed_must [OF assms(1)])
  fix k e assume k: "index S k = Some e" and must: "must_go_in X cfg S0 gs g todo k e"
  have "\<not> expired_in X S0 i" if "fst e = i"
  proof -
    have "articles S i \<noteq> None" using assms(3) [OF k] that by simp
    moreover have "articles S i = articles S0 i \<or> articles S i = None"
      using narrowedD(5) [OF assms(1), of i] by (elim disjE) simp_all
    ultimately show ?thesis using assms(2) by (auto simp: expired_in_def)
  qed
  with must show "must_go_in X cfg S0 gs g (insert i todo) k e" by (auto simp: must_go_in_def)
qed

text \<open>An entry of a group refers to a stored article.\<close>

lemma index_article:
  assumes "storage_ok X d" and "index (abs_spool X d) k = Some e"
  shows "articles (abs_spool X d) (fst e) \<noteq> None"
proof -
  from assms(2) obtain r where "r \<in> set (group_articles d)" "fst e = ga_message_id r"
    by (auto simp: abs_spool_def dest!: find_SomeD)
  with assms(1) have "list_ex (\<lambda>m. m_message_id m = fst e) (messages d)"
    by (force simp: storage_ok_def db_ok_def list_ex_iff)
  with assms(1) articles_None [of X d "fst e"] show ?thesis by (simp add: storage_ok_def)
qed

subsection \<open>Cleaning the groups\<close>

text \<open>The states between the statements of a cleanup in which nothing fails.\<close>

definition clean_state :: "ext \<Rightarrow> entry_pred \<Rightarrow> entry_pred \<Rightarrow> spool \<Rightarrow> db \<Rightarrow> bool" where
  "clean_state X may must S0 d \<longleftrightarrow>
     storage_ok X d \<and> faults d = [] \<and> narrowed X may must S0 (abs_spool X d)"

lemma expire_articles_clean:
  assumes "clean_state X may (must_go_in X cfg S0 gs g (set ids)) S0 d"
    and "\<And>k e. expired_in X S0 (fst e) \<Longrightarrow> may k e"
  shows "\<exists>c d'. expire_articles X (utc_now X) ids n d = (Inr c, d') \<and>
           clean_state X may (must_go_in X cfg S0 gs g {}) S0 d'"
  using assms(1)
proof (induction ids arbitrary: n d)
  case (Cons i ids)
  let ?S = "abs_spool X d"
  have ok: "storage_ok X d" "faults d = []" and
    nar: "narrowed X may (must_go_in X cfg S0 gs g (insert i (set ids))) S0 ?S"
    using Cons.prems by (simp_all add: clean_state_def)
  note get = get_article_by_id_ok [OF ok, of i]
  show ?case
  proof (cases "\<exists>a. articles ?S i = Some a \<and> is_expired X (utc_now X) a")
    case True
    then obtain a where a: "articles ?S i = Some a" "is_expired X (utc_now X) a" by blast
    from delete_article_ok [OF ok(2)] obtain d1 where
      d1: "delete_article_by_id i d = (Inr (), d1)" "faults d1 = []" by blast
    have "expired_in X S0 i" using narrowedD(5) [OF nar, of i] a by (metis expired_in_def option.distinct(1))
    then have "narrowed X may (must_go_in X cfg S0 gs g (set ids)) S0 (abs_spool X d1)"
      using refine_delete [OF _ d1(1)] ok(1) narrowed_delete [OF nar _ assms(2)] by (simp add: storage_ok_def)
    moreover have "storage_ok X d1" using keepsD' [OF storage_keeps(3) d1(1) ok(1)] .
    ultimately have "clean_state X may (must_go_in X cfg S0 gs g (set ids)) S0 d1"
      using d1(2) by (simp add: clean_state_def)
    from Cons.IH [OF this] show ?thesis using get a d1(1) by (auto simp: catch_res_def)
  next
    case False
    then have "narrowed X may (must_go_in X cfg S0 gs g (set ids)) S0 ?S"
      using narrowed_skip [OF nar] index_article [OF ok(1)] by blast
    then have "clean_state X may (must_go_in X cfg S0 gs g (set ids)) S0 d"
      using ok by (simp add: clean_state_def)
    from Cons.IH [OF this] show ?thesis using get False by (auto simp: catch_res_def split: option.splits)
  qed
qed (auto simp: clean_state_def)

lemma cleanup_retention_clean:
  assumes "clean_state X (may_go X cfg S0 gs) (must_go X cfg S0 gs) S0 d" and "retention_ok X cfg"
  shows "\<exists>d'. cleanup_group_by_retention X cfg g (utc_now X) d = (Inr (), d') \<and>
     clean_state X (may_go X cfg S0 (insert g gs))
       (must_go_in X cfg S0 gs g (ga_message_id ` set (group_rows g d'))) S0 d'"
proof -
  have ok: "storage_ok X d" "faults d = []"
    and nar: "narrowed X (may_go X cfg S0 gs) (must_go X cfg S0 gs) S0 (abs_spool X d)"
    using assms(1) by (simp_all add: clean_state_def)
  have todo: "fst e \<in> ga_message_id ` set (group_rows g d1)"
    if "index (abs_spool X d1) (g, n) = Some e" for d1 n e
    using that by (auto simp: abs_spool_def set_group_rows dest!: find_SomeD)
  let ?p = "\<lambda>k e. fst k = g \<and> too_old X cfg g (snd e)"
  obtain dur where dur: "retention_for_group X cfg g = Inr dur"
    "dur \<noteq> None \<Longrightarrow> is_ok (datetime_minus (utc_now X) (the dur))"
    using assms(2) by (force simp: retention_ok_def split: option.splits)
  have step: "clean_state X (may_go X cfg S0 (insert g gs))
      (must_go_in X cfg S0 gs g (ga_message_id ` set (group_rows g d1))) S0 d1"
    if "storage_ok X d1" "faults d1 = []" "abs_spool X d1 = spec_drop_entries ?p (abs_spool X d)" for d1
  proof -
    have "index (abs_spool X d) (g, n) = Some e \<Longrightarrow> \<not> too_old X cfg g (snd e) \<Longrightarrow>
        fst e \<in> ga_message_id ` set (group_rows g d1)" for n e
      by (rule todo [of d1 n]) (simp add: that(3) index_drop_entries)
    from narrowed_purge [OF nar, of ?p g, OF refl this] that show ?thesis by (simp add: clean_state_def)
  qed
  show ?thesis
  proof (cases "cutoff_of X cfg g")
    case None
    then have "cleanup_group_by_retention X cfg g (utc_now X) d = (Inr (), d)"
      using dur(1) by (auto simp: cleanup_group_by_retention_def cutoff_of_def split: option.splits if_splits)
    moreover have "spec_drop_entries ?p (abs_spool X d) = abs_spool X d"
      using None by (auto simp: spec_drop_entries_def too_old_def fun_eq_iff split: option.splits)
    ultimately show ?thesis using step [OF ok] by auto
  next
    case (Some t)
    from purge_group_ok [OF ok(2)] obtain d1 where
      d1: "purge_group_before g t d = (Inr (), d1)" "faults d1 = []" by blast
    have "cleanup_group_by_retention X cfg g (utc_now X) d = (Inr (), d1)"
      using dur Some d1(1)
      by (auto simp: cleanup_group_by_retention_def cutoff_of_def datetime_minus_def catch_res_def
          split: option.splits if_splits)
    moreover have "abs_spool X d1 = spec_drop_entries ?p (abs_spool X d)"
      using refine_purge [OF _ d1(1)] ok(1) Some by (simp add: storage_ok_def spec_purge_def too_old_def)
    moreover have "storage_ok X d1" using keepsD' [OF storage_keeps(4) d1(1) ok(1)] .
    ultimately show ?thesis using step d1(2) by blast
  qed
qed

lemma cleanup_group_clean:
  assumes "clean_state X (may_go X cfg S0 gs) (must_go X cfg S0 gs) S0 d" and "retention_ok X cfg"
  shows "\<exists>d'. cleanup_group X cfg (utc_now X) g d = (Inr (), d') \<and>
     clean_state X (may_go X cfg S0 (insert g gs)) (must_go X cfg S0 (insert g gs)) S0 d'"
proof -
  from cleanup_retention_clean [OF assms] obtain d1 where
    1: "cleanup_group_by_retention X cfg g (utc_now X) d = (Inr (), d1)" and
    c1: "clean_state X (may_go X cfg S0 (insert g gs))
       (must_go_in X cfg S0 gs g (ga_message_id ` set (group_rows g d1))) S0 d1" by blast
  have "list_article_ids g d1 = (Inr (map ga_message_id (group_rows g d1)), d1)"
    using c1 by (simp add: list_article_ids_def select_ok clean_state_def)
  moreover obtain c d2 where
    "expire_articles X (utc_now X) (map ga_message_id (group_rows g d1)) 0 d1 = (Inr c, d2)"
    "clean_state X (may_go X cfg S0 (insert g gs)) (must_go_in X cfg S0 gs g {}) S0 d2"
    using expire_articles_clean [of X "may_go X cfg S0 (insert g gs)" cfg S0 gs g
        "map ga_message_id (group_rows g d1)" d1 0] c1
    by (auto simp: may_go_def)
  ultimately show ?thesis
    using 1 by (auto simp: cleanup_group_def cleanup_group_by_expires_header_def bind_res_def catch_res_def
        must_go_in_done)
qed

lemma cleanup_groups_clean:
  assumes "clean_state X (may_go X cfg S0 gs) (must_go X cfg S0 gs) S0 d" and "retention_ok X cfg"
  shows "\<exists>d'. for_each (cleanup_group X cfg (utc_now X)) names d = (Inr (), d') \<and>
     clean_state X (may_go X cfg S0 (gs \<union> set names)) (must_go X cfg S0 (gs \<union> set names)) S0 d'"
  using assms(1)
proof (induction names arbitrary: gs d)
  case (Cons g names)
  from cleanup_group_clean [OF Cons.prems assms(2), of g] Cons.IH show ?case
    by (fastforce simp: bind_res_def)
qed auto

lemma keeps_cleanup:
  "keeps (storage_ok X) (cleanup_expired_articles X cfg)"
proof -
  have get: "keeps (storage_ok X) (get_article_by_id X i)" for i
    by (rule keepsI) (metis get_article_by_id_view snd_conv storage_ok_faults)
  have expire: "keeps (storage_ok X) (expire_articles X now ids n)" for now ids n
  proof (induction ids arbitrary: n)
    case Nil
    then show ?case by (simp add: keeps_def)
  next
    case (Cons i ids)
    have eq: "expire_articles X now (i # ids) n =
        catch_res (get_article_by_id X i) (\<lambda>_. expire_articles X now ids n) (\<lambda>found.
          case found of
            Some article \<Rightarrow>
              if is_expired X now article
              then catch_res (delete_article_by_id i) (\<lambda>_. expire_articles X now ids n)
                     (\<lambda>_. expire_articles X now ids (n + 1))
              else expire_articles X now ids n
          | None \<Rightarrow> expire_articles X now ids n)" by (simp add: fun_eq_iff)
    show ?case unfolding eq by (intro keeps_intros Cons.IH get storage_keeps)
  qed
  have grp: "keeps (storage_ok X) (cleanup_group X cfg now g)" for now g
    unfolding cleanup_group_def cleanup_group_by_retention_def cleanup_group_by_expires_header_def list_article_ids_def
    by (intro keeps_intros expire storage_keeps storage_ok_faults)
  show ?thesis
    unfolding cleanup_expired_articles_def list_groups_def
    by (intro keeps_intros grp storage_keeps storage_ok_faults)
qed

subsection \<open>Properties\<close>

text \<open>C21: a cleanup keeps the storage invariant, whatever fails in it. When nothing fails and the
  configured periods are within the range of times, it succeeds; of the entries of each group it removes
  exactly those that are older than the retention period of the group or whose article has an Expires
  time that has passed; entries that stay are unchanged, an article that some entry still refers to is
  kept, and no article is kept without an entry.\<close>

theorem cleanup_removes_exactly_the_expired:
  assumes "storage_ok X d"
  shows "storage_ok X (snd (cleanup_expired_articles X cfg d)) \<and>
    (faults d = [] \<longrightarrow> retention_ok X cfg \<longrightarrow>
      (\<exists>d'. cleanup_expired_articles X cfg d = (Inr (), d') \<and>
        (\<forall>g n i t. g \<in> dom (active (abs_spool X d)) \<longrightarrow>
           index (abs_spool X d') (g, n) = Some (i, t) \<longleftrightarrow>
           index (abs_spool X d) (g, n) = Some (i, t) \<and> \<not> too_old X cfg g t \<and>
           \<not> expired_in X (abs_spool X d) i) \<and>
        (\<forall>i. articles (abs_spool X d') i =
           (if i \<in> fst ` ran (index (abs_spool X d')) then articles (abs_spool X d) i else None))))"
proof (intro conjI impI)
  show "storage_ok X (snd (cleanup_expired_articles X cfg d))" using keepsD [OF keeps_cleanup assms] .
  assume nofault: "faults d = []" and ret_ok: "retention_ok X cfg"
  let ?S0 = "abs_spool X d" and ?names = "map g_name (sort_key g_name (groups d))"
  have "clean_state X (may_go X cfg ?S0 {}) (must_go X cfg ?S0 {}) ?S0 d"
    using assms nofault narrowed_start by (simp add: clean_state_def)
  from cleanup_groups_clean [OF this ret_ok, of ?names] obtain d1 where
    1: "for_each (cleanup_group X cfg (utc_now X)) ?names d = (Inr (), d1)" and
    c: "clean_state X (may_go X cfg ?S0 (set ?names)) (must_go X cfg ?S0 (set ?names)) ?S0 d1" by auto
  from c obtain d2 where 2: "purge_orphan_messages d1 = (Inr (), d2)"
    using purge_orphans_ok [of d1] by (auto simp: clean_state_def)
  have "list_groups d = (Inr ?names, d)" using nofault by (simp add: list_groups_def select_ok)
  with 1 2 have "cleanup_expired_articles X cfg d = (Inr (), d2)"
    by (simp add: cleanup_expired_articles_def bind_res_def)
  moreover have S2: "abs_spool X d2 = spec_drop_orphans (\<lambda>_. True) (abs_spool X d1)"
    using refine_purge_orphans [OF _ 2] c by (simp add: clean_state_def storage_ok_def)
  have nar: "narrowed X (may_go X cfg ?S0 (set ?names)) (must_go X cfg ?S0 (set ?names)) ?S0 (abs_spool X d1)"
    using c by (simp add: clean_state_def)
  note N = narrowedD [OF nar]
  have names: "g \<in> set ?names" if "g \<in> dom (active ?S0)" for g
    using that by (auto simp: abs_spool_def dest!: find_SomeD)
  have "index (abs_spool X d2) (g, n) = Some (i, t) \<longleftrightarrow>
      index ?S0 (g, n) = Some (i, t) \<and> \<not> too_old X cfg g t \<and> \<not> expired_in X ?S0 i"
    if "g \<in> dom (active ?S0)" for g n i t
    using N(2-4) [of "(g, n)" "(i, t)"] names [OF that] unfolding S2 may_go_def must_go_def
    by (auto simp del: set_map)
  moreover have "articles (abs_spool X d2) i =
      (if i \<in> fst ` ran (index (abs_spool X d2)) then articles ?S0 i else None)" for i
  proof (cases "i \<in> fst ` ran (index (abs_spool X d1))")
    case True
    then obtain k e where "index (abs_spool X d1) k = Some e" "fst e = i" by (auto simp: ran_def)
    then have "articles (abs_spool X d1) i \<noteq> None"
      using index_article [of X d1 k e] c by (simp add: clean_state_def)
    with N(5) [of i] True show ?thesis by (auto simp: S2 spec_drop_orphans_def)
  qed (simp add: S2 spec_drop_orphans_def)
  ultimately show "\<exists>d'. cleanup_expired_articles X cfg d = (Inr (), d') \<and>
        (\<forall>g n i t. g \<in> dom (active ?S0) \<longrightarrow>
           index (abs_spool X d') (g, n) = Some (i, t) \<longleftrightarrow>
           index ?S0 (g, n) = Some (i, t) \<and> \<not> too_old X cfg g t \<and> \<not> expired_in X ?S0 i) \<and>
        (\<forall>i. articles (abs_spool X d') i =
           (if i \<in> fst ` ran (index (abs_spool X d')) then articles ?S0 i else None))"
    by blast
qed

definition aged_article :: message where
  "aged_article = \<lparr>headers = [(''Message-ID'', ''<old@x>''), (''Newsgroups'', ''misc.test''), (''Expires'', ''5'')],
     body = ''old''\<rparr>"

definition aged_db :: db where
  "aged_db = snd (store_article sample_ext aged_article sample_db)"

lemma retention_ok_sample: "retention_ok sample_ext sample_config"
  by (simp add: retention_ok_def retention_for_group_def sample_config_def)

theorem cleanup_removes_exactly_the_expired_witness:
  "index (abs_spool sample_ext aged_db) (''misc.test'', 1) = Some (''<old@x>'', 1700000000) \<and>
   index (abs_spool sample_ext (snd (cleanup_expired_articles sample_ext sample_config aged_db))) (''misc.test'', 1) \<noteq>
     Some (''<old@x>'', 1700000000)"
proof -
  have ok: "storage_ok sample_ext aged_db"
    unfolding aged_db_def using keepsD [OF storage_keeps(1) storage_ok_sample] .
  have nofault: "faults aged_db = []" by code_simp
  note cleanup = mp [OF mp [OF conjunct2 [OF cleanup_removes_exactly_the_expired [OF ok]] nofault]
      retention_ok_sample]
  from cleanup obtain d' where d': "cleanup_expired_articles sample_ext sample_config aged_db = (Inr (), d')"
    and char: "\<forall>g n i t. g \<in> dom (active (abs_spool sample_ext aged_db)) \<longrightarrow>
       index (abs_spool sample_ext d') (g, n) = Some (i, t) \<longleftrightarrow>
       index (abs_spool sample_ext aged_db) (g, n) = Some (i, t) \<and> \<not> too_old sample_ext sample_config g t \<and>
       \<not> expired_in sample_ext (abs_spool sample_ext aged_db) i" by (elim exE conjE)
  have "active (abs_spool sample_ext aged_db) ''misc.test'' = Some (0, False, ''tests'')" by code_simp
  moreover have "articles (abs_spool sample_ext aged_db) ''<old@x>'' = Some aged_article" by code_simp
  moreover have "is_expired sample_ext (utc_now sample_ext) aged_article" by code_simp
  moreover have "index (abs_spool sample_ext aged_db) (''misc.test'', 1) = Some (''<old@x>'', 1700000000)"
    by code_simp
  ultimately show ?thesis using char [THEN spec, of "''misc.test''"] d' by (auto simp: expired_in_def)
qed

end
