(* ===== verification/Session.thy ===== *)
theory Session
  imports Prelude
begin

text \<open>
  The per-connection state of \<^verbatim>\<open>src/src/session.rs\<close> and its transitions. The session identifier, a random
  UUID that only the log shows, is left out. A \<^verbatim>\<open>u64\<close> article number is a natural number.
\<close>

record session =
  current_group :: "string option"
  current_article :: "nat option"
  authenticated :: bool
  username :: "string option"
  is_tls :: bool
  in_stream_mode :: bool
  allow_auth_insecure :: bool
  allow_anonymous_posting :: bool
  is_admin :: bool

definition new_session :: "bool \<Rightarrow> bool \<Rightarrow> bool \<Rightarrow> session" where
  "new_session tls insecure anonymous =
     \<lparr>current_group = None, current_article = None, authenticated = False, username = None,
      is_tls = tls, in_stream_mode = False, allow_auth_insecure = insecure,
      allow_anonymous_posting = anonymous, is_admin = False\<rparr>"

definition select_group :: "string \<Rightarrow> nat option \<Rightarrow> session \<Rightarrow> session" where
  "select_group grp first_article s =
     s\<lparr>current_group := Some grp, current_article := first_article\<rparr>"

definition leave_group :: "session \<Rightarrow> session" where
  "leave_group s = s\<lparr>current_group := None, current_article := None\<rparr>"

definition set_current_article :: "nat \<Rightarrow> session \<Rightarrow> session" where
  "set_current_article num s = s\<lparr>current_article := Some num\<rparr>"

definition set_pending_username :: "string \<Rightarrow> session \<Rightarrow> session" where
  "set_pending_username name s = s\<lparr>username := Some name\<rparr>"

definition pending_username :: "session \<Rightarrow> string option" where
  "pending_username s = username s"

definition authenticate :: "string \<Rightarrow> session \<Rightarrow> session" where
  "authenticate name s = s\<lparr>authenticated := True, username := Some name\<rparr>"

definition authenticate_with_admin :: "string \<Rightarrow> bool \<Rightarrow> session \<Rightarrow> session" where
  "authenticate_with_admin name admin s =
     s\<lparr>authenticated := True, username := Some name, is_admin := admin\<rparr>"

definition confirm_authentication :: "session \<Rightarrow> session" where
  "confirm_authentication s = s\<lparr>authenticated := True\<rparr>"

definition can_authenticate :: "session \<Rightarrow> bool" where
  "can_authenticate s \<longleftrightarrow> is_tls s \<or> allow_auth_insecure s"

definition can_post :: "session \<Rightarrow> bool" where
  "can_post s \<longleftrightarrow> authenticated s \<or> allow_anonymous_posting s"

definition enter_stream_mode :: "session \<Rightarrow> session" where
  "enter_stream_mode s = s\<lparr>in_stream_mode := True\<rparr>"

definition set_admin :: "bool \<Rightarrow> session \<Rightarrow> session" where
  "set_admin admin s = s\<lparr>is_admin := admin\<rparr>"

text \<open>What a session guarantees whatever commands it runs: an article is current only in a selected
  group, an administrator is authenticated, and an authenticated session has a user name.\<close>

definition session_ok :: "session \<Rightarrow> bool" where
  "session_ok s \<longleftrightarrow>
     (current_group s = None \<longrightarrow> current_article s = None) \<and>
     (is_admin s \<longrightarrow> authenticated s) \<and>
     (authenticated s \<longrightarrow> username s \<noteq> None)"

lemmas session_defs = new_session_def select_group_def leave_group_def set_current_article_def
  set_pending_username_def pending_username_def authenticate_def authenticate_with_admin_def
  confirm_authentication_def enter_stream_mode_def set_admin_def

lemma session_ok_new [simp]: "session_ok (new_session tls insecure anonymous)"
  by (simp add: session_ok_def session_defs)

lemma session_ok_step [intro]:
  assumes "session_ok s"
  shows "session_ok (select_group g a s)" "session_ok (leave_group s)"
    "current_group s \<noteq> None \<Longrightarrow> session_ok (set_current_article n s)"
    "session_ok (set_pending_username u s)" "session_ok (authenticate_with_admin u b s)"
  using assms by (auto simp: session_ok_def session_defs)

end
