(* ===== verification/Responses.thy ===== *)
theory Responses
  imports Text
begin

text \<open>
  The response texts of \<^verbatim>\<open>src/src/responses.rs\<close>, one definition per constant, and the server's error
  values of \<^verbatim>\<open>src/src/error.rs\<close> with the response each one is reported as. The implementation line of
  the capability list carries the package's version, 1.0.0.
\<close>

named_theorems resp_defs "the response constants"

subsection \<open>Response constants\<close>

definition RESP_CRLF :: string where
  [resp_defs]: "RESP_CRLF = CRLF"

definition RESP_DOT_CRLF :: string where
  [resp_defs]: "RESP_DOT_CRLF = ''.'' @ CRLF"

definition RESP_200_READY :: string where
  [resp_defs]: "RESP_200_READY = ''200 NNTP Service Ready'' @ CRLF"

definition RESP_201_READY_NO_POST :: string where
  [resp_defs]: "RESP_201_READY_NO_POST = ''201 NNTP Service Ready - no posting allowed'' @ CRLF"

definition RESP_200_POSTING_ALLOWED :: string where
  [resp_defs]: "RESP_200_POSTING_ALLOWED = ''200 Posting allowed'' @ CRLF"

definition RESP_201_POSTING_PROHIBITED :: string where
  [resp_defs]: "RESP_201_POSTING_PROHIBITED = ''201 Posting prohibited'' @ CRLF"

definition RESP_203_STREAMING :: string where
  [resp_defs]: "RESP_203_STREAMING = ''203 Streaming permitted'' @ CRLF"

definition RESP_205_CLOSING :: string where
  [resp_defs]: "RESP_205_CLOSING = ''205 closing connection'' @ CRLF"

definition RESP_220_ARTICLE :: string where
  [resp_defs]: "RESP_220_ARTICLE = ''220''"

definition RESP_221_HEAD :: string where
  [resp_defs]: "RESP_221_HEAD = ''221''"

definition RESP_222_BODY :: string where
  [resp_defs]: "RESP_222_BODY = ''222''"

definition RESP_223_STAT :: string where
  [resp_defs]: "RESP_223_STAT = ''223''"

definition RESP_224_OVERVIEW :: string where
  [resp_defs]: "RESP_224_OVERVIEW = ''224 Overview information follows'' @ CRLF"

definition RESP_225_HEADERS :: string where
  [resp_defs]: "RESP_225_HEADERS = ''225 Headers follow'' @ CRLF"

definition RESP_211_GROUP :: string where
  [resp_defs]: "RESP_211_GROUP = ''211''"

definition RESP_211_LISTGROUP :: string where
  [resp_defs]: "RESP_211_LISTGROUP = ''211 article numbers follow'' @ CRLF"

definition RESP_215_LIST_FOLLOWS :: string where
  [resp_defs]: "RESP_215_LIST_FOLLOWS = ''215 list of newsgroups follows'' @ CRLF"

definition RESP_215_DESCRIPTIONS :: string where
  [resp_defs]: "RESP_215_DESCRIPTIONS = ''215 descriptions follow'' @ CRLF"

definition RESP_215_INFO_FOLLOWS :: string where
  [resp_defs]: "RESP_215_INFO_FOLLOWS = ''215 information follows'' @ CRLF"

definition RESP_215_OVERVIEW_FMT :: string where
  [resp_defs]: "RESP_215_OVERVIEW_FMT = ''215 Order of fields in overview database.'' @ CRLF"

definition RESP_215_METADATA :: string where
  [resp_defs]: "RESP_215_METADATA = ''215 metadata items supported:'' @ CRLF"

definition RESP_221_HEADER_FOLLOWS :: string where
  [resp_defs]: "RESP_221_HEADER_FOLLOWS = ''221 Header follows'' @ CRLF"

definition RESP_230_NEWNEWS :: string where
  [resp_defs]: "RESP_230_NEWNEWS = ''230 list of new articles follows'' @ CRLF"

definition RESP_231_NEWGROUPS :: string where
  [resp_defs]: "RESP_231_NEWGROUPS = ''231 list of new newsgroups follows'' @ CRLF"

definition RESP_235_TRANSFER_OK :: string where
  [resp_defs]: "RESP_235_TRANSFER_OK = ''235 Article transferred OK'' @ CRLF"

definition RESP_238_CHECK_OK :: string where
  [resp_defs]: "RESP_238_CHECK_OK = ''238''"

definition RESP_239_TAKETHIS_OK :: string where
  [resp_defs]: "RESP_239_TAKETHIS_OK = ''239''"

definition RESP_240_ARTICLE_RECEIVED :: string where
  [resp_defs]: "RESP_240_ARTICLE_RECEIVED = ''240 article received'' @ CRLF"

definition RESP_281_AUTH_OK :: string where
  [resp_defs]: "RESP_281_AUTH_OK = ''281 authentication accepted'' @ CRLF"

definition RESP_290_PASSWORD_OK :: string where
  [resp_defs]: "RESP_290_PASSWORD_OK = ''290 Password for {user} accepted'' @ CRLF"

definition RESP_340_SEND_ARTICLE :: string where
  [resp_defs]: "RESP_340_SEND_ARTICLE = ''340 send article to be posted. End with <CR-LF>.<CR-LF>'' @ CRLF"

definition RESP_335_SEND_IT :: string where
  [resp_defs]: "RESP_335_SEND_IT = ''335 Send it; end with <CR-LF>.<CR-LF>'' @ CRLF"

definition RESP_381_PASSWORD_REQ :: string where
  [resp_defs]: "RESP_381_PASSWORD_REQ = ''381 password required'' @ CRLF"

definition RESP_403_BANDWIDTH_EXCEEDED :: string where
  [resp_defs]: "RESP_403_BANDWIDTH_EXCEEDED = ''403 bandwidth limit exceeded'' @ CRLF"

definition RESP_411_NO_SUCH_GROUP :: string where
  [resp_defs]: "RESP_411_NO_SUCH_GROUP = ''411 no such newsgroup'' @ CRLF"

definition RESP_412_NO_GROUP :: string where
  [resp_defs]: "RESP_412_NO_GROUP = ''412 no newsgroup selected'' @ CRLF"

definition RESP_420_NO_CURRENT :: string where
  [resp_defs]: "RESP_420_NO_CURRENT = ''420 no current article selected'' @ CRLF"

definition RESP_421_NO_NEXT :: string where
  [resp_defs]: "RESP_421_NO_NEXT = ''421 no next article'' @ CRLF"

definition RESP_422_NO_PREV :: string where
  [resp_defs]: "RESP_422_NO_PREV = ''422 no previous article'' @ CRLF"

definition RESP_423_RANGE_EMPTY :: string where
  [resp_defs]: "RESP_423_RANGE_EMPTY = ''423 no articles in that range'' @ CRLF"

definition RESP_423_NO_ARTICLE_NUM :: string where
  [resp_defs]: "RESP_423_NO_ARTICLE_NUM = ''423 no such article number in this group'' @ CRLF"

definition RESP_430_NO_ARTICLE :: string where
  [resp_defs]: "RESP_430_NO_ARTICLE = ''430 no such article'' @ CRLF"

definition RESP_435_NOT_WANTED :: string where
  [resp_defs]: "RESP_435_NOT_WANTED = ''435 article not wanted'' @ CRLF"

definition RESP_437_REJECTED :: string where
  [resp_defs]: "RESP_437_REJECTED = ''437 article rejected'' @ CRLF"

definition RESP_438_CHECK_REJECT :: string where
  [resp_defs]: "RESP_438_CHECK_REJECT = ''438''"

definition RESP_439_TAKETHIS_REJECT :: string where
  [resp_defs]: "RESP_439_TAKETHIS_REJECT = ''439''"

definition RESP_440_POST_PROHIBITED :: string where
  [resp_defs]: "RESP_440_POST_PROHIBITED = ''440 posting not allowed'' @ CRLF"

definition RESP_441_POSTING_FAILED :: string where
  [resp_defs]: "RESP_441_POSTING_FAILED = ''441 posting failed'' @ CRLF"

definition RESP_480_AUTH_REQUIRED :: string where
  [resp_defs]: "RESP_480_AUTH_REQUIRED = ''480 authentication required'' @ CRLF"

definition RESP_481_AUTH_REJECTED :: string where
  [resp_defs]: "RESP_481_AUTH_REJECTED = ''481 Authentication rejected'' @ CRLF"

definition RESP_481_CONN_LIMIT :: string where
  [resp_defs]: "RESP_481_CONN_LIMIT = ''481 connection limit exceeded'' @ CRLF"

definition RESP_483_SECURE_REQ :: string where
  [resp_defs]: "RESP_483_SECURE_REQ = ''483 Secure connection required'' @ CRLF"

definition RESP_500_SYNTAX :: string where
  [resp_defs]: "RESP_500_SYNTAX = ''500 Syntax error'' @ CRLF"

definition RESP_500_UNKNOWN_CMD :: string where
  [resp_defs]: "RESP_500_UNKNOWN_CMD = ''500 command not recognized'' @ CRLF"

definition RESP_501_SYNTAX :: string where
  [resp_defs]: "RESP_501_SYNTAX = ''501 Syntax error'' @ CRLF"

definition RESP_501_INVALID_ID :: string where
  [resp_defs]: "RESP_501_INVALID_ID = ''501 invalid id'' @ CRLF"

definition RESP_501_INVALID_ARG :: string where
  [resp_defs]: "RESP_501_INVALID_ARG = ''501 invalid argument'' @ CRLF"

definition RESP_501_INVALID_DATE :: string where
  [resp_defs]: "RESP_501_INVALID_DATE = ''501 invalid date'' @ CRLF"

definition RESP_501_MSGID_REQUIRED :: string where
  [resp_defs]: "RESP_501_MSGID_REQUIRED = ''501 message-id required'' @ CRLF"

definition RESP_501_NOT_ENOUGH :: string where
  [resp_defs]: "RESP_501_NOT_ENOUGH = ''501 not enough arguments'' @ CRLF"

definition RESP_501_UNKNOWN_KEYWORD :: string where
  [resp_defs]: "RESP_501_UNKNOWN_KEYWORD = ''501 unknown keyword'' @ CRLF"

definition RESP_501_UNKNOWN_MODE :: string where
  [resp_defs]: "RESP_501_UNKNOWN_MODE = ''501 unknown mode'' @ CRLF"

definition RESP_501_MISSING_MODE :: string where
  [resp_defs]: "RESP_501_MISSING_MODE = ''501 missing mode'' @ CRLF"

definition RESP_503_NOT_SUPPORTED :: string where
  [resp_defs]: "RESP_503_NOT_SUPPORTED = ''503 feature not supported'' @ CRLF"

definition RESP_101_CAPABILITIES :: string where
  [resp_defs]: "RESP_101_CAPABILITIES = ''101 Capability list follows'' @ CRLF"

definition RESP_100_HELP_FOLLOWS :: string where
  [resp_defs]: "RESP_100_HELP_FOLLOWS = 
     ''100 help text follows'' @ CRLF"

definition RESP_CAP_VERSION :: string where
  [resp_defs]: "RESP_CAP_VERSION = ''VERSION 2'' @ CRLF"

definition RESP_CAP_IMPLEMENTATION :: string where
  [resp_defs]: "RESP_CAP_IMPLEMENTATION = ''IMPLEMENTATION Renews 1.0.0'' @ CRLF"

definition RESP_CAP_READER :: string where
  [resp_defs]: "RESP_CAP_READER = ''READER'' @ CRLF"

definition RESP_CAP_IHAVE :: string where
  [resp_defs]: "RESP_CAP_IHAVE = ''IHAVE'' @ CRLF"

definition RESP_CAP_POST :: string where
  [resp_defs]: "RESP_CAP_POST = ''POST'' @ CRLF"

definition RESP_CAP_NEWNEWS :: string where
  [resp_defs]: "RESP_CAP_NEWNEWS = ''NEWNEWS'' @ CRLF"

definition RESP_CAP_HDR :: string where
  [resp_defs]: "RESP_CAP_HDR = ''HDR'' @ CRLF"

definition RESP_CAP_OVER :: string where
  [resp_defs]: "RESP_CAP_OVER = ''OVER MSGID'' @ CRLF"

definition RESP_CAP_LIST :: string where
  [resp_defs]: "RESP_CAP_LIST = ''LIST ACTIVE NEWSGROUPS ACTIVE.TIMES OVERVIEW.FMT HEADERS'' @ CRLF"

definition RESP_CAP_AUTHINFO :: string where
  [resp_defs]: "RESP_CAP_AUTHINFO = ''AUTHINFO USER'' @ CRLF"

definition RESP_CAP_STREAMING :: string where
  [resp_defs]: "RESP_CAP_STREAMING = ''STREAMING'' @ CRLF"

definition RESP_HELP_TEXT :: string where
  [resp_defs]: "RESP_HELP_TEXT =
     ''CAPABILITIES'' @ CRLF @
     ''MODE READER'' @ CRLF @
     ''MODE STREAM'' @ CRLF @
     ''GROUP'' @ CRLF @
     ''LIST'' @ CRLF @
     ''LISTGROUP'' @ CRLF @
     ''ARTICLE'' @ CRLF @
     ''HEAD'' @ CRLF @
     ''BODY'' @ CRLF @
     ''STAT'' @ CRLF @
     ''HDR'' @ CRLF @
     ''OVER'' @ CRLF @
     ''NEXT'' @ CRLF @
     ''LAST'' @ CRLF @
     ''NEWGROUPS'' @ CRLF @
     ''NEWNEWS'' @ CRLF @
     ''IHAVE'' @ CRLF @
     ''CHECK'' @ CRLF @
     ''TAKETHIS'' @ CRLF @
     ''POST'' @ CRLF @
     ''DATE'' @ CRLF @
     ''HELP'' @ CRLF @
     ''QUIT'' @ CRLF"

definition RESP_SUBJECT :: string where
  [resp_defs]: "RESP_SUBJECT = ''Subject:'' @ CRLF"

definition RESP_FROM :: string where
  [resp_defs]: "RESP_FROM = ''From:'' @ CRLF"

definition RESP_DATE :: string where
  [resp_defs]: "RESP_DATE = ''Date:'' @ CRLF"

definition RESP_MESSAGE_ID :: string where
  [resp_defs]: "RESP_MESSAGE_ID = ''Message-ID:'' @ CRLF"

definition RESP_REFERENCES :: string where
  [resp_defs]: "RESP_REFERENCES = ''References:'' @ CRLF"

definition RESP_BYTES :: string where
  [resp_defs]: "RESP_BYTES = '':bytes'' @ CRLF"

definition RESP_LINES :: string where
  [resp_defs]: "RESP_LINES = '':lines'' @ CRLF"

definition RESP_COLON :: string where
  [resp_defs]: "RESP_COLON = '':'' @ CRLF"

definition streaming_response :: "nat \<Rightarrow> string \<Rightarrow> string" where
  "streaming_response code message_id = show_nat code @ '' '' @ message_id @ CRLF"

subsection \<open>Error values\<close>

text \<open>The payload of a wrapped library error (\<^verbatim>\<open>Box<dyn Error>\<close>, \<^verbatim>\<open>io::Error\<close>) is its text.\<close>

datatype storage_error = ArticleNotFound string | StorageGroupNotFound string | DatabaseError string

datatype validation_error =
    MissingHeader string
  | SizeExceeded u64 u64
  | GroupNotFound string
  | ModerationRequired
  | InvalidHeader string
  | FilterRejected string

datatype auth_error =
    AuthRequired
  | InvalidCredentials string
  | UserNotFound string
  | AccountDisabled string

datatype limit_error = PostingDisabledError | BandwidthExceededError | ConnectionLimitExceededError

datatype config_error = Invalid string | MissingField string | FileNotFound string

datatype nntp_error =
    StorageErr storage_error
  | ValidationErr validation_error
  | AuthErr auth_error
  | LimitErr limit_error
  | ConfigErr config_error
  | IoErr string
  | ProtocolErr string

fun response_code :: "nntp_error \<Rightarrow> nat" where
  "response_code (StorageErr (ArticleNotFound _)) = 430"
| "response_code (StorageErr (StorageGroupNotFound _)) = 411"
| "response_code (StorageErr _) = 403"
| "response_code (ValidationErr _) = 441"
| "response_code (AuthErr AuthRequired) = 480"
| "response_code (AuthErr _) = 481"
| "response_code (LimitErr PostingDisabledError) = 440"
| "response_code (LimitErr BandwidthExceededError) = 403"
| "response_code (LimitErr ConnectionLimitExceededError) = 481"
| "response_code (ConfigErr _) = 403"
| "response_code (IoErr _) = 403"
| "response_code (ProtocolErr _) = 500"

fun client_message :: "nntp_error \<Rightarrow> string" where
  "client_message (StorageErr (ArticleNotFound _)) = ''No such article''"
| "client_message (StorageErr (StorageGroupNotFound _)) = ''No such group''"
| "client_message (StorageErr _) = ''Service temporarily unavailable''"
| "client_message (ValidationErr _) = ''Posting failed''"
| "client_message (AuthErr AuthRequired) = ''authentication required''"
| "client_message (AuthErr _) = ''Authentication failed''"
| "client_message (LimitErr PostingDisabledError) = ''posting not allowed''"
| "client_message (LimitErr BandwidthExceededError) = ''bandwidth limit exceeded''"
| "client_message (LimitErr ConnectionLimitExceededError) = ''connection limit exceeded''"
| "client_message (ConfigErr _) = ''Service temporarily unavailable''"
| "client_message (IoErr _) = ''Service temporarily unavailable''"
| "client_message (ProtocolErr _) = ''Command not recognized''"

definition to_response :: "nntp_error \<Rightarrow> string" where
  "to_response e = show_nat (response_code e) @ '' '' @ client_message e @ CRLF"

end
