(* ===== verification/Context.thy ===== *)
theory Context
  imports Queue Tracker Session Wire Responses
begin

text \<open>
  The context of a connection, \<^verbatim>\<open>HandlerContext\<close> of \<^verbatim>\<open>src/src/handlers/mod.rs\<close>, and the helpers of
  \<^verbatim>\<open>src/src/handlers/utils.rs\<close> that read the storage and write responses.

  A writer is what was sent and how many characters the connection still takes before it breaks
  (\<open>None\<close>: it does not break). A write into a connection that breaks sends what it takes and fails, so
  that writing two texts one after the other is writing their concatenation. Flushing does nothing
  more, because what is written counts as sent.
\<close>

record writer =
  sent :: string
  takes :: "nat option"

record ctx = server +
  reader :: reader
  writer :: writer
  session :: session

type_synonym 'a handler = "(ctx, 'a) action"

definition write_all :: "string \<Rightarrow> unit handler" where
  "write_all text c =
     (case takes (writer c) of
        None \<Rightarrow> (Inr (), c\<lparr>writer := (writer c)\<lparr>sent := sent (writer c) @ text\<rparr>\<rparr>)
      | Some n \<Rightarrow>
          (if length text \<le> n then Inr () else Inl Io,
           c\<lparr>writer := \<lparr>sent = sent (writer c) @ take n text, takes = Some (n - length text)\<rparr>\<rparr>))"

definition write_simple :: "string \<Rightarrow> unit handler" where
  "write_simple response = write_all response"

definition write_lines :: "string list \<Rightarrow> unit handler" where
  "write_lines lines = for_each write_all lines"

definition set_session :: "(session \<Rightarrow> session) \<Rightarrow> ('e, ctx, unit) fallible" where
  "set_session f c = (Inr (), c\<lparr>session := f (session c)\<rparr>)"

definition get_session :: "('e, ctx, session) fallible" where
  "get_session c = (Inr (session c), c)"

text \<open>\<^verbatim>\<open>map_err(|_| e)\<close> and \<^verbatim>\<open>ok()\<close>; the operations they are applied to do not panic.\<close>

definition map_err :: "'e \<Rightarrow> ('s, 'a) action \<Rightarrow> ('e, 's, 'a) fallible" where
  "map_err e m s = (case m s of (Inl _, s') \<Rightarrow> (Inl e, s') | (Inr x, s') \<Rightarrow> (Inr x, s'))"

definition ok_of :: "('s, 'a) action \<Rightarrow> ('e, 's, 'a option) fallible" where
  "ok_of m s = (case m s of (Inl _, s') \<Rightarrow> (Inr None, s') | (Inr x, s') \<Rightarrow> (Inr (Some x), s'))"

subsection \<open>Metadata\<close>

definition metadata_value :: "message \<Rightarrow> string \<Rightarrow> ('e, ctx, string option) fallible" where
  "metadata_value msg name =
     (if name = '':bytes''
      then (case extract_message_id msg of
              Some i \<Rightarrow> bind_res (ok_of (on_storage (get_message_size i))) (\<lambda>size.
                ret (Some (case Option.bind size id of
                             Some n \<Rightarrow> show_nat n
                           | None \<Rightarrow> show_nat (str_len (body msg)))))
            | None \<Rightarrow> ret (Some (show_nat (str_len (body msg)))))
      else if name = '':lines'' then ret (Some (show_nat (length (str_lines (body msg)))))
      else ret None)"

subsection \<open>Finding articles\<close>

datatype article_query_error =
    NoGroup
  | InvalidId
  | RangeEmpty
  | NotFoundByNumber
  | MessageIdNotFound
  | NoCurrentArticle

fun article_query_error_text :: "article_query_error \<Rightarrow> string" where
  "article_query_error_text NoGroup = ''No group selected''"
| "article_query_error_text InvalidId = ''Invalid message-id format''"
| "article_query_error_text RangeEmpty = ''Range is empty''"
| "article_query_error_text NotFoundByNumber = ''Article not found by number''"
| "article_query_error_text MessageIdNotFound = ''Article not found by message-id''"
| "article_query_error_text NoCurrentArticle = ''No current article selected''"

type_synonym 'a query = "(article_query_error, ctx, 'a) fallible"

definition looks_like_message_id :: "string \<Rightarrow> bool" where
  "looks_like_message_id arg \<longleftrightarrow> starts_with arg ''<'' \<and> ends_with arg ''>''"

fun resolve_numbers :: "ext \<Rightarrow> string \<Rightarrow> nat list \<Rightarrow> (nat \<times> message) list query" where
  "resolve_numbers X grp [] c = (Inr [], c)"
| "resolve_numbers X grp (n # ns) c =
     bind_res (map_err NotFoundByNumber (on_storage (get_article_by_number X grp n))) (\<lambda>found.
       case found of
         Some article \<Rightarrow>
           bind_res (set_session (set_current_article n)) (\<lambda>_.
             bind_res (resolve_numbers X grp ns) (\<lambda>rest. ret ((n, article) # rest)))
       | None \<Rightarrow> resolve_numbers X grp ns) c"

definition resolve_articles :: "ext \<Rightarrow> string option \<Rightarrow> (nat \<times> message) list query" where
  "resolve_articles X arg =
     bind_res get_session (\<lambda>s.
     case arg of
       Some arg \<Rightarrow>
         if looks_like_message_id arg
         then bind_res (map_err MessageIdNotFound (on_storage (get_article_by_id X arg))) (\<lambda>found.
                case found of Some article \<Rightarrow> ret [(0, article)] | None \<Rightarrow> throw MessageIdNotFound)
         else (case current_group s of
                 Some grp \<Rightarrow>
                   bind_res (map_err RangeEmpty (on_storage (parse_range grp arg))) (\<lambda>nums.
                     if nums = [] then throw RangeEmpty
                     else bind_res (resolve_numbers X grp nums) (\<lambda>articles.
                       if articles = [] then throw NotFoundByNumber else ret articles))
               | None \<Rightarrow> if parse_uint 64 arg \<noteq> None then throw NoGroup else throw InvalidId)
     | None \<Rightarrow>
         (case (current_group s, current_article s) of
            (Some grp, Some num) \<Rightarrow>
              bind_res (map_err NoCurrentArticle (on_storage (get_article_by_number X grp num))) (\<lambda>found.
                case found of Some article \<Rightarrow> ret [(num, article)] | None \<Rightarrow> throw NoCurrentArticle)
          | (None, _) \<Rightarrow> throw NoGroup
          | _ \<Rightarrow> throw NoCurrentArticle))"

fun article_error_response :: "article_query_error \<Rightarrow> string" where
  "article_error_response NoGroup = RESP_412_NO_GROUP"
| "article_error_response InvalidId = RESP_501_INVALID_ID"
| "article_error_response RangeEmpty = RESP_423_RANGE_EMPTY"
| "article_error_response NotFoundByNumber = RESP_423_NO_ARTICLE_NUM"
| "article_error_response MessageIdNotFound = RESP_430_NO_ARTICLE"
| "article_error_response NoCurrentArticle = RESP_420_NO_CURRENT"

definition handle_article_error :: "article_query_error \<Rightarrow> unit handler" where
  "handle_article_error error = write_simple (article_error_response error)"

text \<open>\<^verbatim>\<open>match\<close> on the result of a query.\<close>

definition match_query :: "'a query \<Rightarrow> (article_query_error \<Rightarrow> 'b handler) \<Rightarrow> ('a \<Rightarrow> 'b handler) \<Rightarrow> 'b handler" where
  "match_query q h k c = (case q c of (Inl e, c') \<Rightarrow> h e c' | (Inr x, c') \<Rightarrow> k x c')"

subsection \<open>Bandwidth\<close>

text \<open>The user whose bandwidth counts: an authenticated one who is no administrator.\<close>

definition tracked_user :: "session \<Rightarrow> string option" where
  "tracked_user s = (if authenticated s \<and> \<not> is_admin s then username s else None)"

definition check_bandwidth_rejected :: "ext \<Rightarrow> u64 \<Rightarrow> bool handler" where
  "check_bandwidth_rejected X sz =
     bind_res get_session (\<lambda>s.
       case tracked_user s of
         None \<Rightarrow> ret False
       | Some name \<Rightarrow>
           bind_res (check_bandwidth X name sz) (\<lambda>result.
             if result = BandwidthExceeded
             then bind_res (write_simple RESP_403_BANDWIDTH_EXCEEDED) (\<lambda>_. ret True)
             else ret False))"

definition record_bandwidth_usage :: "ext \<Rightarrow> u64 \<Rightarrow> bool \<Rightarrow> unit handler" where
  "record_bandwidth_usage X sz is_upload c =
     (case tracked_user (session c) of
        None \<Rightarrow> (Inr (), c)
      | Some name \<Rightarrow> (Inr (), record_bandwidth X name sz is_upload c))"

subsection \<open>ARTICLE, HEAD, BODY and STAT\<close>

datatype article_operation = Full | Headers | Body | Stat

fun operation_response_code :: "article_operation \<Rightarrow> nat" where
  "operation_response_code Full = 220"
| "operation_response_code Headers = 221"
| "operation_response_code Body = 222"
| "operation_response_code Stat = 223"

fun response_suffix :: "article_operation \<Rightarrow> string" where
  "response_suffix Full = ''article follows''"
| "response_suffix Headers = ''article headers follow''"
| "response_suffix Body = ''article body follows''"
| "response_suffix Stat = ''article exists''"

definition header_size :: "message \<Rightarrow> nat" where
  "header_size article = sum_list (map (\<lambda>(k, v). str_len k + 2 + str_len v + 2) (headers article))"

text \<open>\<^verbatim>\<open>as_str\<close>, the name of an operation in the log.\<close>

fun operation_name :: "article_operation \<Rightarrow> string" where
  "operation_name Full = ''full''"
| "operation_name Headers = ''headers''"
| "operation_name Body = ''body''"
| "operation_name Stat = ''stat''"

fun article_size :: "article_operation \<Rightarrow> message \<Rightarrow> u64" where
  "article_size Full article = of_nat (header_size article + 2 + str_len (body article) + 5)"
| "article_size Headers article = of_nat (header_size article + 3)"
| "article_size Body article = of_nat (str_len (body article) + 5)"
| "article_size Stat article = 0"

fun article_content :: "article_operation \<Rightarrow> message \<Rightarrow> string" where
  "article_content Full article =
     send_headers article @ RESP_CRLF @ send_body (body article) @ RESP_DOT_CRLF"
| "article_content Headers article = send_headers article @ RESP_DOT_CRLF"
| "article_content Body article = send_body (body article) @ RESP_DOT_CRLF"
| "article_content Stat article = []"

definition article_response_line :: "article_operation \<Rightarrow> nat \<Rightarrow> message \<Rightarrow> string" where
  "article_response_line operation num article =
     show_nat (operation_response_code operation) @ '' '' @ show_nat num @ '' '' @
     unwrap_or_default (extract_message_id article) @ '' '' @ response_suffix operation @ CRLF"

text \<open>The loop over the articles found: an article past the bandwidth limit ends it.\<close>

fun send_articles ::
  "ext \<Rightarrow> article_operation \<Rightarrow> string option \<Rightarrow> (nat \<times> message) list \<Rightarrow> unit handler" where
  "send_articles X operation user [] c = (Inr (), c)"
| "send_articles X operation user ((num, article) # articles) c =
     bind_res
       (case user of
          Some name \<Rightarrow>
            if 0 < article_size operation article
            then check_bandwidth X name (article_size operation article) else ret Allowed
        | None \<Rightarrow> ret Allowed)
       (\<lambda>result.
          if result = BandwidthExceeded then write_simple RESP_403_BANDWIDTH_EXCEEDED
          else bind_res (write_all (article_response_line operation num article)) (\<lambda>_.
               bind_res (write_all (article_content operation article)) (\<lambda>_ c.
                 send_articles X operation user articles
                   (case user of
                      Some name \<Rightarrow>
                        if 0 < article_size operation article
                        then record_bandwidth X name (article_size operation article) False c else c
                    | None \<Rightarrow> c)))) c"

definition handle_article_operation ::
  "ext \<Rightarrow> string list \<Rightarrow> article_operation \<Rightarrow> string option \<Rightarrow> unit handler" where
  "handle_article_operation X args operation user =
     match_query (resolve_articles X (case args of [] \<Rightarrow> None | a # _ \<Rightarrow> Some a))
       handle_article_error (send_articles X operation user)"

subsection \<open>Responses\<close>

definition value_line :: "nat \<times> string option \<Rightarrow> string" where
  "value_line = (\<lambda>(n, v).
     case v of Some v \<Rightarrow> show_nat n @ '' '' @ v @ CRLF | None \<Rightarrow> show_nat n @ CRLF)"

definition write_response_with_values :: "string \<Rightarrow> (nat \<times> string option) list \<Rightarrow> unit handler" where
  "write_response_with_values response values =
     bind_res (write_all response) (\<lambda>_.
     bind_res (for_each (\<lambda>v. write_all (value_line v)) values) (\<lambda>_.
     write_all RESP_DOT_CRLF))"

definition write_response_with_args :: "string \<Rightarrow> string list \<Rightarrow> string \<Rightarrow> unit handler" where
  "write_response_with_args prefix args suffix = write_all (prefix @ join '' '' args @ suffix)"

subsection \<open>Writing\<close>

lemma write_all_append:
  "bind_res (write_all a) (\<lambda>_. write_all b) = write_all (a @ b)"
  by (auto simp: fun_eq_iff write_all_def bind_res_def split: option.splits)

lemma for_each_write_all: "for_each (\<lambda>x. write_all (f x)) xs = write_all (concat (map f xs))"
proof (induction xs)
  case Nil
  then show ?case by (auto simp: fun_eq_iff write_all_def split: option.splits)
next
  case (Cons x xs)
  have "for_each (\<lambda>x. write_all (f x)) (x # xs) = bind_res (write_all (f x)) (\<lambda>_. for_each (\<lambda>x. write_all (f x)) xs)"
    by (simp add: fun_eq_iff)
  with Cons write_all_append show ?case by simp
qed

end
