(* ===== verification/Article_Handlers.thy ===== *)
theory Article_Handlers
  imports Context
begin

text \<open>
  The article retrieval commands, \<^verbatim>\<open>src/src/handlers/article.rs\<close>: ARTICLE, HEAD, BODY and STAT (the macro
  \<^verbatim>\<open>article_handler\<close>), HDR, XPAT and OVER.
\<close>

definition first_arg :: "string list \<Rightarrow> string option" where
  "first_arg args = (case args of [] \<Rightarrow> None | a # _ \<Rightarrow> Some a)"

definition article_handler :: "ext \<Rightarrow> article_operation \<Rightarrow> string list \<Rightarrow> unit handler" where
  "article_handler X operation args =
     bind_res get_session (\<lambda>s. handle_article_operation X args operation (tracked_user s))"

definition sanitize_header_value :: "string \<Rightarrow> string" where
  "sanitize_header_value val =
     filter (\<lambda>c. c \<noteq> CR \<and> c \<noteq> LF) (map (\<lambda>c. if c = TAB then CHR '' '' else c) val)"

definition handle_all_headers :: "ext \<Rightarrow> string list \<Rightarrow> unit handler" where
  "handle_all_headers X args =
     match_query (resolve_articles X (first_arg (tl args))) handle_article_error (\<lambda>articles.
       bind_res (write_all RESP_225_HEADERS) (\<lambda>_.
       bind_res (for_each (\<lambda>(n, article).
           for_each (\<lambda>(name, val).
               write_all (show_nat n @ '' '' @ name @ '': '' @ sanitize_header_value val @ CRLF))
             (headers article)) articles) (\<lambda>_.
       write_all RESP_DOT_CRLF)))"

definition get_field_value :: "message \<Rightarrow> string \<Rightarrow> ('e, ctx, string option) fallible" where
  "get_field_value article field =
     (if starts_with field '':'' then metadata_value article field
      else ret (get_header_value article field))"

fun collect_numbers :: "ext \<Rightarrow> string \<Rightarrow> string \<Rightarrow> nat list \<Rightarrow> (nat \<times> string option) list query" where
  "collect_numbers X grp field [] c = (Inr [], c)"
| "collect_numbers X grp field (n # ns) c =
     bind_res (map_err NotFoundByNumber (on_storage (get_article_by_number X grp n))) (\<lambda>found.
       case found of
         Some article \<Rightarrow>
           bind_res (get_field_value article field) (\<lambda>val.
             bind_res (collect_numbers X grp field ns) (\<lambda>rest. ret ((n, val) # rest)))
       | None \<Rightarrow> collect_numbers X grp field ns) c"

definition collect_header_values ::
  "ext \<Rightarrow> string \<Rightarrow> string option \<Rightarrow> (nat \<times> string option) list query" where
  "collect_header_values X field range_or_msgid =
     bind_res get_session (\<lambda>s.
     case range_or_msgid of
       Some arg \<Rightarrow>
         if looks_like_message_id arg
         then bind_res (map_err MessageIdNotFound (on_storage (get_article_by_id X arg))) (\<lambda>found.
                case found of
                  Some article \<Rightarrow> bind_res (get_field_value article field) (\<lambda>val. ret [(0, val)])
                | None \<Rightarrow> throw MessageIdNotFound)
         else (case current_group s of
                 Some grp \<Rightarrow>
                   bind_res (map_err RangeEmpty (on_storage (parse_range grp arg))) (\<lambda>nums.
                     if nums = [] then throw RangeEmpty
                     else bind_res (collect_numbers X grp field nums) (\<lambda>values.
                       if values = [] then throw NotFoundByNumber else ret values))
               | None \<Rightarrow>
                   if list_all (\<lambda>c. is_ascii_digit c \<or> c = CHR ''-'') arg then throw NoGroup
                   else throw InvalidId)
     | None \<Rightarrow>
         (case (current_group s, current_article s) of
            (Some grp, Some num) \<Rightarrow>
              bind_res (map_err NoCurrentArticle (on_storage (get_article_by_number X grp num))) (\<lambda>found.
                case found of
                  Some article \<Rightarrow> bind_res (get_field_value article field) (\<lambda>val. ret [(num, val)])
                | None \<Rightarrow> throw NoCurrentArticle)
          | (None, _) \<Rightarrow> throw NoGroup
          | _ \<Rightarrow> throw NoCurrentArticle))"

definition hdr_handler :: "ext \<Rightarrow> string list \<Rightarrow> unit handler" where
  "hdr_handler X args =
     (case args of
        [] \<Rightarrow> write_simple RESP_501_NOT_ENOUGH
      | field # rest \<Rightarrow>
          if field = '':'' then handle_all_headers X args
          else match_query (collect_header_values X field (first_arg rest)) handle_article_error
                 (write_response_with_values RESP_225_HEADERS))"

definition xpat_handler :: "ext \<Rightarrow> string list \<Rightarrow> unit handler" where
  "xpat_handler X args =
     (case args of
        field # range_or_msgid # pat # pats \<Rightarrow>
          match_query (collect_header_values X field (Some range_or_msgid)) handle_article_error (\<lambda>values.
            bind_res (write_simple RESP_221_HEADER_FOLLOWS) (\<lambda>_.
            bind_res (for_each (\<lambda>(n, val).
                case val of
                  Some v \<Rightarrow>
                    if list_ex (\<lambda>p. wildmat X p v) (pat # pats)
                    then write_all (show_nat n @ '' '' @ v @ CRLF) else ret ()
                | None \<Rightarrow> ret ()) values) (\<lambda>_.
            write_all RESP_DOT_CRLF)))
      | _ \<Rightarrow> write_simple RESP_501_NOT_ENOUGH)"

definition over_handler :: "ext \<Rightarrow> string list \<Rightarrow> unit handler" where
  "over_handler X args =
     match_query (resolve_articles X (first_arg args)) handle_article_error (\<lambda>articles.
       bind_res (write_all RESP_224_OVERVIEW) (\<lambda>_.
       bind_res (for_each (\<lambda>(num, article).
           bind_res (on_storage (generate_overview_line num article)) (\<lambda>line.
             write_all (line @ CRLF))) articles) (\<lambda>_.
       write_all RESP_DOT_CRLF)))"

end
