(* ===== verification/Group_Handlers.thy ===== *)
theory Group_Handlers
  imports Article_Handlers
begin

text \<open>
  The group and listing commands, \<^verbatim>\<open>src/src/handlers/group.rs\<close>: GROUP, LIST with its keywords, LISTGROUP,
  NEXT, LAST, NEWGROUPS and NEWNEWS.
\<close>

definition last_or_zero :: "nat list \<Rightarrow> nat" where
  "last_or_zero nums = (if nums = [] then 0 else last nums)"

definition first_or_zero :: "nat list \<Rightarrow> nat" where
  "first_or_zero nums = (case nums of [] \<Rightarrow> 0 | n # _ \<Rightarrow> n)"

definition group_handler :: "string list \<Rightarrow> unit handler" where
  "group_handler args =
     (case args of
        [] \<Rightarrow> write_simple RESP_501_NOT_ENOUGH
      | group_name # _ \<Rightarrow>
          bind_res (on_storage (group_exists group_name)) (\<lambda>exists.
            if \<not> exists then write_simple RESP_411_NO_SUCH_GROUP
            else bind_res (on_storage (list_article_numbers group_name)) (\<lambda>nums.
                 bind_res (set_session (select_group group_name
                     (case nums of [] \<Rightarrow> None | n # _ \<Rightarrow> Some n))) (\<lambda>_.
                 write_simple (''211 '' @ show_nat (length nums) @ '' '' @ show_nat (first_or_zero nums) @ '' '' @
                   show_nat (last_or_zero nums) @ '' '' @ group_name @ CRLF)))))"

definition handle_list_active :: "ext \<Rightarrow> string option \<Rightarrow> unit handler" where
  "handle_list_active X pattern =
     bind_res (write_simple RESP_215_LIST_FOLLOWS) (\<lambda>_.
     bind_res (on_storage list_groups) (\<lambda>names.
     bind_res (for_each (\<lambda>grp.
         if (case pattern of None \<Rightarrow> False | Some pat \<Rightarrow> \<not> wildmat X grp pat) then ret ()
         else bind_res (on_storage (list_article_numbers grp)) (\<lambda>nums.
                write_all (grp @ '' '' @ show_nat (last_or_zero nums) @ '' '' @
                  show_nat (first_or_zero nums) @ '' y'' @ CRLF))) names) (\<lambda>_.
     write_all RESP_DOT_CRLF)))"

definition handle_list_newsgroups :: "unit handler" where
  "handle_list_newsgroups =
     bind_res (write_simple RESP_215_DESCRIPTIONS) (\<lambda>_.
     bind_res (on_storage list_groups_with_descriptions) (\<lambda>rows.
     bind_res (for_each (\<lambda>(grp, description). write_all (grp @ '' '' @ description @ CRLF)) rows) (\<lambda>_.
     write_all RESP_DOT_CRLF)))"

definition show_int :: "int \<Rightarrow> string" where
  "show_int i = (if i < 0 then ''-'' @ show_nat (nat (- i)) else show_nat (nat i))"

definition handle_list_active_times :: "unit handler" where
  "handle_list_active_times =
     bind_res (write_simple RESP_215_INFO_FOLLOWS) (\<lambda>_.
     bind_res (on_storage list_groups_with_times) (\<lambda>rows.
     bind_res (for_each (\<lambda>(grp, time). write_all (grp @ '' '' @ show_int time @ '' -'' @ CRLF)) rows) (\<lambda>_.
     write_all RESP_DOT_CRLF)))"

definition handle_list_overview_fmt :: "unit handler" where
  "handle_list_overview_fmt =
     bind_res (write_all RESP_215_OVERVIEW_FMT) (\<lambda>_.
     bind_res (for_each write_all get_overview_format_lines) (\<lambda>_.
     write_all RESP_DOT_CRLF))"

definition handle_list_headers :: "unit handler" where
  "handle_list_headers =
     write_lines [RESP_215_METADATA, RESP_COLON, RESP_LINES, RESP_BYTES, RESP_DOT_CRLF]"

definition list_handler :: "ext \<Rightarrow> string list \<Rightarrow> unit handler" where
  "list_handler X args =
     (case args of
        [] \<Rightarrow> handle_list_active X None
      | keyword # rest \<Rightarrow>
          if keyword = ''ACTIVE'' then handle_list_active X (first_arg rest)
          else if keyword = ''NEWSGROUPS'' then handle_list_newsgroups
          else if keyword = ''ACTIVE.TIMES'' then handle_list_active_times
          else if keyword = ''OVERVIEW.FMT'' then handle_list_overview_fmt
          else if keyword = ''HEADERS'' then handle_list_headers
          else if keyword = ''DISTRIB.PATS'' then write_simple RESP_503_NOT_SUPPORTED
          else write_simple RESP_501_UNKNOWN_KEYWORD)"

definition listgroup_handler :: "string list \<Rightarrow> unit handler" where
  "listgroup_handler args =
     bind_res get_session (\<lambda>s.
       case (case args of name # _ \<Rightarrow> Some name | [] \<Rightarrow> current_group s) of
         None \<Rightarrow> write_simple RESP_412_NO_GROUP
       | Some group_name \<Rightarrow>
           bind_res (write_simple RESP_211_LISTGROUP) (\<lambda>_.
           bind_res (on_storage (list_article_numbers group_name)) (\<lambda>nums.
           bind_res (for_each (\<lambda>num. write_all (show_nat num @ CRLF)) nums) (\<lambda>_.
           write_all RESP_DOT_CRLF))))"

subsection \<open>Navigation\<close>

datatype navigation_direction = Next | Previous

fun error_response :: "navigation_direction \<Rightarrow> string" where
  "error_response Next = RESP_421_NO_NEXT"
| "error_response Previous = RESP_422_NO_PREV"

fun position :: "nat list \<Rightarrow> nat \<Rightarrow> nat option" where
  "position [] n = None"
| "position (x # xs) n = (if x = n then Some 0 else map_option Suc (position xs n))"

fun new_position :: "navigation_direction \<Rightarrow> nat \<Rightarrow> nat" where
  "new_position Next pos = pos + 1"
| "new_position Previous pos = pos - 1"

definition navigate_article :: "ext \<Rightarrow> navigation_direction \<Rightarrow> unit handler" where
  "navigate_article X direction =
     bind_res get_session (\<lambda>s.
       case (current_group s, current_article s) of
         (Some grp, Some current) \<Rightarrow>
           bind_res (on_storage (list_article_numbers grp)) (\<lambda>nums.
             case position nums current of
               None \<Rightarrow> write_simple (error_response direction)
             | Some pos \<Rightarrow>
                 if new_position direction pos < length nums
                 then let new_num = nums ! new_position direction pos
                      in bind_res (on_storage (get_article_by_number X grp new_num)) (\<lambda>found.
                           case found of
                             Some article \<Rightarrow>
                               bind_res (set_session (set_current_article new_num)) (\<lambda>_.
                                 write_simple (''223 '' @ show_nat new_num @ '' '' @
                                   unwrap_or_default (extract_message_id article) @ '' article exists'' @ CRLF))
                           | None \<Rightarrow> write_simple (error_response direction))
                 else write_simple (error_response direction))
       | _ \<Rightarrow> write_simple RESP_412_NO_GROUP)"

definition next_handler :: "ext \<Rightarrow> string list \<Rightarrow> unit handler" where
  "next_handler X args = navigate_article X Next"

definition last_handler :: "ext \<Rightarrow> string list \<Rightarrow> unit handler" where
  "last_handler X args = navigate_article X Previous"

subsection \<open>What is new\<close>

text \<open>The date arguments of both commands: the time, or the response that rejects them.\<close>

definition new_since :: "ext \<Rightarrow> string \<Rightarrow> string \<Rightarrow> string option \<Rightarrow> string + datetime" where
  "new_since X date time zone =
     (case zone of
        Some arg \<Rightarrow>
          if \<not> eq_ignore_ascii_case arg ''GMT'' then Inl RESP_501_INVALID_ARG
          else map_sum (\<lambda>_. RESP_501_INVALID_DATE) id (parse_datetime X date time True)
      | None \<Rightarrow> map_sum (\<lambda>_. RESP_501_INVALID_DATE) id (parse_datetime X date time False))"

definition newgroups_handler :: "ext \<Rightarrow> string list \<Rightarrow> unit handler" where
  "newgroups_handler X args =
     (case args of
        date # time # rest \<Rightarrow>
          (case new_since X date time (first_arg rest) of
             Inl response \<Rightarrow> write_simple response
           | Inr since \<Rightarrow>
               bind_res (write_simple RESP_231_NEWGROUPS) (\<lambda>_.
               bind_res (on_storage (list_groups_since since)) (\<lambda>names.
               bind_res (for_each (\<lambda>grp. write_all (grp @ CRLF)) names) (\<lambda>_.
               write_all RESP_DOT_CRLF))))
      | _ \<Rightarrow> write_simple RESP_501_NOT_ENOUGH)"

definition newnews_handler :: "ext \<Rightarrow> string list \<Rightarrow> unit handler" where
  "newnews_handler X args =
     (case args of
        wildmat_pattern # date # time # rest \<Rightarrow>
          (case new_since X date time (first_arg rest) of
             Inl response \<Rightarrow> write_simple response
           | Inr since \<Rightarrow>
               bind_res (write_simple RESP_230_NEWNEWS) (\<lambda>_.
               bind_res (on_storage list_groups) (\<lambda>names.
               bind_res (for_each (\<lambda>grp.
                   if wildmat X grp wildmat_pattern
                   then bind_res (on_storage (list_article_ids_since grp since)) (\<lambda>ids.
                          for_each (\<lambda>i. write_all (i @ CRLF)) ids)
                   else ret ()) names) (\<lambda>_.
               write_all RESP_DOT_CRLF))))
      | _ \<Rightarrow> write_simple RESP_501_NOT_ENOUGH)"

end
