(* ===== verification/Session_Handlers.thy ===== *)
theory Session_Handlers
  imports Group_Handlers
begin

text \<open>
  The commands about the session itself: CAPABILITIES, DATE, HELP and QUIT of \<^verbatim>\<open>src/src/handlers/info.rs\<close>,
  AUTHINFO and MODE of \<^verbatim>\<open>src/src/handlers/auth.rs\<close>.
\<close>

definition date_handler :: "ext \<Rightarrow> string list \<Rightarrow> unit handler" where
  "date_handler X args =
     write_simple (''111 '' @ chrono_format X ''%Y%m%d%H%M%S'' (utc_now X) @ CRLF)"

definition help_handler :: "string list \<Rightarrow> unit handler" where
  "help_handler args = write_lines [RESP_100_HELP_FOLLOWS, RESP_HELP_TEXT, RESP_DOT_CRLF]"

definition capabilities_handler :: "string list \<Rightarrow> unit handler" where
  "capabilities_handler args =
     bind_res get_session (\<lambda>s.
       write_lines (
         [RESP_101_CAPABILITIES, RESP_CAP_VERSION, RESP_CAP_IMPLEMENTATION, RESP_CAP_READER] @
         (if can_post s then [RESP_CAP_POST] else []) @
         (if can_authenticate s \<and> \<not> authenticated s then [RESP_CAP_AUTHINFO] else []) @
         [RESP_CAP_NEWNEWS, RESP_CAP_IHAVE, RESP_CAP_STREAMING, RESP_CAP_OVER, RESP_CAP_HDR,
          RESP_CAP_LIST, RESP_DOT_CRLF]))"

definition quit_handler :: "string list \<Rightarrow> unit handler" where
  "quit_handler args =
     bind_res (write_simple RESP_205_CLOSING) (\<lambda>_.
       throw (Anyhow ''Connection closed by QUIT command''))"

text \<open>What follows a verified password. A failed \<open>load_user\<close> is logged and ignored.\<close>

definition admit_user :: "ext \<Rightarrow> string \<Rightarrow> unit handler" where
  "admit_user X name =
     bind_res (ok_of (on_auth (auth_is_admin name))) (\<lambda>admin_result.
     let admin = (admin_result = Some True)
     in bind_res
          (if admin then ret Allowed
           else bind_res (try_connect name) (\<lambda>limit_result.
             if limit_result = ConnectionLimitExceeded then ret ConnectionLimitExceeded
             else bind_res (ok_of (load_user X name)) (\<lambda>_. ret Allowed)))
          (\<lambda>limit_result.
             if limit_result = ConnectionLimitExceeded then write_simple RESP_481_CONN_LIMIT
             else bind_res (set_session (authenticate_with_admin name admin)) (\<lambda>_.
                    write_simple RESP_281_AUTH_OK)))"

definition authinfo_pass :: "ext \<Rightarrow> string \<Rightarrow> unit handler" where
  "authinfo_pass X password =
     bind_res get_session (\<lambda>s.
       case pending_username s of
         Some name \<Rightarrow>
           bind_res (on_auth (verify_user X name password)) (\<lambda>verified.
             if verified then admit_user X name else write_simple RESP_481_AUTH_REJECTED)
       | None \<Rightarrow> write_simple RESP_481_AUTH_REJECTED)"

definition authinfo_handler :: "ext \<Rightarrow> string list \<Rightarrow> unit handler" where
  "authinfo_handler X args =
     bind_res get_session (\<lambda>s.
       if \<not> can_authenticate s then write_simple RESP_483_SECURE_REQ
       else case args of
              [] \<Rightarrow> write_simple RESP_501_NOT_ENOUGH
            | word # rest \<Rightarrow>
                if to_ascii_uppercase word = ''USER''
                then (case rest of
                        [] \<Rightarrow> write_simple RESP_501_NOT_ENOUGH
                      | name # _ \<Rightarrow>
                          bind_res (set_session (set_pending_username name)) (\<lambda>_.
                            write_simple RESP_381_PASSWORD_REQ))
                else if to_ascii_uppercase word = ''PASS''
                then (case rest of
                        [] \<Rightarrow> write_simple RESP_501_NOT_ENOUGH
                      | password # _ \<Rightarrow> authinfo_pass X password)
                else write_simple RESP_501_SYNTAX)"

definition mode_handler :: "string list \<Rightarrow> unit handler" where
  "mode_handler args =
     bind_res get_session (\<lambda>s.
       case args of
         [] \<Rightarrow> write_simple RESP_501_MISSING_MODE
       | word # _ \<Rightarrow>
           if to_ascii_uppercase word = ''READER''
           then write_simple (if can_post s then RESP_200_POSTING_ALLOWED else RESP_201_POSTING_PROHIBITED)
           else if to_ascii_uppercase word = ''STREAM'' then write_simple RESP_203_STREAMING
           else write_simple RESP_501_UNKNOWN_MODE)"

end
