(* ===== verification/Post_Handlers.thy ===== *)
theory Post_Handlers
  imports Session_Handlers
begin

text \<open>
  The posting and transfer commands: POST of \<^verbatim>\<open>src/src/handlers/post.rs\<close>; IHAVE, CHECK and TAKETHIS of
  \<^verbatim>\<open>src/src/handlers/streaming.rs\<close>. They read an article from the connection and send it to the queue: both can
  wait for ever, and then the handler has no result (\<open>None\<close>).
\<close>

type_synonym ('s, 'a) waits = "'s \<Rightarrow> ('a result \<times> 's) option"

type_synonym 'a waiting = "(ctx, 'a) waits"

definition now :: "('s, 'a) action \<Rightarrow> ('s, 'a) waits" where
  "now m c = Some (m c)"

definition bind_wait :: "('s, 'a) waits \<Rightarrow> ('a \<Rightarrow> ('s, 'b) waits) \<Rightarrow> ('s, 'b) waits" where
  "bind_wait m k c =
     (case m c of
        None \<Rightarrow> None
      | Some (Inl e, c') \<Rightarrow> Some (Inl e, c')
      | Some (Inr x, c') \<Rightarrow> k x c')"

text \<open>\<^verbatim>\<open>is_err()\<close>, negated: whether it succeeded.\<close>

definition succeeds :: "unit handler \<Rightarrow> bool handler" where
  "succeeds m = catch_res m (\<lambda>_. ret False) (\<lambda>_. ret True)"

definition read_article :: "string waiting" where
  "read_article c =
     (case read_message (reader c) of
        None \<Rightarrow> None
      | Some (r, rd) \<Rightarrow> Some (r, c\<lparr>reader := rd\<rparr>))"

definition enqueue :: "queued_article \<Rightarrow> bool waiting" where
  "enqueue q c =
     (case submit q c of
        None \<Rightarrow> None
      | Some (r, c') \<Rightarrow> Some (Inr (is_ok r), c'))"

text \<open>The headers an incoming article is given.\<close>

definition ensure_headers :: "ext \<Rightarrow> config \<Rightarrow> message \<Rightarrow> message" where
  "ensure_headers X cfg message =
     escape_message_id_header (ensure_date X (ensure_message_id X message (cfg_site_name cfg)))"

subsection \<open>POST\<close>

definition posting_disabled :: "bool handler" where
  "posting_disabled =
     bind_res get_session (\<lambda>s.
       case tracked_user s of
         None \<Rightarrow> ret False
       | Some name \<Rightarrow> bind_res (tracker_can_post name) (\<lambda>result. ret (result = PostingDisabled)))"

definition post_article :: "ext \<Rightarrow> string \<Rightarrow> message \<Rightarrow> unit waiting" where
  "post_article X msg parsed c =
     (let is_control = is_control_message parsed;
          message = ensure_headers X (config c) parsed;
          sz = of_nat (str_len msg)
      in bind_wait (now (check_bandwidth_rejected X sz)) (\<lambda>rejected.
         if rejected then now (ret ())
         else bind_wait (now (succeeds (comprehensive_validate_article X (config c) message sz))) (\<lambda>valid.
         if \<not> valid then now (write_simple RESP_441_POSTING_FAILED)
         else bind_wait (enqueue \<lparr>qa_message = message, qa_size = sz, qa_is_control = is_control,
                                  qa_already_validated = True\<rparr>) (\<lambda>queued.
         if \<not> queued then now (write_simple RESP_441_POSTING_FAILED)
         else bind_wait (now (record_bandwidth_usage X sz True)) (\<lambda>_.
         now (write_simple RESP_240_ARTICLE_RECEIVED)))))) c"

definition post_handler :: "ext \<Rightarrow> string list \<Rightarrow> unit waiting" where
  "post_handler X args =
     bind_wait (now get_session) (\<lambda>s.
       if \<not> can_post s
       then now (write_simple (if \<not> is_tls s then RESP_483_SECURE_REQ
                               else to_response (AuthErr AuthRequired)))
       else bind_wait (now posting_disabled) (\<lambda>disabled.
            if disabled then now (write_simple RESP_440_POST_PROHIBITED)
            else bind_wait (now (write_simple RESP_340_SEND_ARTICLE)) (\<lambda>_.
                 bind_wait read_article (\<lambda>msg.
                   case parse_message X msg of
                     None \<Rightarrow> now (write_simple RESP_441_POSTING_FAILED)
                   | Some (_, parsed) \<Rightarrow> post_article X msg parsed))))"

subsection \<open>IHAVE, CHECK and TAKETHIS\<close>

text \<open>What IHAVE and TAKETHIS do with an article they have received; they differ in the texts of their
  responses.\<close>

definition transfer_article :: "ext \<Rightarrow> string \<Rightarrow> string \<Rightarrow> string \<Rightarrow> message \<Rightarrow> unit waiting" where
  "transfer_article X accepted rejected msg parsed c =
     (let article = ensure_headers X (config c) parsed;
          sz = of_nat (str_len msg)
      in if is_control_message parsed
         then bind_wait (now (handle_control X article (config c))) (\<lambda>handled.
                now (write_simple (if handled then accepted else rejected)))
         else bind_wait (now (check_bandwidth_rejected X sz)) (\<lambda>over_limit.
           if over_limit then now (ret ())
           else bind_wait (now (succeeds (comprehensive_validate_article X (config c) article sz))) (\<lambda>valid.
           if \<not> valid then now (write_simple rejected)
           else bind_wait (now (succeeds (on_storage (store_article X article)))) (\<lambda>stored.
           if \<not> stored then now (write_simple rejected)
           else bind_wait (enqueue \<lparr>qa_message = article, qa_size = sz, qa_is_control = False,
                                    qa_already_validated = True\<rparr>) (\<lambda>_.
                bind_wait (now (record_bandwidth_usage X sz True)) (\<lambda>_.
                now (write_simple accepted))))))) c"

definition ihave_handler :: "ext \<Rightarrow> string list \<Rightarrow> unit waiting" where
  "ihave_handler X args =
     (case args of
        [] \<Rightarrow> now (write_simple RESP_501_MSGID_REQUIRED)
      | i # _ \<Rightarrow>
          bind_wait (now (on_storage (get_article_by_id X i))) (\<lambda>found.
            if found \<noteq> None then now (write_simple RESP_435_NOT_WANTED)
            else bind_wait (now (write_simple RESP_335_SEND_IT)) (\<lambda>_.
                 bind_wait read_article (\<lambda>msg.
                   case parse_message X msg of
                     None \<Rightarrow> now (write_simple RESP_437_REJECTED)
                   | Some (_, parsed) \<Rightarrow>
                       transfer_article X RESP_235_TRANSFER_OK RESP_437_REJECTED msg parsed))))"

definition check_handler :: "ext \<Rightarrow> string list \<Rightarrow> unit handler" where
  "check_handler X args =
     (case args of
        [] \<Rightarrow> write_simple RESP_501_MSGID_REQUIRED
      | i # _ \<Rightarrow>
          bind_res (on_storage (get_article_by_id X i)) (\<lambda>found.
            write_simple (streaming_response (if found \<noteq> None then 438 else 238) i)))"

definition takethis_handler :: "ext \<Rightarrow> string list \<Rightarrow> unit waiting" where
  "takethis_handler X args =
     (case args of
        [] \<Rightarrow> now (write_simple RESP_501_MSGID_REQUIRED)
      | i # _ \<Rightarrow>
          bind_wait read_article (\<lambda>msg.
            case parse_message X msg of
              None \<Rightarrow> now (write_simple (streaming_response 439 i))
            | Some (_, parsed) \<Rightarrow>
                bind_wait (now (on_storage (get_article_by_id X i))) (\<lambda>found.
                  if found \<noteq> None then now (write_simple (streaming_response 439 i))
                  else transfer_article X (streaming_response 239 i) (streaming_response 439 i) msg parsed)))"

end
