(* ===== verification/Client.thy ===== *)
theory Client
  imports Post_Handlers
begin

text \<open>
  The dispatch of commands, \<^verbatim>\<open>dispatch_command\<close> of \<^verbatim>\<open>src/src/handlers/mod.rs\<close>, and the life of a connection,
  \<^verbatim>\<open>handle_client\<close> of \<^verbatim>\<open>src/src/lib.rs\<close>.

  In the loop over the command lines a client that stays silent (\<open>Idle\<close>) runs into the idle timeout, which
  ends the loop like the end of the stream. A panic in a handler ends the connection's task: nothing of
  the loop runs after it.
\<close>

definition dispatch_command :: "ext \<Rightarrow> command \<Rightarrow> unit waiting" where
  "dispatch_command X cmd =
     (let name = to_ascii_uppercase (cmd_name cmd);
          args = cmd_args cmd
      in if name = ''ARTICLE'' then now (article_handler X Full args)
         else if name = ''HEAD'' then now (article_handler X Headers args)
         else if name = ''BODY'' then now (article_handler X Body args)
         else if name = ''STAT'' then now (article_handler X Stat args)
         else if name = ''GROUP'' then now (group_handler args)
         else if name = ''LIST'' then now (list_handler X args)
         else if name = ''LISTGROUP'' then now (listgroup_handler args)
         else if name = ''NEXT'' then now (next_handler X args)
         else if name = ''LAST'' then now (last_handler X args)
         else if name = ''NEWGROUPS'' then now (newgroups_handler X args)
         else if name = ''NEWNEWS'' then now (newnews_handler X args)
         else if name = ''HDR'' then now (hdr_handler X args)
         else if name = ''XPAT'' then now (xpat_handler X args)
         else if name = ''OVER'' then now (over_handler X args)
         else if name = ''XOVER'' then now (over_handler X args)
         else if name = ''POST'' then post_handler X args
         else if name = ''IHAVE'' then ihave_handler X args
         else if name = ''CHECK'' then now (check_handler X args)
         else if name = ''TAKETHIS'' then takethis_handler X args
         else if name = ''AUTHINFO'' then now (authinfo_handler X args)
         else if name = ''MODE'' then now (mode_handler args)
         else if name = ''CAPABILITIES'' then now (capabilities_handler args)
         else if name = ''DATE'' then now (date_handler X args)
         else if name = ''HELP'' then now (help_handler args)
         else if name = ''QUIT'' then now (quit_handler args)
         else now (write_all RESP_500_UNKNOWN_CMD))"

datatype turn = Continue | Break

text \<open>One turn of the loop: a line is read, and its command is run.\<close>

definition run_line :: "ext \<Rightarrow> string \<Rightarrow> turn waiting" where
  "run_line X line =
     (case parse_command X (trim_end_matches (\<lambda>ch. ch = CR \<or> ch = LF) line) of
        None \<Rightarrow> now (bind_res (write_all RESP_500_SYNTAX) (\<lambda>_. ret Continue))
      | Some (_, cmd) \<Rightarrow>
          if cmd_name cmd = ''QUIT''
          then now (bind_res (write_all RESP_205_CLOSING) (\<lambda>_. ret Break))
          else (\<lambda>c. case dispatch_command X cmd c of
                      None \<Rightarrow> None
                    | Some (Inl e, c') \<Rightarrow> Some (if e = Panic then Inl Panic else Inr Continue, c')
                    | Some (Inr _, c') \<Rightarrow> Some (Inr Continue, c')))"

definition client_turn :: "ext \<Rightarrow> turn waiting" where
  "client_turn X c =
     (case read_line (reader c) of
        None \<Rightarrow> Some (Inr Break, c)
      | Some (Inl e, r) \<Rightarrow> Some (Inl e, c\<lparr>reader := r\<rparr>)
      | Some (Inr line, r) \<Rightarrow>
          if line = [] then Some (Inr Break, c\<lparr>reader := r\<rparr>)
          else run_line X line (c\<lparr>reader := r\<rparr>))"

partial_function (option) client_loop :: "ext \<Rightarrow> ctx \<Rightarrow> (unit result \<times> ctx) option" where
  "client_loop X c =
     Option.bind (client_turn X c) (\<lambda>(r, c').
       case r of
         Inl e \<Rightarrow> Some (Inl e, c')
       | Inr t \<Rightarrow> (case t of Break \<Rightarrow> Some (Inr (), c') | Continue \<Rightarrow> client_loop X c'))"

declare client_loop.simps [code]

definition end_session :: "ctx \<Rightarrow> ctx" where
  "end_session c =
     (case tracked_user (session c) of None \<Rightarrow> c | Some name \<Rightarrow> disconnect name c)"

definition start_ctx :: "server \<Rightarrow> bool \<Rightarrow> reader \<Rightarrow> writer \<Rightarrow> ctx" where
  "start_ctx w tls r wr =
     server.extend w (ctx.fields r wr
       (new_session tls (cfg_allow_auth_insecure_connections (config w))
          (cfg_allow_anonymous_posting (config w))))"

definition handle_client :: "ext \<Rightarrow> bool \<Rightarrow> server \<Rightarrow> reader \<Rightarrow> writer \<Rightarrow> (unit result \<times> ctx) option" where
  "handle_client X tls w r wr =
     bind_wait (now (\<lambda>c.
         write_all (if can_post (session c) then RESP_200_READY else RESP_201_READY_NO_POST) c)) (\<lambda>_.
       bind_wait (client_loop X) (\<lambda>_. now (\<lambda>c. (Inr (), end_session c))))
       (start_ctx w tls r wr)"

end
