(* ===== verification/Handler_Invariants.thy ===== *)
theory Handler_Invariants
  imports Client Queue_Properties Auth_Properties
begin

text \<open>
  What commands keep. The locale \<open>handler_invariant\<close> is the contract of a property of a connection's
  context that the primitive operations of the handlers keep; in it, one lemma per primitive operation
  goes into \<open>ctx_keeps\<close>, and a handler keeps the property because its parts do. \<open>command_invariant\<close> adds what
  the commands that read an article and queue it need, \<open>login_invariant\<close> what AUTHINFO needs, and
  \<open>connection_invariant\<close> is both. They are interpreted on the invariant of a connection (\<open>ctx_ok\<close>), on the
  identity of its user and on its unread input.
\<close>

named_theorems ctx_keeps "the operations keep the invariant of a connection"
named_theorems wait_intros "structural rules for keeps_wait"

subsection \<open>Operations that read the storage\<close>

lemma storage_reads [storage_keeps]:
  "keeps (storage_ok X) (get_article_by_number Y g n)" "keeps (storage_ok X) (get_message_size i)"
  "keeps (storage_ok X) (group_exists g)" "keeps (storage_ok X) list_groups"
  "keeps (storage_ok X) list_groups_with_descriptions" "keeps (storage_ok X) (list_groups_since t)"
  "keeps (storage_ok X) list_groups_with_times" "keeps (storage_ok X) (list_article_numbers g)"
  "keeps (storage_ok X) (list_article_ids_since g t)" "keeps (storage_ok X) (generate_overview_line n a)"
  unfolding get_article_by_number_def get_message_size_def group_exists_def list_groups_def
    list_groups_with_descriptions_def list_groups_since_def list_groups_with_times_def
    list_article_numbers_def list_article_ids_since_def
  by (intro keeps_intros generate_overview_line_keeps storage_ok_faults)+

lemma parse_range_keeps [storage_keeps]: "keeps (storage_ok X) (parse_range g spec)"
  unfolding parse_range_def by (intro keeps_intros storage_keeps)

text \<open>Operations that read the authentication database:\<close>

lemma auth_reads_ok:
  "keeps adb_ok (get_user_limits u)" "keeps adb_ok (get_user_usage X u)"
  "keeps adb_ok (auth_is_admin u)" "keeps adb_ok (verify_user X u p)"
  unfolding get_user_limits_def get_user_usage_def auth_is_admin_def verify_user_def
  by (intro keeps_intros; simp)+

lemma adb_ok_rows:
  assumes "account_rows d' = account_rows d" and "admins d' = admins d" and "moderators d' = moderators d"
  shows "adb_ok d' = adb_ok d"
proof -
  have "user_names d' = set (map u_username (users d'))" "user_names d = set (map u_username (users d))"
    by (simp_all add: user_names_def)
  with assms have "user_names d' = user_names d" by (simp add: account_rows_def del: set_map)
  with assms show ?thesis by (simp add: adb_ok_def account_rows_def)
qed

subsection \<open>Primitive operations\<close>

lemma keeps_map_err [keeps_intros]: "keeps P m \<Longrightarrow> keeps P (map_err e m)"
  by (fastforce simp: keeps_def map_err_def split: prod.splits sum.splits)

lemma keeps_ok_of [keeps_intros]: "keeps P m \<Longrightarrow> keeps P (ok_of m)"
  by (fastforce simp: keeps_def ok_of_def split: prod.splits sum.splits)

lemma keeps_match_query [keeps_intros]:
  "keeps P q \<Longrightarrow> (\<And>e. keeps P (h e)) \<Longrightarrow> (\<And>x. keeps P (k x)) \<Longrightarrow> keeps P (match_query q h k)"
  by (fastforce simp: keeps_def match_query_def split: prod.splits sum.splits)

lemma keeps_list [keeps_intros]:
  "keeps P m \<Longrightarrow> (\<And>x xs. v = x # xs \<Longrightarrow> keeps P (f x xs)) \<Longrightarrow>
   keeps P (case v of [] \<Rightarrow> m | x # xs \<Rightarrow> f x xs)"
  by (cases v) auto

text \<open>Commands that may wait:\<close>

definition keeps_wait :: "(ctx \<Rightarrow> bool) \<Rightarrow> 'a waiting \<Rightarrow> bool" where
  "keeps_wait P m \<longleftrightarrow> (\<forall>c r c'. P c \<longrightarrow> m c = Some (r, c') \<longrightarrow> P c')"

lemma keeps_waitD: "keeps_wait P m \<Longrightarrow> m c = Some (r, c') \<Longrightarrow> P c \<Longrightarrow> P c'"
  by (simp add: keeps_wait_def)

lemma keeps_wait_now [wait_intros]: "keeps P m \<Longrightarrow> keeps_wait P (now m)"
  by (auto simp: keeps_wait_def keeps_def now_def)

lemma keeps_wait_bind [wait_intros]:
  assumes "keeps_wait P m" and "\<And>x. keeps_wait P (k x)"
  shows "keeps_wait P (bind_wait m k)"
  unfolding keeps_wait_def
proof (intro allI impI)
  fix c r c' assume P: "P c" and run: "bind_wait m k c = Some (r, c')"
  then obtain r1 c1 where m: "m c = Some (r1, c1)" by (auto simp: bind_wait_def split: option.splits)
  with assms(1) P have "P c1" using keeps_waitD by blast
  with run m assms(2) show "P c'" by (cases r1) (auto simp: bind_wait_def dest: keeps_waitD)
qed

lemma keeps_wait_if [wait_intros]:
  "keeps_wait P m \<Longrightarrow> keeps_wait P n \<Longrightarrow> keeps_wait P (if b then m else n)"
  by simp

lemma keeps_wait_option [wait_intros]:
  "keeps_wait P m \<Longrightarrow> (\<And>x. keeps_wait P (f x)) \<Longrightarrow>
   keeps_wait P (case v of None \<Rightarrow> m | Some x \<Rightarrow> f x)"
  by (cases v) auto

lemma keeps_wait_prod [wait_intros]:
  "(\<And>x y. keeps_wait P (f x y)) \<Longrightarrow> keeps_wait P (case v of (x, y) \<Rightarrow> f x y)"
  by (cases v) auto

lemma keeps_wait_list [wait_intros]:
  "keeps_wait P m \<Longrightarrow> (\<And>x xs. keeps_wait P (f x xs)) \<Longrightarrow>
   keeps_wait P (case v of [] \<Rightarrow> m | x # xs \<Rightarrow> f x xs)"
  by (cases v) auto

lemma succeeds_keeps [keeps_intros]: "keeps P m \<Longrightarrow> keeps P (succeeds m)"
  unfolding succeeds_def by (intro keeps_intros)

text \<open>What does not touch the session:\<close>

named_theorems session_frames "operations that leave the session as it is"

lemma session_unchanged [session_frames]:
  "keeps (\<lambda>c. Q (session c)) (on_auth m)" "keeps (\<lambda>c. Q (session c)) (on_storage n)"
  "keeps (\<lambda>c. Q (session c)) (write_all t)" "keeps (\<lambda>c. Q (session c)) (write_simple t)"
  "keeps (\<lambda>c. Q (session c)) (get_effective_limits u)" "keeps (\<lambda>c. Q (session c)) (try_connect u)"
  "keeps (\<lambda>c. Q (session c)) (load_user Y u)" "keeps (\<lambda>c. Q (session c)) (check_bandwidth Y u k)"
proof -
  show lims: "keeps (\<lambda>c. Q (session c)) (get_effective_limits u)"
    by (auto simp: keeps_def get_effective_limits_def on_auth_def set_tracker_def
        split: option.splits prod.splits sum.splits)
  show "keeps (\<lambda>c. Q (session c)) (try_connect u)"
    unfolding try_connect_def
    by (intro keeps_bind lims) (auto simp: keeps_def Let_def set_tracker_def split: option.splits)
  show "keeps (\<lambda>c. Q (session c)) (load_user Y u)"
    by (auto simp: keeps_def load_user_def on_auth_def put_bandwidth_def set_tracker_def
        split: option.splits prod.splits sum.splits)
  show "keeps (\<lambda>c. Q (session c)) (check_bandwidth Y u k)"
    unfolding check_bandwidth_def
    by (intro keeps_bind lims)
       (auto simp: keeps_def Let_def put_bandwidth_def set_tracker_def split: option.splits sum.splits)
qed (auto simp: keeps_def write_simple_def write_all_def on_auth_def on_storage_def split: option.splits prod.splits)

text \<open>The commands that read an article from the connection:\<close>

definition reads_article :: "command \<Rightarrow> bool" where
  "reads_article cmd \<longleftrightarrow> to_ascii_uppercase (cmd_name cmd) \<in> {''POST'', ''IHAVE'', ''TAKETHIS''}"

subsection \<open>The contract\<close>

locale handler_invariant =
  fixes X :: ext and P :: "ctx \<Rightarrow> bool"
  assumes writer_changes: "P c \<Longrightarrow> P (c\<lparr>writer := wr\<rparr>)"
    and auth_changes: "P c \<Longrightarrow> (adb_ok (auth c) \<Longrightarrow> adb_ok a) \<Longrightarrow> P (c\<lparr>auth := a\<rparr>)"
    and tracker_changes: "P c \<Longrightarrow> connections t = connections (usage_tracker c) \<Longrightarrow>
          limits_cache (usage_tracker c) \<subseteq>\<^sub>m limits_cache t \<Longrightarrow> P (c\<lparr>usage_tracker := t\<rparr>)"
    and storage_changes: "P c \<Longrightarrow> (storage_ok X (storage c) \<Longrightarrow> storage_ok X d) \<Longrightarrow> P (c\<lparr>storage := d\<rparr>)"
    and group_selected: "P c \<Longrightarrow> P (c\<lparr>session := select_group g n (session c)\<rparr>)"
    and article_selected: "P c \<Longrightarrow> current_group (session c) \<noteq> None \<Longrightarrow>
          P (c\<lparr>session := set_current_article i (session c)\<rparr>)"
begin

lemma write_keeps [ctx_keeps]: "keeps P (write_all t)"
  by (auto simp: keeps_def write_all_def writer_changes split: option.splits)

lemma write_simple_keeps [ctx_keeps]: "keeps P (write_simple t)"
  unfolding write_simple_def by (rule write_keeps)

lemma write_lines_keeps [ctx_keeps]: "keeps P (write_lines ts)"
  unfolding write_lines_def by (intro keeps_intros ctx_keeps)

lemma get_session_keeps [ctx_keeps]: "keeps P get_session"
  by (simp add: keeps_def get_session_def)

lemma on_storage_keeps [ctx_keeps]: "keeps (storage_ok X) m \<Longrightarrow> keeps P (on_storage m)"
  unfolding keeps_def on_storage_def
  by (auto split: prod.splits intro!: storage_changes)

lemma on_auth_keeps [ctx_keeps]: "keeps adb_ok m \<Longrightarrow> keeps P (on_auth m)"
  unfolding keeps_def on_auth_def
  by (auto split: prod.splits intro!: auth_changes)

lemma select_group_keeps [ctx_keeps]: "keeps P (set_session (select_group g n))"
  by (auto simp: keeps_def set_session_def group_selected)

text \<open>The tracker: its operations change the authentication database and the tracker only.\<close>

lemma put_bandwidth_changes: "P c \<Longrightarrow> P (put_bandwidth u b c)"
  by (simp add: put_bandwidth_def set_tracker_def tracker_changes)

lemma limits_cached_changes:
  "P c \<Longrightarrow> limits_cache (usage_tracker c) u = None \<Longrightarrow>
     P (set_tracker (\<lambda>t. t\<lparr>limits_cache := (limits_cache t)(u \<mapsto> l)\<rparr>) c)"
  unfolding set_tracker_def by (rule tracker_changes) (auto simp: map_le_def)

lemma effective_limits_keeps [ctx_keeps]: "keeps P (get_effective_limits u)"
proof (rule keepsI)
  fix c assume P: "P c"
  obtain r c1 where run: "on_auth (get_user_limits u) c = (r, c1)" by fastforce
  with P have "P c1" using keepsD' [OF on_auth_keeps [OF auth_reads_ok(1)]] by blast
  moreover have "usage_tracker c1 = usage_tracker c" using run by (auto simp: on_auth_def split: prod.splits)
  ultimately show "P (snd (get_effective_limits u c))"
    using P run by (auto simp: get_effective_limits_def limits_cached_changes split: option.splits sum.splits)
qed

lemma tracker_keeps [ctx_keeps]:
  "keeps P (check_bandwidth Y u n)" "keeps P (tracker_can_post u)" "keeps P (load_user Y u)"
proof -
  show "keeps P (check_bandwidth Y u n)"
    unfolding check_bandwidth_def
    by (intro keeps_bind ctx_keeps)
       (auto simp: keeps_def Let_def put_bandwidth_changes split: option.splits sum.splits)
  show "keeps P (tracker_can_post u)"
    unfolding tracker_can_post_def by (intro keeps_intros ctx_keeps)
  show "keeps P (load_user Y u)"
  proof (rule keepsI)
    fix c assume "P c"
    from keepsD [OF on_auth_keeps [OF auth_reads_ok(2)] this, of Y u] show "P (snd (load_user Y u c))"
      by (auto simp: load_user_def put_bandwidth_changes split: prod.splits sum.splits)
  qed
qed

lemma record_bandwidth_changes: "P c \<Longrightarrow> P (record_bandwidth Y u n b c)"
  by (simp add: record_bandwidth_def Let_def put_bandwidth_changes)

lemma keys_change: "only_keys X ks c c' \<Longrightarrow> P c \<Longrightarrow> P c'"
proof -
  assume keys: "only_keys X ks c c'" and P: "P c"
  have "c' = c\<lparr>storage := storage c', auth := auth c'\<rparr>"
    using keys by (cases c; cases c') (auto simp: only_keys_def)
  moreover have "P (c\<lparr>storage := storage c', auth := auth c'\<rparr>)"
    using keys P storage_ok_tables adb_ok_rows [of "auth c'" "auth c"] unfolding only_keys_def
    by (intro auth_changes storage_changes) (auto simp del: split_paired_All)
  ultimately show ?thesis by simp
qed

lemma stable: "worker_stable X P"
  unfolding worker_stable_def
proof (intro conjI allI impI)
  fix ks c c' assume "only_keys X ks c c'" "P c"
  then show "P c'" by (rule keys_change)
qed (auto intro: ctx_keeps storage_keeps auth_reads_ok)

lemmas validate_keeps [ctx_keeps] = worker_stable_parts(1) [OF stable moves_validate_article]

lemmas control_keeps [ctx_keeps] = Queue_Properties.keeps_handle_control [OF stable]

lemma comprehensive_keeps [ctx_keeps]: "keeps P (comprehensive_validate_article X cfg a sz)"
  using validate_keeps [of cfg a sz] by (simp add: validate_article_def [abs_def])

subsection \<open>Article commands\<close>

text \<open>Resolving numbers makes an article current: that needs the group to be selected, and keeps it so.\<close>

lemma article_selected_keeps:
  "keeps (\<lambda>c. P c \<and> current_group (session c) = Some g) (set_session (set_current_article n))"
proof -
  have "current_group (set_current_article n s) = current_group s" for s
    by (simp add: set_current_article_def)
  then show ?thesis by (simp add: keeps_def set_session_def article_selected)
qed

lemma resolve_numbers_keeps:
  "keeps (\<lambda>c. P c \<and> current_group (session c) = Some g) (resolve_numbers Y g' ns)"
proof (induction ns)
  case Nil
  then show ?case by (simp add: keeps_def)
next
  case (Cons n ns)
  let ?P = "\<lambda>c. P c \<and> current_group (session c) = Some g"
  have eq: "resolve_numbers Y g' (n # ns) =
     bind_res (map_err NotFoundByNumber (on_storage (get_article_by_number Y g' n))) (\<lambda>found.
       case found of
         Some article \<Rightarrow>
           bind_res (set_session (set_current_article n)) (\<lambda>_.
             bind_res (resolve_numbers Y g' ns) (\<lambda>rest. ret ((n, article) # rest)))
       | None \<Rightarrow> resolve_numbers Y g' ns)" by (simp add: fun_eq_iff)
  have "keeps ?P (on_storage (get_article_by_number Y g' n))"
    by (intro keeps_conj ctx_keeps storage_keeps keeps_on_storage_frame) simp
  moreover have "keeps ?P (set_session (set_current_article n))" by (rule article_selected_keeps)
  ultimately show ?case unfolding eq by (intro keeps_intros Cons)
qed

lemma resolve_articles_keeps [ctx_keeps]: "keeps P (resolve_articles Y arg)"
proof (rule keepsI)
  fix c assume ok: "P c"
  have range: "keeps (\<lambda>c. P c \<and> current_group (session c) = Some g)
      (bind_res (map_err RangeEmpty (on_storage (parse_range g a))) (\<lambda>nums.
         if nums = [] then throw RangeEmpty
         else bind_res (resolve_numbers Y g nums) (\<lambda>articles.
           if articles = [] then throw NotFoundByNumber else ret articles)))" for g a
    by (intro keeps_intros resolve_numbers_keeps keeps_conj ctx_keeps storage_keeps keeps_on_storage_frame) simp
  have get: "keeps P (bind_res (map_err e (on_storage (get_article_by_number Y g n))) (\<lambda>found.
      case found of Some article \<Rightarrow> ret [(n, article)] | None \<Rightarrow> throw e'))" for e e' g n
    by (intro keeps_intros ctx_keeps storage_keeps)
  have get_id: "keeps P (bind_res (map_err e (on_storage (get_article_by_id Y i))) (\<lambda>found.
      case found of Some article \<Rightarrow> ret [(0, article)] | None \<Rightarrow> throw e'))" for e e' i
    unfolding get_article_by_id_def by (intro keeps_intros ctx_keeps storage_keeps storage_ok_faults)
  show "P (snd (resolve_articles Y arg c))"
    using ok keepsD [OF range, of c] keepsD [OF get ok] keepsD [OF get_id ok]
    by (auto simp: resolve_articles_def bind_res_def [of get_session] get_session_def split: option.splits)
qed

lemma handle_article_error_keeps [ctx_keeps]: "keeps P (handle_article_error e)"
  unfolding handle_article_error_def by (rule ctx_keeps)

lemma get_article_keeps: "keeps (storage_ok X) (get_article_by_id Y i)"
  unfolding get_article_by_id_def by (intro keeps_intros storage_ok_faults)

lemma send_articles_keeps [ctx_keeps]: "keeps P (send_articles Y op u as)"
proof (induction as)
  case Nil
  then show ?case by (simp add: keeps_def)
next
  case (Cons a as)
  obtain n art where a: "a = (n, art)" by fastforce
  let ?next = "\<lambda>c. send_articles Y op u as
    (case u of Some name \<Rightarrow> if 0 < article_size op art
       then record_bandwidth Y name (article_size op art) False c else c | None \<Rightarrow> c)"
  have eq: "send_articles Y op u (a # as) =
     bind_res
       (case u of
          Some name \<Rightarrow>
            if 0 < article_size op art then check_bandwidth Y name (article_size op art) else ret Allowed
        | None \<Rightarrow> ret Allowed)
       (\<lambda>result.
          if result = BandwidthExceeded then write_simple RESP_403_BANDWIDTH_EXCEEDED
          else bind_res (write_all (article_response_line op n art)) (\<lambda>_.
               bind_res (write_all (article_content op art)) (\<lambda>_. ?next)))"
    by (simp add: fun_eq_iff a)
  have "keeps P ?next"
    using Cons by (auto simp: keeps_def record_bandwidth_changes split: option.splits)
  then show ?case unfolding eq by (intro keeps_intros ctx_keeps)
qed

lemma article_handler_keeps [ctx_keeps]: "keeps P (article_handler Y op args)"
  unfolding article_handler_def handle_article_operation_def by (intro keeps_intros ctx_keeps)

lemma get_field_value_keeps [ctx_keeps]: "keeps P (get_field_value a f)"
  unfolding get_field_value_def metadata_value_def by (intro keeps_intros ctx_keeps storage_keeps)

lemma collect_numbers_keeps [ctx_keeps]: "keeps P (collect_numbers Y g f ns)"
proof (induction ns)
  case Nil
  then show ?case by (simp add: keeps_def)
next
  case (Cons n ns)
  have eq: "collect_numbers Y g f (n # ns) =
     bind_res (map_err NotFoundByNumber (on_storage (get_article_by_number Y g n))) (\<lambda>found.
       case found of
         Some article \<Rightarrow>
           bind_res (get_field_value article f) (\<lambda>val.
             bind_res (collect_numbers Y g f ns) (\<lambda>rest. ret ((n, val) # rest)))
       | None \<Rightarrow> collect_numbers Y g f ns)" by (simp add: fun_eq_iff)
  show ?case unfolding eq by (intro keeps_intros ctx_keeps storage_keeps Cons)
qed

lemma collect_header_values_keeps [ctx_keeps]: "keeps P (collect_header_values Y f r)"
  unfolding collect_header_values_def
  by (intro keeps_intros ctx_keeps storage_keeps get_article_keeps)

lemma header_handlers_keep [ctx_keeps]:
  "keeps P (hdr_handler Y args)" "keeps P (xpat_handler Y args)"
  "keeps P (over_handler Y args)"
  unfolding hdr_handler_def xpat_handler_def over_handler_def handle_all_headers_def write_response_with_values_def
  by (auto split: list.splits intro!: keeps_intros ctx_keeps storage_keeps simp del: ret_simp throw_simp)

subsection \<open>Group and session commands\<close>

lemma list_handlers_keep [ctx_keeps]:
  "keeps P (handle_list_active Y p)" "keeps P handle_list_newsgroups"
  "keeps P handle_list_active_times" "keeps P handle_list_overview_fmt"
  "keeps P handle_list_headers"
  unfolding handle_list_active_def handle_list_newsgroups_def handle_list_active_times_def
    handle_list_overview_fmt_def handle_list_headers_def
  by (intro keeps_intros ctx_keeps storage_keeps)+

lemma navigate_article_keeps [ctx_keeps]: "keeps P (navigate_article Y dir)"
proof (rule keepsI)
  fix c assume ok: "P c"
  let ?P = "\<lambda>g c. P c \<and> current_group (session c) = Some g"
  have wr: "keeps (?P g) (write_simple t)" for g t
    by (auto simp: keeps_def write_simple_def write_all_def writer_changes split: option.splits)
  have set: "keeps (?P g) (set_session (set_current_article n))" for g n
    by (rule article_selected_keeps)
  have read: "keeps (?P g) (on_storage m)" if "keeps (storage_ok X) m" for g and m :: "(db, 'v) action"
    by (intro keeps_conj ctx_keeps that keeps_on_storage_frame) simp
  have nav: "keeps (?P g)
     (bind_res (on_storage (list_article_numbers g)) (\<lambda>nums.
        case position nums n of
          None \<Rightarrow> write_simple (error_response dir)
        | Some pos \<Rightarrow>
            if new_position dir pos < length nums
            then let new_num = nums ! new_position dir pos
                 in bind_res (on_storage (get_article_by_number Y g new_num)) (\<lambda>found.
                      case found of
                        Some article \<Rightarrow>
                          bind_res (set_session (set_current_article new_num)) (\<lambda>_.
                            write_simple (''223 '' @ show_nat new_num @ '' '' @
                              unwrap_or_default (extract_message_id article) @ '' article exists'' @ CRLF))
                      | None \<Rightarrow> write_simple (error_response dir))
            else write_simple (error_response dir)))" for g n
    unfolding Let_def by (intro keeps_intros read wr set storage_keeps)
  show "P (snd (navigate_article Y dir c))"
    using ok keepsD [OF nav, of c] keepsD [OF write_simple_keeps ok]
    by (auto simp: navigate_article_def bind_res_def [of get_session] get_session_def split: option.splits)
qed

lemma group_handlers_keep [ctx_keeps]:
  "keeps P (group_handler args)" "keeps P (list_handler Y args)"
  "keeps P (listgroup_handler args)" "keeps P (next_handler Y args)"
  "keeps P (last_handler Y args)" "keeps P (newgroups_handler Y args)"
  "keeps P (newnews_handler Y args)"
  unfolding group_handler_def list_handler_def listgroup_handler_def next_handler_def last_handler_def
    newgroups_handler_def newnews_handler_def
  by (intro keeps_intros ctx_keeps storage_keeps)+

text \<open>A session is authenticated only after the check that it may be.\<close>

lemma session_handlers_keep [ctx_keeps]:
  "keeps P (date_handler Y args)" "keeps P (help_handler args)"
  "keeps P (capabilities_handler args)" "keeps P (quit_handler args)"
  "keeps P (mode_handler args)"
  unfolding date_handler_def help_handler_def capabilities_handler_def quit_handler_def mode_handler_def
  by (intro keeps_intros ctx_keeps)+

lemma bandwidth_handlers_keep [ctx_keeps]:
  "keeps P (check_bandwidth_rejected Y n)" "keeps P (record_bandwidth_usage Y n b)"
  "keeps P posting_disabled"
proof -
  show "keeps P (check_bandwidth_rejected Y n)"
    unfolding check_bandwidth_rejected_def by (intro keeps_intros ctx_keeps)
  show "keeps P (record_bandwidth_usage Y n b)"
    by (auto simp: keeps_def record_bandwidth_usage_def record_bandwidth_changes split: option.splits)
  show "keeps P posting_disabled"
    unfolding posting_disabled_def by (intro keeps_intros ctx_keeps)
qed

lemma check_handler_keeps [ctx_keeps]: "keeps P (check_handler X args)"
  unfolding check_handler_def by (intro keeps_intros ctx_keeps storage_keeps)

text \<open>Every command that neither logs in nor reads an article keeps the property.\<close>

lemma dispatch_plain_keeps:
  "to_ascii_uppercase (cmd_name cmd) \<noteq> ''AUTHINFO'' \<Longrightarrow> \<not> reads_article cmd \<Longrightarrow>
     keeps_wait P (dispatch_command X cmd)"
  unfolding dispatch_command_def Let_def reads_article_def
  by (simp only: if_False insert_iff empty_iff de_Morgan_disj, intro wait_intros ctx_keeps)

end

subsection \<open>Commands that read an article\<close>

locale command_invariant = handler_invariant +
  assumes reader_changes: "P c \<Longrightarrow> P (c\<lparr>reader := rd\<rparr>)"
    and article_queued: "P c \<Longrightarrow> queue_len (queue c) < queue_capacity (queue c) \<Longrightarrow>
          P (c\<lparr>queue := (queue c)\<lparr>queue_items := queue_items (queue c) @ [q]\<rparr>\<rparr>)"
begin

lemma read_article_keeps [wait_intros]: "keeps_wait P read_article"
  by (auto simp: keeps_wait_def read_article_def reader_changes split: option.splits)

lemma enqueue_keeps [wait_intros]: "keeps_wait P (enqueue q)"
  by (auto simp: keeps_wait_def enqueue_def submit_def article_queued split: option.splits if_splits)

lemma post_article_keeps [wait_intros]: "keeps_wait P (post_article X msg a)"
proof -
  have "keeps_wait P
     (bind_wait (now (check_bandwidth_rejected X sz)) (\<lambda>rejected.
         if rejected then now (ret ())
         else bind_wait (now (succeeds (comprehensive_validate_article X cfg m sz))) (\<lambda>valid.
         if \<not> valid then now (write_simple RESP_441_POSTING_FAILED)
         else bind_wait (enqueue q) (\<lambda>queued.
         if \<not> queued then now (write_simple RESP_441_POSTING_FAILED)
         else bind_wait (now (record_bandwidth_usage X sz True)) (\<lambda>_.
         now (write_simple RESP_240_ARTICLE_RECEIVED))))))" for sz cfg m q
    by (intro wait_intros keeps_intros ctx_keeps)
  then show ?thesis unfolding keeps_wait_def post_article_def Let_def by blast
qed

lemma transfer_article_keeps [wait_intros]: "keeps_wait P (transfer_article X acc rej msg a)"
proof -
  have "keeps_wait P
     (if is_control_message a
      then bind_wait (now (handle_control X m cfg)) (\<lambda>handled.
             now (write_simple (if handled then acc else rej)))
      else bind_wait (now (check_bandwidth_rejected X sz)) (\<lambda>over_limit.
           if over_limit then now (ret ())
           else bind_wait (now (succeeds (comprehensive_validate_article X cfg m sz))) (\<lambda>valid.
           if \<not> valid then now (write_simple rej)
           else bind_wait (now (succeeds (on_storage (store_article X m)))) (\<lambda>stored.
           if \<not> stored then now (write_simple rej)
           else bind_wait (enqueue q) (\<lambda>_.
                bind_wait (now (record_bandwidth_usage X sz True)) (\<lambda>_.
                now (write_simple acc)))))))" for sz cfg m q
    by (intro wait_intros keeps_intros ctx_keeps storage_keeps)
  then show ?thesis unfolding keeps_wait_def transfer_article_def Let_def by blast
qed

lemma posting_handlers_keep [wait_intros]:
  "keeps_wait P (post_handler X args)" "keeps_wait P (ihave_handler X args)"
  "keeps_wait P (takethis_handler X args)"
  unfolding post_handler_def ihave_handler_def takethis_handler_def
  by (intro wait_intros keeps_intros ctx_keeps storage_keeps)+

text \<open>Every command but AUTHINFO keeps the property.\<close>

lemma dispatch_other_keeps:
  "to_ascii_uppercase (cmd_name cmd) \<noteq> ''AUTHINFO'' \<Longrightarrow> keeps_wait P (dispatch_command X cmd)"
  unfolding dispatch_command_def Let_def
  by (simp only: if_False, intro wait_intros ctx_keeps)

end

subsection \<open>Logging in\<close>

locale login_invariant = handler_invariant +
  assumes user_named: "P c \<Longrightarrow> P (c\<lparr>session := set_pending_username u (session c)\<rparr>)"
    and user_admitted: "P c \<Longrightarrow> can_authenticate (session c) \<Longrightarrow>
          P (c\<lparr>session := authenticate_with_admin u b (session c)\<rparr>)"
    and connections_counted: "P c \<Longrightarrow> P (c\<lparr>usage_tracker := (usage_tracker c)\<lparr>connections := cs\<rparr>\<rparr>)"
begin

lemma try_connect_keeps [ctx_keeps]: "keeps P (try_connect u)"
  unfolding try_connect_def
  by (intro keeps_bind ctx_keeps)
     (auto simp: keeps_def Let_def set_tracker_def connections_counted split: option.splits)

lemma admit_user_keeps:
  "keeps (\<lambda>c. P c \<and> can_authenticate (session c)) (admit_user Y u)"
proof -
  let ?P = "\<lambda>c. P c \<and> can_authenticate (session c)"
  have set: "keeps ?P (set_session (authenticate_with_admin u b))" for b
  proof -
    have "can_authenticate (authenticate_with_admin u b s) = can_authenticate s" for s
      by (simp add: can_authenticate_def authenticate_with_admin_def)
    then show ?thesis by (simp add: keeps_def set_session_def user_admitted)
  qed
  show ?thesis
    unfolding admit_user_def Let_def
    by (intro keeps_intros set) (intro keeps_conj ctx_keeps keeps_intros session_frames auth_reads_ok)+
qed

lemma authinfo_handler_keeps [ctx_keeps]: "keeps P (authinfo_handler Y args)"
proof (rule keepsI)
  fix c assume ok: "P c"
  have pass: "P (snd (authinfo_pass Y pw c))" if can: "can_authenticate (session c)" for pw
  proof -
    have "keeps (\<lambda>c. P c \<and> can_authenticate (session c))
        (bind_res (on_auth (verify_user Y u pw)) (\<lambda>verified.
           if verified then admit_user Y u else write_simple RESP_481_AUTH_REJECTED))" for u
    proof (intro keeps_intros admit_user_keeps)
      show "keeps (\<lambda>c. P c \<and> can_authenticate (session c)) (on_auth (verify_user Y u pw))"
        by (intro keeps_conj ctx_keeps keeps_on_auth_frame auth_reads_ok) simp
      show "keeps (\<lambda>c. P c \<and> can_authenticate (session c)) (write_simple RESP_481_AUTH_REJECTED)"
        by (auto simp: keeps_def write_simple_def write_all_def writer_changes split: option.splits)
    qed
    from keepsD [OF this, of c] keepsD [OF write_simple_keeps ok] ok can show ?thesis
      by (auto simp: authinfo_pass_def bind_res_def [of get_session] get_session_def split: option.splits)
  qed
  have user: "keeps P (bind_res (set_session (set_pending_username u))
      (\<lambda>_. write_simple RESP_381_PASSWORD_REQ))" for u
    by (intro keeps_intros ctx_keeps) (auto simp: keeps_def set_session_def user_named)
  show "P (snd (authinfo_handler Y args c))"
    using pass keepsD [OF user ok] keepsD [OF write_simple_keeps ok]
    by (auto simp: authinfo_handler_def bind_res_def [of get_session] get_session_def split: list.splits)
qed

lemma dispatch_no_article_keeps:
  "\<not> reads_article cmd \<Longrightarrow> keeps_wait P (dispatch_command X cmd)"
  unfolding dispatch_command_def Let_def reads_article_def
  by (simp only: if_False insert_iff empty_iff de_Morgan_disj, intro wait_intros ctx_keeps)

end

subsection \<open>Whole connections\<close>

locale connection_invariant = command_invariant + login_invariant
begin

lemma dispatch_keeps [wait_intros]: "keeps_wait P (dispatch_command X cmd)"
  unfolding dispatch_command_def Let_def by (intro wait_intros ctx_keeps)

lemma run_line_keeps [wait_intros]: "keeps_wait P (run_line X line)"
proof -
  have "keeps_wait P (\<lambda>c. case dispatch_command X cmd c of
            None \<Rightarrow> None
          | Some (Inl e, c') \<Rightarrow> Some (if e = Panic then Inl Panic else Inr Continue, c')
          | Some (Inr _, c') \<Rightarrow> Some (Inr Continue, c'))" for cmd
    using dispatch_keeps [of cmd] by (fastforce simp: keeps_wait_def split: option.splits sum.splits)
  then show ?thesis unfolding run_line_def by (intro wait_intros keeps_intros ctx_keeps)
qed

lemma client_turn_keeps [wait_intros]: "keeps_wait P (client_turn X)"
  unfolding keeps_wait_def
proof (intro allI impI)
  fix c r c' assume P: "P c" and run: "client_turn X c = Some (r, c')"
  have "run_line X line (c\<lparr>reader := rd\<rparr>) = Some (r, c') \<Longrightarrow> P c'" for line rd
    using keeps_waitD [OF run_line_keeps] reader_changes [OF P] by blast
  with run P show "P c'"
    by (auto simp: client_turn_def reader_changes split: option.splits sum.splits if_splits)
qed

lemma client_loop_keeps [wait_intros]: "keeps_wait P (client_loop X)"
proof -
  have "Y = X \<longrightarrow> P c \<longrightarrow> P (snd rc)" if "client_loop Y c = Some rc" for Y c rc
  proof (rule client_loop.raw_induct [where P = "\<lambda>Y c rc. Y = X \<longrightarrow> P c \<longrightarrow> P (snd rc)", OF _ that])
    fix loop Y c rc
    assume IH: "\<And>Y c rc. loop Y c = Some rc \<Longrightarrow> Y = X \<longrightarrow> P c \<longrightarrow> P (snd rc)"
      and step: "Option.bind (client_turn Y c) (\<lambda>(r, c').
         case r of Inl e \<Rightarrow> Some (Inl e, c')
         | Inr t \<Rightarrow> (case t of Continue \<Rightarrow> loop Y c' | Break \<Rightarrow> Some (Inr (), c'))) = Some rc"
    from step obtain r c1 where turn: "client_turn Y c = Some (r, c1)"
      by (cases "client_turn Y c") auto
    have "Y = X \<Longrightarrow> P c \<Longrightarrow> P c1" using keeps_waitD [OF client_turn_keeps] turn by blast
    with step turn show "Y = X \<longrightarrow> P c \<longrightarrow> P (snd rc)"
      by (auto split: sum.splits turn.splits dest: IH)
  qed
  then show ?thesis by (auto simp: keeps_wait_def)
qed

end

subsection \<open>The invariant of a connection\<close>

definition ctx_ok :: "ext \<Rightarrow> ctx \<Rightarrow> ctx \<Rightarrow> bool" where
  "ctx_ok X c0 c \<longleftrightarrow>
     session_ok (session c) \<and> (authenticated (session c) \<longrightarrow> can_authenticate (session c)) \<and>
     storage_ok X (storage c) \<and> adb_ok (auth c) \<and> queue_len (queue c) \<le> queue_capacity (queue c) \<and>
     config c = config c0 \<and> is_tls (session c) = is_tls (session c0) \<and>
     allow_auth_insecure (session c) = allow_auth_insecure (session c0) \<and>
     allow_anonymous_posting (session c) = allow_anonymous_posting (session c0)"

interpretation ctx: connection_invariant X "ctx_ok X c0" for X c0
  by unfold_locales
     (auto simp: ctx_ok_def session_ok_def session_defs can_authenticate_def queue_len_def)

text \<open>The identity of the user: who is logged in, with what rights.\<close>

definition same_user :: "session \<Rightarrow> ctx \<Rightarrow> bool" where
  "same_user s c \<longleftrightarrow>
     authenticated (session c) = authenticated s \<and> is_admin (session c) = is_admin s \<and>
     username (session c) = username s"

interpretation user: command_invariant X "same_user s" for X s
  by unfold_locales (auto simp: same_user_def session_defs)

text \<open>The input that is still to be read:\<close>

interpretation input: login_invariant X "\<lambda>c. reader c = rd" for X rd
  by unfold_locales auto

end
