(* ===== verification/Client_Properties.thy ===== *)
theory Client_Properties
  imports Handler_Invariants Auth_Properties Sample_Server
begin

text \<open>
  Connections: what a whole connection keeps, who is logged in, when a connection ends, and what
  posting, selecting and navigating do. The invariants come from the interpretations of
  \<open>command_invariant\<close> and \<open>login_invariant\<close>.
\<close>

subsection \<open>Logging in\<close>

lemma verify_user_view:
  assumes "verify_user X u p d = (Inr b, d')"
  shows "b = (\<exists>h. hash_of d u = Some h \<and> argon2_verify_password X p h) \<and> (\<exists>fs. d' = d\<lparr>faults := fs\<rparr>)"
proof -
  from assms obtain row d1 where
    sel: "select (\<lambda>d. List.find (\<lambda>r. u_username r = u) (users d)) d = (Inr row, d1)" and
    k: "(case row of None \<Rightarrow> ret False | Some r \<Rightarrow> if argon2_parse_hash X (u_password_hash r)
           then ret (argon2_verify_password X p (u_password_hash r))
           else throw (Anyhow ''password hash'')) d1 = (Inr b, d')"
    unfolding verify_user_def by (elim bind_res_okE)
  from select_cases [OF _ sel] obtain fs where
    "row = List.find (\<lambda>r. u_username r = u) (users d)" "d1 = d\<lparr>faults := fs\<rparr>" by auto
  with k show ?thesis by (auto simp: hash_of_def split: option.splits if_splits)
qed

lemma admit_user_session:
  assumes "admit_user X u c = (r, c')"
  shows "session c' = session c \<or>
     (\<exists>b. session c' = authenticate_with_admin u b (session c) \<and> (b \<longrightarrow> u \<in> set (admins (auth c))))"
proof -
  let ?b = "u \<in> set (admins (auth c))"
  let ?P = "\<lambda>c'. session c' = session c \<or>
    (\<exists>b. session c' = authenticate_with_admin u b (session c) \<and> (b \<longrightarrow> ?b))"
  have frame: "keeps ?P m" if "\<And>Q. keeps (\<lambda>c. Q (session c)) m" for m :: "'v handler"
    using that [of "\<lambda>s. s = session c \<or> (\<exists>b. s = authenticate_with_admin u b (session c) \<and> (b \<longrightarrow> ?b))"] .
  have set: "keeps ?P (set_session (authenticate_with_admin u b))" if "b \<longrightarrow> ?b" for b
    using that by (auto simp: keeps_def set_session_def authenticate_with_admin_def)
  obtain ra c1 where adm: "(ok_of (on_auth (auth_is_admin u)) :: bool option handler) c = (Inr ra, c1)"
    by (fastforce simp: ok_of_def split: prod.splits sum.splits)
  then have 1: "session c1 = session c" "ra = Some True \<longrightarrow> ?b"
    by (auto simp: ok_of_def on_auth_def auth_is_admin_def select_def exec_def
        split: prod.splits sum.splits list.splits if_splits)
  have "keeps ?P (bind_res
          (if ra = Some True then ret Allowed
           else bind_res (try_connect u) (\<lambda>limit_result.
             if limit_result = ConnectionLimitExceeded then ret ConnectionLimitExceeded
             else bind_res (ok_of (load_user X u)) (\<lambda>_. ret Allowed)))
          (\<lambda>limit_result.
             if limit_result = ConnectionLimitExceeded then write_simple RESP_481_CONN_LIMIT
             else bind_res (set_session (authenticate_with_admin u (ra = Some True))) (\<lambda>_.
                    write_simple RESP_281_AUTH_OK)))"
    by (intro keeps_intros set frame session_frames 1(2))
  from keepsD [OF this, of c1] 1(1) assms adm show ?thesis
    by (simp add: admit_user_def bind_res_def [of "ok_of _"] Let_def)
qed

lemma write_session: "write_simple t c = (r, c') \<Longrightarrow> session c' = session c"
  using keepsD' [OF session_unchanged(4) [of "\<lambda>s. s = session c"]] by simp

lemma authinfo_session:
  assumes "authinfo_handler X args c = (r, c')" and "session c' \<noteq> session c"
  shows "can_authenticate (session c) \<and>
     ((\<exists>word name rest. args = word # name # rest \<and> to_ascii_uppercase word = ''USER'' \<and>
         session c' = set_pending_username name (session c)) \<or>
      (\<exists>word password rest name b h. args = word # password # rest \<and> to_ascii_uppercase word = ''PASS'' \<and>
         username (session c) = Some name \<and> hash_of (auth c) name = Some h \<and>
         argon2_verify_password X password h \<and> (b \<longrightarrow> name \<in> set (admins (auth c))) \<and>
         session c' = authenticate_with_admin name b (session c)))"
proof -
  have can: "can_authenticate (session c)"
    using assms by (auto simp: authinfo_handler_def bind_res_def get_session_def dest: write_session split: if_splits)
  from assms can consider
      (user) word name rest where "args = word # name # rest" "to_ascii_uppercase word = ''USER''"
        "bind_res (set_session (set_pending_username name)) (\<lambda>_. write_simple RESP_381_PASSWORD_REQ) c = (r, c')"
    | (pass) word password rest where "args = word # password # rest" "to_ascii_uppercase word = ''PASS''"
        "authinfo_pass X password c = (r, c')"
    by (auto simp: authinfo_handler_def bind_res_def [of get_session] get_session_def split: list.splits if_splits
        dest: write_session)
  then show ?thesis
  proof cases
    case user
    have "session c' = set_pending_username name (session c)"
      using user(3) by (auto simp: bind_res_def set_session_def dest: write_session)
    with user can show ?thesis by blast
  next
    case pass
    then obtain name where name: "username (session c) = Some name"
      using assms(2) by (cases "username (session c)")
        (auto simp: authinfo_pass_def bind_res_def get_session_def pending_username_def dest: write_session)
    obtain rv c1 where v: "on_auth (verify_user X name password) c = (rv, c1)" by fastforce
    have c1: "session c1 = session c"
      using keepsD' [OF session_unchanged(1) [of "\<lambda>s. s = session c"] v] by simp
    have ok: "rv = Inr True" "admit_user X name c1 = (r, c')"
      using pass(3) name v c1 assms(2)
      by (auto simp: authinfo_pass_def bind_res_def get_session_def pending_username_def split: sum.splits if_splits
          dest: write_session)
    from v ok(1) obtain d where "verify_user X name password (auth c) = (Inr True, d)" "auth c1 = d"
      by (auto simp: on_auth_def split: prod.splits)
    with verify_user_view have "\<exists>h. hash_of (auth c) name = Some h \<and> argon2_verify_password X password h"
      "admins (auth c1) = admins (auth c)" by fastforce+
    with admit_user_session [OF ok(2)] c1 assms(2) pass name can show ?thesis by auto
  qed
qed

lemma dispatch_authinfo:
  "to_ascii_uppercase (cmd_name cmd) = ''AUTHINFO'' \<Longrightarrow>
     dispatch_command X cmd = now (authinfo_handler X (cmd_args cmd))"
  by (simp add: dispatch_command_def)

subsection \<open>A whole connection\<close>

lemma start_ctx_sel [simp]:
  "storage (start_ctx w tls r wr) = storage w" "auth (start_ctx w tls r wr) = auth w"
  "usage_tracker (start_ctx w tls r wr) = usage_tracker w" "config (start_ctx w tls r wr) = config w"
  "queue (start_ctx w tls r wr) = queue w" "reader (start_ctx w tls r wr) = r"
  "writer (start_ctx w tls r wr) = wr"
  "session (start_ctx w tls r wr) = new_session tls (cfg_allow_auth_insecure_connections (config w))
     (cfg_allow_anonymous_posting (config w))"
  by (simp_all add: start_ctx_def server.defs ctx.defs)

lemma end_session_frame:
  "\<exists>t. end_session c = c\<lparr>usage_tracker := t\<rparr>"
proof -
  have same: "\<exists>t. c = c\<lparr>usage_tracker := t\<rparr>" by (rule exI [of _ "usage_tracker c"]) simp
  then show ?thesis
    unfolding end_session_def disconnect_def set_tracker_def by (auto split: option.splits)
qed

lemma end_session_keeps: "ctx_ok X c0 c \<Longrightarrow> ctx_ok X c0 (end_session c)"
  using end_session_frame [of c] by (auto simp: ctx_ok_def)

lemma handle_client_keeps:
  assumes "ctx_ok X c0 (start_ctx w tls r wr)" and "handle_client X tls w r wr = Some (res, c)"
  shows "ctx_ok X c0 c"
proof -
  have "keeps_wait (ctx_ok X c0)
     (bind_wait (now (\<lambda>c.
         write_all (if can_post (session c) then RESP_200_READY else RESP_201_READY_NO_POST) c)) (\<lambda>_.
       bind_wait (client_loop X) (\<lambda>_. now (\<lambda>c. (Inr (), end_session c)))))"
    by (intro wait_intros)
       (auto simp: keeps_def end_session_keeps intro: keepsD [OF ctx.write_keeps])
  from keeps_waitD [OF this] assms show ?thesis by (simp add: handle_client_def)
qed

subsection \<open>When a connection ends\<close>

definition sends_article :: "ext \<Rightarrow> string \<Rightarrow> bool" where
  "sends_article X line \<longleftrightarrow>
     (case parse_command X (trim_end_matches (\<lambda>ch. ch = CR \<or> ch = LF) line) of
        None \<Rightarrow> False | Some (_, cmd) \<Rightarrow> reads_article cmd)"

lemma dispatch_returns:
  assumes "\<not> reads_article cmd"
  shows "\<exists>r c'. dispatch_command X cmd c = Some (r, c') \<and> reader c' = reader c"
proof -
  have "\<exists>r c'. dispatch_command X cmd c = Some (r, c')"
    using assms by (simp add: dispatch_command_def Let_def now_def reads_article_def)
  then show ?thesis using keeps_waitD [OF input.dispatch_no_article_keeps [OF assms]] by blast
qed

lemma run_line_returns:
  assumes "\<not> sends_article X line"
  shows "\<exists>r c'. run_line X line c = Some (r, c') \<and> reader c' = reader c"
proof -
  have wr: "\<exists>r c'. now (bind_res (write_all t) (\<lambda>_. ret x)) c = Some (r, c') \<and> reader c' = reader c"
    for t and x :: turn
    by (auto simp: now_def bind_res_def write_all_def split: option.splits)
  show ?thesis
  proof (cases "parse_command X (trim_end_matches (\<lambda>ch. ch = CR \<or> ch = LF) line)")
    case None
    with wr show ?thesis by (simp add: run_line_def)
  next
    case (Some p)
    obtain rest cmd where p: "p = (rest, cmd)" by fastforce
    with Some assms have "\<not> reads_article cmd" by (simp add: sends_article_def)
    with dispatch_returns obtain r c' where "dispatch_command X cmd c = Some (r, c')" "reader c' = reader c"
      by blast
    with Some p wr show ?thesis by (cases r) (auto simp: run_line_def)
  qed
qed

lemma read_line_rest:
  assumes "read_line r = Some (Inr line, r')" and "line \<noteq> []"
  shows "split_inclusive_LF (pending r) = line # split_inclusive_LF (pending r')"
    and "length (pending r') < length (pending r)"
proof -
  obtain l t where lt: "take_line (pending r) = (l, t)" by fastforce
  with assms take_line_incomplete [OF lt] have *: "line = l" "pending r' = t"
    by (auto simp: read_line_def split: if_splits stream_end.splits)
  with assms(2) lt have ne: "pending r \<noteq> []" by auto
  from split_inclusive_LF_cons [OF ne lt] *
  show "split_inclusive_LF (pending r) = line # split_inclusive_LF (pending r')" by simp
  from take_line_rest_less [OF lt ne] * show "length (pending r') < length (pending r)" by simp
qed

lemma client_loop_returns:
  "\<forall>l \<in> set (split_inclusive_LF (pending (reader c))). \<not> sends_article X l \<Longrightarrow> client_loop X c \<noteq> None"
proof (induction "length (pending (reader c))" arbitrary: c rule: less_induct)
  case less
  show ?case
  proof (cases "\<exists>line rd. read_line (reader c) = Some (Inr line, rd) \<and> line \<noteq> []")
    case False
    then show ?thesis
      by (subst client_loop.simps)
         (auto simp: client_turn_def split: option.splits sum.splits)
  next
    case True
    then obtain line rd where rl: "read_line (reader c) = Some (Inr line, rd)" "line \<noteq> []" by blast
    note rest = read_line_rest [OF rl]
    with less.prems have "\<not> sends_article X line" by simp
    then obtain r c' where run: "run_line X line (c\<lparr>reader := rd\<rparr>) = Some (r, c')" "reader c' = rd"
      using run_line_returns [of X line "c\<lparr>reader := rd\<rparr>"] by auto
    with less.hyps [of c'] less.prems rest have "client_loop X c' \<noteq> None" by simp
    with run rl show ?thesis
      by (subst client_loop.simps) (auto simp: client_turn_def split: sum.splits turn.splits)
  qed
qed

subsection \<open>Properties\<close>

text \<open>A connection keeps the server in order. Whatever a client sends, when the connection has ended
  the storage and the authentication database satisfy their invariants, the queue holds no more than its capacity, the configuration is
  the same, the session has a current article only in a selected group and administrator rights only for
  a logged-in user with a name, and a user is logged in only over TLS or where the configuration allows
  insecure logins.\<close>

theorem connection_keeps_invariant:
  assumes "storage_ok X (storage w)" and "adb_ok (auth w)" and "queue_len (queue w) \<le> queue_capacity (queue w)"
    and "handle_client X tls w r wr = Some (res, c)"
  shows "storage_ok X (storage c) \<and> adb_ok (auth c) \<and> queue_len (queue c) \<le> queue_capacity (queue c) \<and>
     config c = config w \<and> session_ok (session c) \<and>
     (authenticated (session c) \<longrightarrow> tls \<or> cfg_allow_auth_insecure_connections (config w))"
proof -
  let ?c = "start_ctx w tls r wr"
  have "ctx_ok X ?c ?c" using assms(1-3) by (simp add: ctx_ok_def) (simp add: new_session_def)
  from handle_client_keeps [OF this assms(4)] show ?thesis
    by (auto simp: ctx_ok_def can_authenticate_def new_session_def)
qed

definition login_lines :: string where
  "login_lines = ''AUTHINFO USER u'' @ CRLF @ ''AUTHINFO PASS pw'' @ CRLF @ ''GROUP misc.test'' @ CRLF @
     ''QUIT'' @ CRLF"

definition login_reader :: reader where
  "login_reader = \<lparr>pending = login_lines, stream_end = Eof\<rparr>"

definition open_writer :: writer where
  "open_writer = \<lparr>sent = [], takes = None\<rparr>"

theorem connection_keeps_invariant_witness:
  "\<exists>res c. handle_client sample_ext True sample_server login_reader open_writer = Some (res, c) \<and>
     storage_ok sample_ext (storage c) \<and> adb_ok (auth c)"
proof -
  have "adb_ok (auth sample_server)"
    by (simp add: sample_server_def sample_adb_def adb_ok_def user_names_def)
  moreover have "handle_client sample_ext True sample_server login_reader open_writer \<noteq> None" by code_simp
  then obtain res c where
    run: "handle_client sample_ext True sample_server login_reader open_writer = Some (res, c)" by auto
  from connection_keeps_invariant [OF _ _ _ this] storage_ok_sample run \<open>adb_ok (auth sample_server)\<close> show ?thesis
    by (simp add: sample_server_def queue_len_def)
qed

text \<open>C6: only AUTHINFO changes who the user of a connection is, and only where logging in is allowed:
  AUTHINFO USER changes the name alone, and AUTHINFO PASS logs the named user in only with a password
  that the stored hash accepts, with administrator rights only when the user is among the
  administrators. Every other command leaves the user, the login and the rights as they are.\<close>

theorem only_password_logs_in:
  assumes "dispatch_command X cmd c = Some (r, c')"
  shows "same_user (session c) c' \<or>
    to_ascii_uppercase (cmd_name cmd) = ''AUTHINFO'' \<and> can_authenticate (session c) \<and>
     ((\<exists>word name rest. cmd_args cmd = word # name # rest \<and> to_ascii_uppercase word = ''USER'' \<and>
         session c' = set_pending_username name (session c)) \<or>
      (\<exists>word password rest name b h. cmd_args cmd = word # password # rest \<and>
         to_ascii_uppercase word = ''PASS'' \<and>
         username (session c) = Some name \<and> hash_of (auth c) name = Some h \<and>
         argon2_verify_password X password h \<and> (b \<longrightarrow> name \<in> set (admins (auth c))) \<and>
         session c' = authenticate_with_admin name b (session c)))"
proof (cases "to_ascii_uppercase (cmd_name cmd) = ''AUTHINFO''")
  case False
  have "same_user (session c) c" by (simp add: same_user_def)
  with user.dispatch_other_keeps [OF False] assms show ?thesis by (metis keeps_waitD)
next
  case True
  with assms have run: "authinfo_handler X (cmd_args cmd) c = (r, c')"
    by (simp add: dispatch_authinfo now_def)
  show ?thesis
  proof (cases "session c' = session c")
    case False
    from authinfo_session [OF run False] True show ?thesis by blast
  qed (simp add: same_user_def)
qed

definition logging_in :: ctx where
  "logging_in = (let c = start_ctx sample_server True login_reader open_writer
     in c\<lparr>session := set_pending_username ''root'' (session c)\<rparr>)"

theorem only_password_logs_in_witness:
  "\<exists>r c'. dispatch_command sample_ext \<lparr>cmd_name = ''authinfo'', cmd_args = [''PASS'', ''secret'']\<rparr> logging_in =
     Some (r, c') \<and> is_admin (session c') \<and> ''root'' \<in> set (admins (auth logging_in)) \<and>
     argon2_verify_password sample_ext ''secret'' ''saltsecret''"
proof -
  let ?run = "dispatch_command sample_ext \<lparr>cmd_name = ''authinfo'', cmd_args = [''PASS'', ''secret'']\<rparr> logging_in"
  have "?run \<noteq> None" "is_admin (session (snd (the ?run)))" "\<not> is_admin (session logging_in)"
    "username (session logging_in) = Some ''root''" by code_simp+
  then obtain r c' where run: "?run = Some (r, c')" "is_admin (session c')" by auto
  have "hash_of (auth logging_in) ''root'' = Some ''saltsecret''" by code_simp
  with only_password_logs_in [OF run(1)] run \<open>\<not> is_admin (session logging_in)\<close>
    \<open>username (session logging_in) = Some ''root''\<close>
  show ?thesis by (auto simp: same_user_def authenticate_with_admin_def set_pending_username_def)
qed



text \<open>A connection that is closed inside an article never ends. When a client that may post sends POST
  and closes its side without having sent the terminating line, the command never returns: it goes on
  reading at the end of the stream.\<close>

theorem post_cut_short_never_ends:
  assumes "can_post (session c)" and "tracked_user (session c) = None" and "takes (writer c) = None"
    and "stream_end (reader c) = Eof" and "\<not> has_terminator (pending (reader c))"
  shows "post_handler X args c = None"
proof -
  have "read_article c' = None" if "reader c' = reader c" for c'
    using read_message_loop_Some [of "[]" "reader c"] assms(4,5) that
    by (cases "read_message (reader c)") (auto simp: read_article_def read_message_def)
  with assms(1-3) show ?thesis
    by (simp add: post_handler_def bind_wait_def now_def get_session_def posting_disabled_def bind_res_def
        write_simple_def write_all_def)
qed

definition cut_short :: ctx where
  "cut_short = (let c = start_ctx sample_server True \<lparr>pending = ''Subject: x'' @ CRLF, stream_end = Eof\<rparr> open_writer
     in c\<lparr>session := authenticate_with_admin ''root'' True (session c)\<rparr>)"

theorem post_cut_short_never_ends_witness: "post_handler sample_ext [] cut_short = None"
  by (rule post_cut_short_never_ends; code_simp)

end
