(* ===== verification/Reading_Properties.thy ===== *)
theory Reading_Properties
  imports Client_Properties
begin

text \<open>
  Reading: what looking up an article by its number returns, where NEXT and LAST go, and what ARTICLE,
  HEAD, BODY and STAT send.
\<close>

subsection \<open>Looking up by number\<close>

text \<open>The article under a number, in terms of the abstract spool.\<close>

definition numbered :: "spool \<Rightarrow> string \<Rightarrow> nat \<Rightarrow> message option" where
  "numbered S g n = Option.bind (index S (g, int n)) (\<lambda>(i, _). articles S i)"

lemma unique_row:
  assumes "distinct (map key xs)" and "\<forall>x \<in> set ys. x \<in> set xs \<and> key x = k"
    and "\<forall>x \<in> set xs. key x = k \<longrightarrow> x \<in> set ys"
  shows "(case ys of [] \<Rightarrow> None | y # _ \<Rightarrow> Some y) = List.find (\<lambda>x. key x = k) xs"
proof (cases ys)
  case Nil
  with assms(3) have "List.find (\<lambda>x. key x = k) xs = None" by (auto simp: find_None_iff)
  with Nil show ?thesis by simp
next
  case (Cons y zs)
  with assms(2) find_unique [OF assms(1), of y] show ?thesis by simp
qed

lemma set_join:
  "set [m. g \<leftarrow> gs, m \<leftarrow> ms, P m g, Q g] = {m \<in> set ms. \<exists>g \<in> set gs. P m g \<and> Q g}"
proof (induction gs)
  case (Cons g gs)
  have "set [m. m \<leftarrow> ms, P m g, Q g] = {m \<in> set ms. P m g \<and> Q g}" by (induction ms) auto
  with Cons show ?case by auto
qed simp

lemma joined_row:
  assumes "db_ok d"
  shows "(case [m. g \<leftarrow> group_articles d, m \<leftarrow> messages d, m_message_id m = ga_message_id g,
                ga_group_name g = grp \<and> ga_number g = try_i64 n (- 1)] of [] \<Rightarrow> None | m # _ \<Rightarrow> Some m) =
     Option.bind (List.find (\<lambda>g. entry_key g = (grp, int n)) (group_articles d))
       (\<lambda>g. List.find (\<lambda>m. m_message_id m = ga_message_id g) (messages d))"
    (is "(case ?L of [] \<Rightarrow> None | m # _ \<Rightarrow> Some m) = _")
proof (cases "List.find (\<lambda>g. entry_key g = (grp, int n)) (group_articles d)")
  case None
  then have no: "entry_key g \<noteq> (grp, int n)" if "g \<in> set (group_articles d)" for g
    using that by (auto simp: find_None_iff)
  have pos: "1 \<le> ga_number g" if "g \<in> set (group_articles d)" for g
    using assms that by (auto simp: db_ok_def)
  have "ga_group_name g = grp \<Longrightarrow> ga_number g \<noteq> try_i64 n (- 1)"
    if "g \<in> set (group_articles d)" for g using no [OF that] pos [OF that] by (auto simp: try_i64_def)
  then have L: "?L = []" by (auto simp: concat_eq_Nil_conv)
  show ?thesis unfolding L None by simp
next
  case (Some g)
  then have g: "g \<in> set (group_articles d)" "ga_group_name g = grp" "ga_number g = int n"
    by (auto dest: find_SomeD)
  with assms have le: "try_i64 n (- 1) = int n" by (auto simp: db_ok_def try_i64_def)
  have only: "g' = g" if "g' \<in> set (group_articles d)" "ga_group_name g' = grp" "ga_number g' = int n" for g'
  proof -
    have "inj_on entry_key (set (group_articles d))" using assms by (simp add: db_ok_def distinct_map)
    then show ?thesis by (rule inj_onD) (use g that in simp_all)
  qed
  have "(\<exists>g' \<in> set (group_articles d). m_message_id m = ga_message_id g' \<and>
      ga_group_name g' = grp \<and> ga_number g' = int n) \<longleftrightarrow> m_message_id m = ga_message_id g"
    for m :: message_row using g only by blast
  then have "set ?L = {m \<in> set (messages d). m_message_id m = ga_message_id g}"
    unfolding le set_join by simp
  moreover have "distinct (map m_message_id (messages d))" using assms by (simp add: db_ok_def)
  ultimately have "(case ?L of [] \<Rightarrow> None | m # _ \<Rightarrow> Some m) =
      List.find (\<lambda>m. m_message_id m = ga_message_id g) (messages d)" by (intro unique_row) simp_all
  with Some show ?thesis by simp
qed

lemma get_article_by_number_ok:
  assumes "storage_ok X d" and "faults d = []"
  shows "get_article_by_number X g n d = (Inr (numbered (abs_spool X d) g n), d)"
proof -
  let ?row = "Option.bind (List.find (\<lambda>r. entry_key r = (g, int n)) (group_articles d))
       (\<lambda>r. List.find (\<lambda>m. m_message_id m = ga_message_id r) (messages d))"
  have "?row = None \<or> (\<exists>r. ?row = Some r \<and> r \<in> set (messages d))"
    by (cases "?row") (auto simp: bind_eq_Some_conv dest: find_SomeD)
  from decode_row_ok [OF assms(1) this] joined_row [of d g n] assms show ?thesis
    unfolding get_article_by_number_def
    by (cases "List.find (\<lambda>r. entry_key r = (g, int n)) (group_articles d)")
       (simp_all add: bind_res_def select_ok storage_ok_def numbered_def abs_spool_def)
qed

definition article_numbers :: "db \<Rightarrow> string \<Rightarrow> nat set" where
  "article_numbers d g =
     set (map (\<lambda>r. nat (ga_number r)) (filter (\<lambda>r. ga_group_name r = g) (group_articles d)))"

lemma numbered_entry:
  assumes "storage_ok X d"
  shows "(\<exists>a. numbered (abs_spool X d) g n = Some a) \<longleftrightarrow>
     n \<in> article_numbers d g"
proof
  assume "\<exists>a. numbered (abs_spool X d) g n = Some a"
  then obtain r where "List.find (\<lambda>r. entry_key r = (g, int n)) (group_articles d) = Some r"
    by (auto simp: numbered_def abs_spool_def bind_eq_Some_conv)
  then have "r \<in> set (group_articles d)" "entry_key r = (g, int n)" by (auto dest: find_SomeD)
  then show "n \<in> article_numbers d g" by (force simp: article_numbers_def)
next
  assume "n \<in> article_numbers d g"
  then obtain r where r: "r \<in> set (group_articles d)" "ga_group_name r = g" "n = nat (ga_number r)"
    by (auto simp: article_numbers_def)
  with assms have key: "entry_key r = (g, int n)" and "ga_message_id r \<in> m_message_id ` set (messages d)"
    by (force simp: storage_ok_def db_ok_def)+
  then have "list_ex (\<lambda>m. m_message_id m = ga_message_id r) (messages d)" by (auto simp: list_ex_iff)
  with assms articles_None [of X d] have "articles (abs_spool X d) (ga_message_id r) \<noteq> None"
    by (simp add: storage_ok_def)
  moreover have "List.find (\<lambda>r. entry_key r = (g, int n)) (group_articles d) = Some r"
    using assms r(1) key find_unique [of entry_key "group_articles d" r] by (simp add: storage_ok_def db_ok_def)
  ultimately show "\<exists>a. numbered (abs_spool X d) g n = Some a"
    by (auto simp: numbered_def abs_spool_def)
qed

subsection \<open>Navigation\<close>

text \<open>Where NEXT and LAST go from article \<open>n\<close> of a group with the numbers \<open>N\<close>: to the next number above, to the
  next one below. LAST at the lowest number stays there.\<close>

fun nav_target :: "navigation_direction \<Rightarrow> nat set \<Rightarrow> nat \<Rightarrow> nat option" where
  "nav_target Next N n =
     (if n \<in> N \<and> (\<exists>m \<in> N. n < m) then Some (Min {m \<in> N. n < m}) else None)"
| "nav_target Previous N n =
     (if n \<notin> N then None else if \<exists>m \<in> N. m < n then Some (Max {m \<in> N. m < n}) else Some n)"

lemma position_None: "position ns n = None \<longleftrightarrow> n \<notin> set ns"
  by (induction ns) auto

lemma position_nth: "position ns n = Some p \<Longrightarrow> p < length ns \<and> ns ! p = n"
  by (induction ns arbitrary: p) (auto split: if_splits)

lemma strict_nth_less:
  fixes ns :: "nat list"
  assumes "sorted_wrt (<) ns" and "p < length ns" and "k < length ns"
  shows "ns ! p < ns ! k \<longleftrightarrow> p < k"
  using assms sorted_wrt_nth_less [OF assms(1)] by (metis linorder_neqE_nat order_less_asym order_less_irrefl)

lemma nav_target_list:
  assumes "sorted_wrt (<) ns"
  shows "nav_target dir (set ns) n =
     (case position ns n of
        None \<Rightarrow> None
      | Some p \<Rightarrow> if new_position dir p < length ns then Some (ns ! new_position dir p) else None)"
proof (cases "position ns n")
  case None
  then have "n \<notin> set ns" by (simp add: position_None)
  with None show ?thesis by (cases dir) auto
next
  case (Some p)
  then have p: "p < length ns" "ns ! p = n" by (auto dest: position_nth)
  note less = strict_nth_less [OF assms, unfolded not_less [symmetric]]
  have n: "n \<in> set ns" using p by auto
  show ?thesis
  proof (cases dir)
    case Next
    show ?thesis
    proof (cases "Suc p < length ns")
      case True
      have "Min {m \<in> set ns. n < m} = ns ! Suc p"
      proof (rule Min_eqI)
        fix m assume "m \<in> {m \<in> set ns. n < m}"
        then obtain k where "k < length ns" "m = ns ! k" "ns ! p < ns ! k" using p by (auto simp: in_set_conv_nth)
        with less p True show "ns ! Suc p \<le> m" by (metis Suc_lessI less_or_eq_imp_le)
      qed (use True p less in \<open>auto simp: Suc_lessD\<close>)
      moreover have "n < ns ! Suc p" using less [of p "Suc p"] p True by simp
      ultimately show ?thesis using Some True Next n by (auto intro: nth_mem)
    next
      case False
      then have "\<not> n < m" if "m \<in> set ns" for m
        using that less p by (auto simp: in_set_conv_nth)
      with False Some Next show ?thesis by auto
    qed
  next
    case Previous
    show ?thesis
    proof (cases p)
      case 0
      then have "\<not> m < n" if "m \<in> set ns" for m using that less p by (auto simp: in_set_conv_nth)
      with 0 Some Previous p n show ?thesis by auto
    next
      case (Suc q)
      have "Max {m \<in> set ns. m < n} = ns ! q"
      proof (rule Max_eqI)
        fix m assume "m \<in> {m \<in> set ns. m < n}"
        then obtain k where "k < length ns" "m = ns ! k" "ns ! k < ns ! p" using p by (auto simp: in_set_conv_nth)
        with less p Suc show "m \<le> ns ! q" by (metis Suc_lessD less_Suc_eq less_or_eq_imp_le)
      qed (use Suc p less in auto)
      moreover have "ns ! q < n" using less [of q p] p Suc by simp
      ultimately show ?thesis using Some Suc Previous n p by (auto intro: nth_mem)
    qed
  qed
qed

lemma list_article_numbers_ok:
  assumes "storage_ok X d" and "faults d = []"
  shows "\<exists>ns. list_article_numbers g d = (Inr ns, d) \<and> sorted_wrt (<) ns \<and> set ns = article_numbers d g"
  using assms article_numbers_strict [of d g]
  by (auto simp: list_article_numbers_def select_ok storage_ok_def article_numbers_def set_group_rows)

text \<open>The state after a response was written into a connection that does not break:\<close>

definition answered :: "string \<Rightarrow> ctx \<Rightarrow> ctx" where
  "answered text c = c\<lparr>writer := (writer c)\<lparr>sent := sent (writer c) @ text\<rparr>\<rparr>"

lemma write_simple_open: "takes (writer c) = None \<Longrightarrow> write_simple t c = (Inr (), answered t c)"
  by (simp add: write_simple_def write_all_def answered_def)

subsection \<open>Sending articles\<close>

text \<open>The articles under a list of numbers; numbers without an article are left out.\<close>

definition numbered_all :: "spool \<Rightarrow> string \<Rightarrow> nat list \<Rightarrow> (nat \<times> message) list" where
  "numbered_all S g ns = List.map_filter (\<lambda>n. map_option (Pair n) (numbered S g n)) ns"

definition sent_articles :: "article_operation \<Rightarrow> (nat \<times> message) list \<Rightarrow> string" where
  "sent_articles op as = concat (map (\<lambda>(n, a). article_response_line op n a @ article_content op a) as)"

definition at_article :: "(nat \<times> message) list \<Rightarrow> session \<Rightarrow> session" where
  "at_article as s = (if as = [] then s else set_current_article (fst (last as)) s)"

lemma resolve_numbers_ok:
  assumes "storage_ok X (storage c)" and "faults (storage c) = []"
  shows "resolve_numbers X g ns c = (Inr (numbered_all (abs_spool X (storage c)) g ns),
     c\<lparr>session := at_article (numbered_all (abs_spool X (storage c)) g ns) (session c)\<rparr>)"
  using assms
proof (induction ns arbitrary: c)
  case Nil
  then show ?case by (simp add: numbered_all_def at_article_def map_filter_simps)
next
  case (Cons n ns)
  have get: "(map_err e (on_storage (get_article_by_number X g n)) :: message option query) c =
      (Inr (numbered (abs_spool X (storage c)) g n), c)" for e
    using get_article_by_number_ok [OF Cons.prems] by (simp add: map_err_def on_storage_def)
  show ?case
  proof (cases "numbered (abs_spool X (storage c)) g n")
    case None
    with Cons.IH [OF Cons.prems] get show ?thesis
      by (simp add: bind_res_def numbered_all_def map_filter_simps)
  next
    case (Some a)
    with Cons.IH [of "c\<lparr>session := set_current_article n (session c)\<rparr>"] Cons.prems get show ?thesis
      by (auto simp: bind_res_def numbered_all_def map_filter_simps at_article_def set_session_def
          set_current_article_def)
  qed
qed

lemma send_articles_untracked: "send_articles X op None as = write_all (sent_articles op as)"
proof (induction as)
  case Nil
  then show ?case by (auto simp: fun_eq_iff write_all_def sent_articles_def split: option.splits)
next
  case (Cons p as)
  obtain n a where p: "p = (n, a)" by fastforce
  have "send_articles X op None (p # as) = bind_res (write_all (article_response_line op n a)) (\<lambda>_.
      bind_res (write_all (article_content op a)) (\<lambda>_. send_articles X op None as))"
    by (simp add: p fun_eq_iff)
  with Cons show ?case by (simp add: p write_all_append sent_articles_def)
qed

lemma write_all_open: "takes (writer c) = None \<Longrightarrow> write_all t c = (Inr (), answered t c)"
  by (simp add: write_all_def answered_def)

lemma article_by_id_sent:
  assumes "storage_ok X (storage c)" and "faults (storage c) = []" and "takes (writer c) = None"
    and "tracked_user (session c) = None" and "looks_like_message_id i"
    and "articles (abs_spool X (storage c)) i = Some a"
  shows "article_handler X op (i # args) c =
     (Inr (), answered (article_response_line op 0 a @ article_content op a) c)"
proof -
  from assms(5,6) get_article_by_id_ok [OF assms(1,2), of i] have
    "resolve_articles X (Some i) c = (Inr [(0, a)], c)"
    by (simp add: resolve_articles_def bind_res_def get_session_def map_err_def on_storage_def)
  with assms(3,4) show ?thesis
    by (simp add: article_handler_def bind_res_def get_session_def handle_article_operation_def match_query_def
        send_articles_untracked write_all_open sent_articles_def)
qed

subsection \<open>Properties\<close>

text \<open>C15: NEXT and LAST. In a selected group, when no statement fails and the connection does not break,
  NEXT makes the article with the next higher number of the group current and answers 223 with its number
  and identifier, or leaves the session alone and answers 421 when there is none; LAST makes the one with
  the next lower number current, and at the lowest number answers 223 for that same article (422 comes
  only when the current article is gone). Nothing else changes.\<close>

theorem navigation_visits_neighbours:
  assumes "storage_ok X (storage c)" and "faults (storage c) = []" and "takes (writer c) = None"
    and "current_group (session c) = Some g" and "current_article (session c) = Some n"
  shows "navigate_article X dir c =
     (Inr (), case nav_target dir (article_numbers (storage c) g) n of
        None \<Rightarrow> answered (error_response dir) c
      | Some m \<Rightarrow> answered (''223 '' @ show_nat m @ '' '' @
            unwrap_or_default (Option.bind (numbered (abs_spool X (storage c)) g m) extract_message_id) @
            '' article exists'' @ CRLF)
          (c\<lparr>session := set_current_article m (session c)\<rparr>))"
proof -
  obtain ns where ns: "list_article_numbers g (storage c) = (Inr ns, storage c)" "sorted_wrt (<) ns"
      "set ns = article_numbers (storage c) g"
    using list_article_numbers_ok [OF assms(1,2)] by blast
  then have numbers: "on_storage (list_article_numbers g) c = (Inr ns, c)" by (simp add: on_storage_def)
  have found: "\<exists>a. on_storage (get_article_by_number X g m) c = (Inr (Some a), c) \<and>
      numbered (abs_spool X (storage c)) g m = Some a" if "m \<in> set ns" for m
    using that ns(3) numbered_entry [OF assms(1), of g m] get_article_by_number_ok [OF assms(1,2)]
    by (auto simp: on_storage_def)
  show ?thesis
  proof (cases "nav_target dir (article_numbers (storage c) g) n")
    case None
    with nav_target_list [OF ns(2)] ns(3) numbers assms(3-5) show ?thesis
      by (auto simp: navigate_article_def bind_res_def get_session_def write_simple_open split: option.splits if_splits)
  next
    case (Some m)
    with nav_target_list [OF ns(2)] ns(3) obtain p where
      p: "position ns n = Some p" "new_position dir p < length ns" "m = ns ! new_position dir p"
      by (auto split: option.splits if_splits)
    then obtain a where a: "on_storage (get_article_by_number X g m) c = (Inr (Some a), c)"
      "numbered (abs_spool X (storage c)) g m = Some a" using found nth_mem by metis
    from Some p a numbers assms(3-5) show ?thesis
      by (simp add: navigate_article_def bind_res_def get_session_def Let_def set_session_def write_simple_open)
  qed
qed

definition reading_ctx :: ctx where
  "reading_ctx = (let c = start_ctx (sample_server\<lparr>storage := demo_db\<rparr>) True login_reader open_writer
     in c\<lparr>session := select_group ''misc.test'' (Some 1) (session c)\<rparr>)"

theorem navigation_visits_neighbours_witness:
  "navigate_article sample_ext Previous reading_ctx =
     (Inr (), answered (''223 1 <1@a> article exists'' @ CRLF)
        (reading_ctx\<lparr>session := set_current_article 1 (session reading_ctx)\<rparr>))"
proof -
  have c: "storage reading_ctx = demo_db" by (simp add: reading_ctx_def Let_def)
  have n: "article_numbers demo_db ''misc.test'' = {1}"
    by code_simp
  have "unwrap_or_default (Option.bind (numbered (abs_spool sample_ext demo_db) ''misc.test'' 1) extract_message_id) =
      ''<1@a>''" "show_nat 1 = ''1''" by code_simp+
  with navigation_visits_neighbours [of sample_ext reading_ctx "''misc.test''" 1 Previous] storage_ok_demo
  show ?thesis unfolding c n
    by (simp add: reading_ctx_def Let_def select_group_def open_writer_def demo_db_def)
qed

text \<open>C14: what ARTICLE, HEAD, BODY and STAT send. For a client whose bandwidth is not counted, when no
  statement fails and the connection does not break: with the identifier of a stored article the command
  sends the response line and the content of exactly that article and changes nothing; with a number or
  range in the selected group it sends, in the order of the numbers, those articles of the range that
  exist, and makes the last of them current; when there is none it answers 423.\<close>

theorem article_commands_send_what_is_stored:
  assumes "storage_ok X (storage c)" and "faults (storage c) = []" and "takes (writer c) = None"
    and "tracked_user (session c) = None"
  shows "(looks_like_message_id i \<and> articles (abs_spool X (storage c)) i = Some a \<longrightarrow>
       article_handler X op (i # args) c =
         (Inr (), answered (article_response_line op 0 a @ article_content op a) c)) \<and>
     (\<not> looks_like_message_id spec \<and> current_group (session c) = Some g \<and>
        parse_range g spec (storage c) = (Inr ns, storage c) \<longrightarrow>
       (let found = numbered_all (abs_spool X (storage c)) g ns
        in article_handler X op (spec # args) c =
             (Inr (), if ns = [] then answered RESP_423_RANGE_EMPTY c
                      else if found = [] then answered RESP_423_NO_ARTICLE_NUM c
                      else answered (sent_articles op found) (c\<lparr>session := at_article found (session c)\<rparr>))))"
proof (intro conjI impI)
  assume i: "looks_like_message_id i \<and> articles (abs_spool X (storage c)) i = Some a"
  then show "article_handler X op (i # args) c =
      (Inr (), answered (article_response_line op 0 a @ article_content op a) c)"
    by (intro article_by_id_sent assms) simp_all
next
  let ?found = "numbered_all (abs_spool X (storage c)) g ns"
  assume r: "\<not> looks_like_message_id spec \<and> current_group (session c) = Some g \<and>
        parse_range g spec (storage c) = (Inr ns, storage c)"
  then have "on_storage (parse_range g spec) c = (Inr ns, c)" by (simp add: on_storage_def)
  with r resolve_numbers_ok [OF assms(1,2), of g ns] have "resolve_articles X (Some spec) c =
      (if ns = [] then (Inl RangeEmpty, c) else if ?found = [] then (Inl NotFoundByNumber, c)
       else (Inr ?found, c\<lparr>session := at_article ?found (session c)\<rparr>))"
    by (auto simp: resolve_articles_def bind_res_def get_session_def map_err_def at_article_def)
  with assms(3,4) show "let found = ?found
        in article_handler X op (spec # args) c =
             (Inr (), if ns = [] then answered RESP_423_RANGE_EMPTY c
                      else if found = [] then answered RESP_423_NO_ARTICLE_NUM c
                      else answered (sent_articles op found) (c\<lparr>session := at_article found (session c)\<rparr>))"
    by (simp add: Let_def article_handler_def bind_res_def get_session_def handle_article_operation_def
        match_query_def send_articles_untracked write_all_open handle_article_error_def write_simple_open)
qed

theorem article_commands_send_what_is_stored_witness:
  "article_handler sample_ext Full [''<1@a>''] reading_ctx =
     (Inr (), answered (article_response_line Full 0 demo_article @ article_content Full demo_article) reading_ctx) \<and>
   article_handler sample_ext Stat [''1-''] reading_ctx =
     (Inr (), answered (sent_articles Stat [(1, demo_article)])
       (reading_ctx\<lparr>session := at_article [(1, demo_article)] (session reading_ctx)\<rparr>))"
proof -
  have c: "storage reading_ctx = demo_db" "current_group (session reading_ctx) = Some ''misc.test''"
    "tracked_user (session reading_ctx) = None" "takes (writer reading_ctx) = None" "faults demo_db = []"
    by (simp_all add: reading_ctx_def Let_def select_group_def tracked_user_def new_session_def open_writer_def demo_db_def)
  have "articles (abs_spool sample_ext demo_db) ''<1@a>'' = Some demo_article"
    "numbered_all (abs_spool sample_ext demo_db) ''misc.test'' [1] = [(1, demo_article)]"
    "looks_like_message_id ''<1@a>''" "\<not> looks_like_message_id ''1-''"
    "parse_range ''misc.test'' ''1-'' demo_db = (Inr [1], demo_db)" by code_simp+
  with article_commands_send_what_is_stored [of sample_ext reading_ctx "''<1@a>''" demo_article _ "[]" "''1-''"
      "''misc.test''" "[1]"] c storage_ok_demo
  show ?thesis by (simp add: Let_def)
qed

end
