(* ===== verification/Posting_Properties.thy ===== *)
theory Posting_Properties
  imports Reading_Properties
begin

text \<open>
  Posting and transfer: what POST lets into the queue and what IHAVE and TAKETHIS store.
\<close>

subsection \<open>Outcomes of commands that may wait\<close>

definition outcomes :: "'a waiting \<Rightarrow> ctx \<Rightarrow> ('a result \<Rightarrow> ctx \<Rightarrow> bool) \<Rightarrow> bool" where
  "outcomes m c Q \<longleftrightarrow> (\<forall>r c'. m c = Some (r, c') \<longrightarrow> Q r c')"

lemma outcomesD: "outcomes m c Q \<Longrightarrow> m c = Some (r, c') \<Longrightarrow> Q r c'"
  by (simp add: outcomes_def)

lemma outcomes_bind:
  assumes "outcomes m c (\<lambda>r c1. case r of Inl e \<Rightarrow> Q (Inl e) c1 | Inr x \<Rightarrow> outcomes (k x) c1 Q)"
  shows "outcomes (bind_wait m k) c Q"
  using assms by (fastforce simp: outcomes_def bind_wait_def split: option.splits sum.splits prod.splits)

lemma outcomes_now: "Q (fst (m c)) (snd (m c)) \<Longrightarrow> outcomes (now m) c Q"
  by (auto simp: outcomes_def now_def)

lemma outcomes_cong: "m c = n c \<Longrightarrow> outcomes m c Q = outcomes n c Q"
  by (simp add: outcomes_def)

lemma outcomes_if:
  "(b \<Longrightarrow> outcomes m c Q) \<Longrightarrow> (\<not> b \<Longrightarrow> outcomes n c Q) \<Longrightarrow> outcomes (if b then m else n) c Q"
  by simp

lemma outcomes_enqueue:
  "(\<And>c1. c1 = c\<lparr>queue := (queue c)\<lparr>queue_items := queue_items (queue c) @ [q]\<rparr>\<rparr> \<Longrightarrow> Q (Inr True) c1) \<Longrightarrow>
     outcomes (enqueue q) c Q"
  by (simp add: outcomes_def enqueue_def submit_def)

subsection \<open>Steps that change no article\<close>

text \<open>What the checks of limits and the responses change: the writer, the tracker, and which statement of
  the authentication database fails next.\<close>

definition limits_only :: "ctx \<Rightarrow> ctx \<Rightarrow> bool" where
  "limits_only c c' \<longleftrightarrow> storage c' = storage c \<and> queue c' = queue c \<and> config c' = config c \<and>
     session c' = session c \<and> reader c' = reader c \<and> (auth c')\<lparr>faults := []\<rparr> = (auth c)\<lparr>faults := []\<rparr>"

lemma limits_only_refl: "reflp limits_only"
  by (simp add: reflp_def limits_only_def)

lemma limits_only_trans: "transp limits_only"
  by (rule transpI) (simp add: limits_only_def)

lemmas limits_only_order = limits_only_refl limits_only_trans

named_theorems limits_moves "the operations that change no article"

lemma moves_writes [limits_moves]: "moves limits_only (write_simple t)" "moves limits_only (write_all t)"
  by (simp_all add: moves_def write_simple_def write_all_def limits_only_def split: option.splits)

lemma moves_ret_unit [limits_moves]: "moves limits_only (ret x)"
  by (rule moves_ret) (rule limits_only_refl)

lemma moves_get_session [limits_moves]: "moves limits_only get_session"
  by (simp add: moves_def get_session_def limits_only_def)

lemma get_user_limits_faults: "(snd (get_user_limits u d))\<lparr>faults := []\<rparr> = d\<lparr>faults := []\<rparr>"
proof -
  obtain r d' where "get_user_limits u d = (r, d')" by fastforce
  then show ?thesis
    by (auto simp: get_user_limits_def bind_res_def select_def exec_def split: prod.splits sum.splits list.splits
        if_splits option.splits)
qed

lemma moves_effective_limits [limits_moves]: "moves limits_only (get_effective_limits u)"
proof -
  have "limits_only c (snd (get_effective_limits u c))" for c
    using get_user_limits_faults [of u "auth c"]
    by (auto simp: get_effective_limits_def limits_only_def on_auth_def set_tracker_def
        split: option.splits prod.splits sum.splits)
  then show ?thesis by (simp add: moves_def)
qed

lemma moves_limit_checks [limits_moves]:
  "moves limits_only (tracker_can_post u)" "moves limits_only (check_bandwidth X u n)"
  "moves limits_only (record_bandwidth_usage X n b)"
proof -
  show "moves limits_only (tracker_can_post u)"
    unfolding tracker_can_post_def by (intro moves_intros limits_only_order limits_moves)
  show "moves limits_only (check_bandwidth X u n)"
    unfolding check_bandwidth_def
    by (intro moves_bind limits_only_order limits_moves)
       (auto simp: moves_def limits_only_def Let_def put_bandwidth_def set_tracker_def split: option.splits sum.splits)
  show "moves limits_only (record_bandwidth_usage X n b)"
    by (auto simp: moves_def limits_only_def record_bandwidth_usage_def record_bandwidth_def Let_def
        put_bandwidth_def set_tracker_def split: option.splits)
qed

lemma moves_posting_checks [limits_moves]:
  "moves limits_only posting_disabled" "moves limits_only (check_bandwidth_rejected X n)"
  unfolding posting_disabled_def check_bandwidth_rejected_def
  by (intro moves_intros limits_only_order limits_moves)+

definition no_article :: "ctx \<Rightarrow> ctx \<Rightarrow> bool" where
  "no_article c c' \<longleftrightarrow> tables (storage c') = tables (storage c) \<and> queue c' = queue c \<and>
     config c' = config c \<and> session c' = session c \<and> reader c' = reader c"

lemma no_article_trans: "no_article c c1 \<Longrightarrow> no_article c1 c2 \<Longrightarrow> no_article c c2"
  by (simp add: no_article_def)

lemma no_article_limits: "limits_only c c' \<Longrightarrow> no_article c c'"
  by (simp add: limits_only_def no_article_def)

lemma no_article_keys: "only_keys X ks c c' \<Longrightarrow> no_article c c'"
  by (cases c; cases c') (auto simp: only_keys_def no_article_def)

lemma outcomes_limits:
  assumes "moves limits_only m" and "\<And>r c1. limits_only c c1 \<Longrightarrow> no_article c c1 \<Longrightarrow> Q r c1"
  shows "outcomes (now m) c Q"
  using assms by (intro outcomes_now) (simp add: moves_def no_article_limits)

lemmas limits_outcomes = limits_moves [THEN outcomes_limits]

subsection \<open>Validation\<close>

text \<open>What validation found an article to be, whenever it ran: it looks at the tables only.\<close>

definition admissible :: "ext \<Rightarrow> ctx \<Rightarrow> message \<Rightarrow> u64 \<Rightarrow> bool" where
  "admissible X c m sz \<longleftrightarrow> plainly_acceptable X (config c) m sz (storage c) \<and>
     (\<forall>g \<in> set (extract_newsgroups m).
        group_moderated (storage c) g \<longrightarrow> approved_by X (config c) (auth c) m g)"

lemma approved_by_faults: "approved_by X cfg (d\<lparr>faults := fs\<rparr>) m g = approved_by X cfg d m g"
  by (simp add: approved_by_def moderates_def)

lemma admissible_limits: "limits_only c c' \<Longrightarrow> admissible X c' m sz = admissible X c m sz"
  unfolding limits_only_def admissible_def by (metis approved_by_faults)

lemma outcomes_validation:
  assumes cfg: "cfg = config c"
    and out: "\<And>r c1. no_article c c1 \<Longrightarrow> (r = Inr True \<longrightarrow> admissible X c m sz) \<Longrightarrow> Q r c1"
  shows "outcomes (now (succeeds (comprehensive_validate_article X cfg m sz))) c Q"
proof -
  obtain r c1 where v: "validate_article X (config c) m sz c = (r, c1)" by fastforce
  then have run: "comprehensive_validate_article X (config c) m sz c = (r, c1)"
    by (simp add: validate_article_def [abs_def])
  have "no_article c c1" "r = Inr () \<Longrightarrow> admissible X c m sz"
    using no_article_keys [OF movesD [OF moves_validate_article v]] validate_article_sound [of X "config c" m sz c c1] v
    by (auto simp: admissible_def)
  with run out show ?thesis
    unfolding cfg by (intro outcomes_now) (auto simp: succeeds_def catch_res_def split: sum.splits)
qed

subsection \<open>POST\<close>

abbreviation post_item :: "ext \<Rightarrow> config \<Rightarrow> string \<Rightarrow> message \<Rightarrow> queued_article" where
  "post_item X cfg msg a \<equiv> \<lparr>qa_message = ensure_headers X cfg a, qa_size = of_nat (str_len msg),
     qa_is_control = is_control_message a, qa_already_validated = True\<rparr>"

text \<open>What POST does with a parsed article: it is not queued, or it was admissible and is last in the
  queue.\<close>

definition post_outcome :: "ext \<Rightarrow> string \<Rightarrow> message \<Rightarrow> ctx \<Rightarrow> ctx \<Rightarrow> bool" where
  "post_outcome X msg a c c' \<longleftrightarrow>
     tables (storage c') = tables (storage c) \<and> reader c' = reader c \<and> session c' = session c \<and>
     (queue c' = queue c \<or>
      admissible X c (ensure_headers X (config c) a) (of_nat (str_len msg)) \<and>
      queue c' = (queue c)\<lparr>queue_items := queue_items (queue c) @ [post_item X (config c) msg a]\<rparr>)"

lemma post_article_outcome: "outcomes (post_article X msg a) c (\<lambda>_. post_outcome X msg a c)"
proof -
  have "outcomes (\<lambda>c'. post_article X msg a c) c (\<lambda>_. post_outcome X msg a c)"
    unfolding post_article_def Let_def
    by (subst outcomes_cong [where n = "bind_wait _ _"], rule refl, intro outcomes_bind limits_outcomes)
       (auto split: sum.split simp: admissible_limits no_article_def post_outcome_def
         intro!: outcomes_if outcomes_bind outcomes_validation outcomes_enqueue limits_outcomes)
  then show ?thesis by (simp add: outcomes_def)
qed

lemma outcomes_read:
  assumes "\<And>r rd. read_message (reader c) = Some (r, rd) \<Longrightarrow> Q r (c\<lparr>reader := rd\<rparr>)"
  shows "outcomes read_article c Q"
  using assms by (auto simp: outcomes_def read_article_def split: option.splits)

lemma outcomes_same: "outcomes (now get_session) c Q \<longleftrightarrow> Q (Inr (session c)) c"
  by (simp add: outcomes_def now_def get_session_def)

lemma admissible_reader [simp]: "admissible X (c\<lparr>reader := rd\<rparr>) m sz = admissible X c m sz"
  by (simp add: admissible_def)

lemma outcomes_mono: "outcomes m c Q \<Longrightarrow> (\<And>r c'. Q r c' \<Longrightarrow> Q' r c') \<Longrightarrow> outcomes m c Q'"
  by (simp add: outcomes_def)

definition posting :: "ext \<Rightarrow> ctx \<Rightarrow> ctx \<Rightarrow> bool" where
  "posting X c c' \<longleftrightarrow> tables (storage c') = tables (storage c) \<and> session c' = session c \<and>
     (queue c' = queue c \<or>
      (\<exists>msg rest a. can_post (session c) \<and> read_message (reader c) = Some (Inr msg, reader c') \<and>
         parse_message X msg = Some (rest, a) \<and>
         admissible X c (ensure_headers X (config c) a) (of_nat (str_len msg)) \<and>
         queue c' = (queue c)\<lparr>queue_items := queue_items (queue c) @ [post_item X (config c) msg a]\<rparr>))"

lemma post_handler_outcome: "outcomes (post_handler X args) c (\<lambda>_. posting X c)"
proof -
  have post: "outcomes (post_article X msg a) (c2\<lparr>reader := rd\<rparr>) (\<lambda>_. posting X c)"
    if "limits_only c c1" "limits_only c1 c2" "can_post (session c)"
      "read_message (reader c) = Some (Inr msg, rd)" "parse_message X msg = Some (rest, a)" for c1 c2 rd msg rest a
  proof (rule outcomes_mono [OF post_article_outcome])
    fix c' assume "post_outcome X msg a (c2\<lparr>reader := rd\<rparr>) c'"
    moreover have "admissible X c2 m sz = admissible X c m sz" for m sz
      using that(1,2) admissible_limits by simp
    ultimately show "posting X c c'" using that unfolding limits_only_def post_outcome_def posting_def by auto
  qed
  show ?thesis
    unfolding post_handler_def
    by (rule outcomes_bind)
       (auto simp: outcomes_same posting_def no_article_def split: sum.split option.split
         intro!: outcomes_if outcomes_bind limits_outcomes outcomes_read, (rule post; assumption)+)
qed

subsection \<open>IHAVE and TAKETHIS\<close>

text \<open>What a transfer may do to the articles: nothing; store an admissible article (completely, or up to
  a statement that failed); or what an authorised control message commands.\<close>

definition transferred :: "ext \<Rightarrow> string \<Rightarrow> message \<Rightarrow> ctx \<Rightarrow> ctx \<Rightarrow> bool" where
  "transferred X msg a c c' \<longleftrightarrow>
     (let m = ensure_headers X (config c) a; sz = of_nat (str_len msg)
      in tables (storage c') = tables (storage c) \<and> queue c' = queue c \<or>
         \<not> is_control_message a \<and> admissible X c m sz \<and>
           (\<exists>fs r d. store_article X m ((storage c)\<lparr>faults := fs\<rparr>) = (r, d) \<and> tables (storage c') = tables d) \<or>
         is_control_message a \<and> queue c' = queue c \<and>
           (admin_authorised X (config c) (auth c) m \<or>
            (\<exists>v i. get_header_value m ''Control'' = Some v \<and> parse_control v = Some (Cancel i) \<and>
               cancel_authorised X (storage c) m i)))"

lemma outcomes_store:
  assumes "\<And>r d. store_article X m (storage c) = (r, d) \<Longrightarrow> Q (Inr (r = Inr ())) (c\<lparr>storage := d\<rparr>)"
    and "\<And>r d. store_article X m (storage c) = (r, d) \<Longrightarrow> Q (Inl Panic) (c\<lparr>storage := d\<rparr>)"
  shows "outcomes (now (succeeds (on_storage (store_article X m)))) c Q"
proof -
  obtain r d where run: "store_article X m (storage c) = (r, d)" by fastforce
  with assms [OF run] show ?thesis
    by (intro outcomes_now) (auto simp: succeeds_def catch_res_def on_storage_def split: sum.splits)
qed

lemma transferred_same:
  "tables (storage c') = tables (storage c) \<Longrightarrow> queue c' = queue c \<Longrightarrow> transferred X msg a c c'"
  by (simp add: transferred_def Let_def)

lemma tables_eqD: "tables d1 = tables d \<Longrightarrow> d1 = d\<lparr>faults := faults d1\<rparr>"
  by (cases d; cases d1) (simp add: tables_def)

lemma transferred_stored:
  assumes "store_article X (ensure_headers X (config c) a) d1 = (r, d)" and "tables d1 = tables (storage c)"
    and "\<not> is_control_message a" and "admissible X c (ensure_headers X (config c) a) (of_nat (str_len msg))"
    and "tables (storage c') = tables d"
  shows "transferred X msg a c c'"
proof -
  have "store_article X (ensure_headers X (config c) a) ((storage c)\<lparr>faults := faults d1\<rparr>) = (r, d)"
    using assms(1) tables_eqD [OF assms(2)] by simp
  with assms(3-5) show ?thesis by (auto simp: transferred_def Let_def)
qed

lemma transfer_control:
  assumes "storage_ok X (storage c)" and "is_control_message a"
  shows "outcomes (now (handle_control X (ensure_headers X (config c) a) (config c))) c
     (\<lambda>_ c1. transferred X msg a c c1 \<and> (\<forall>c2. limits_only c1 c2 \<longrightarrow> transferred X msg a c c2))"
proof (intro outcomes_now)
  let ?m = "ensure_headers X (config c) a"
  obtain r c1 where run: "handle_control X ?m (config c) c = (r, c1)" by fastforce
  have q: "queue c1 = queue c"
    using keepsD' [OF Queue_Properties.keeps_handle_control [OF worker_stable_queue] run] by simp
  have "transferred X msg a c c2" if "tables (storage c2) = tables (storage c1)" "queue c2 = queue c1" for c2
    using that q assms(2) handle_control_safe [OF assms(1) run]
    by (cases "tables (storage c1) = tables (storage c)") (auto simp: transferred_def Let_def)
  with run show "transferred X msg a c (snd (handle_control X ?m (config c) c)) \<and>
      (\<forall>c2. limits_only (snd (handle_control X ?m (config c) c)) c2 \<longrightarrow> transferred X msg a c c2)"
    by (simp add: limits_only_def)
qed

lemma transfer_article_outcome:
  assumes "storage_ok X (storage c)"
  shows "outcomes (transfer_article X acc rej msg a) c (\<lambda>_. transferred X msg a c)"
proof (cases "is_control_message a")
  case True
  have "outcomes (bind_wait (now (handle_control X (ensure_headers X (config c) a) (config c))) (\<lambda>handled.
      now (write_simple (if handled then acc else rej)))) c (\<lambda>_. transferred X msg a c)"
    by (intro outcomes_bind outcomes_mono [OF transfer_control [OF assms True]])
       (auto split: sum.split intro!: limits_outcomes)
  with True show ?thesis by (simp add: outcomes_def transfer_article_def)
next
  case False
  have "outcomes (\<lambda>c'. transfer_article X acc rej msg a c) c (\<lambda>_. transferred X msg a c)"
    unfolding transfer_article_def Let_def if_not_P [OF False]
    by (subst outcomes_cong [where n = "bind_wait _ _"], rule refl, intro outcomes_bind limits_outcomes)
       (auto split: sum.split simp: admissible_limits no_article_def transferred_same
         intro!: outcomes_if outcomes_bind outcomes_validation outcomes_enqueue limits_outcomes outcomes_store,
        (erule transferred_stored [OF _ _ False], simp, simp, simp)+)
  then show ?thesis by (simp add: outcomes_def)
qed

text \<open>Before the article arrives only the engine's failures to come, the writer and the reader change.\<close>

definition not_yet :: "ctx \<Rightarrow> ctx \<Rightarrow> bool" where
  "not_yet c c1 \<longleftrightarrow> tables (storage c1) = tables (storage c) \<and> auth c1 = auth c \<and> config c1 = config c \<and> queue c1 = queue c"

lemma cancel_authorised_faults [simp]:
  "cancel_authorised X (d\<lparr>faults := fs\<rparr>) m i = cancel_authorised X d m i"
  by (simp add: cancel_authorised_def)

lemma admissible_not_yet: "not_yet c c1 \<Longrightarrow> admissible X c1 m sz = admissible X c m sz"
proof -
  assume ny: "not_yet c c1"
  then obtain fs where "storage c1 = (storage c)\<lparr>faults := fs\<rparr>" using tables_eqD by (auto simp: not_yet_def)
  with ny show ?thesis by (simp add: admissible_def not_yet_def plainly_acceptable_def group_moderated_def)
qed

lemma transferred_not_yet:
  assumes "not_yet c c1" and "transferred X msg a c1 c'"
  shows "transferred X msg a c c'"
proof -
  from assms(1) obtain fs where "storage c1 = (storage c)\<lparr>faults := fs\<rparr>"
    using tables_eqD by (auto simp: not_yet_def)
  with assms admissible_not_yet [OF assms(1)] show ?thesis by (auto simp: transferred_def Let_def not_yet_def)
qed

definition received :: "ext \<Rightarrow> ctx \<Rightarrow> ctx \<Rightarrow> bool" where
  "received X c c' \<longleftrightarrow> tables (storage c') = tables (storage c) \<and> queue c' = queue c \<or>
     (\<exists>msg rest a rd. read_message (reader c) = Some (Inr msg, rd) \<and>
        parse_message X msg = Some (rest, a) \<and> transferred X msg a c c')"

lemma outcomes_lookup:
  assumes "storage_ok X (storage c)"
    and "\<And>r fs. Q r (c\<lparr>storage := (storage c)\<lparr>faults := fs\<rparr>\<rparr>)"
  shows "outcomes (now (on_storage (get_article_by_id X i))) c Q"
  using get_article_by_id_view [OF assms(1), of i] assms(2) by (intro outcomes_now) (auto simp: on_storage_def)

lemma outcomes_write:
  "(\<And>r wr. Q r (c\<lparr>writer := wr\<rparr>)) \<Longrightarrow> outcomes (now (write_simple t)) c Q"
  by (intro outcomes_now) (auto simp: write_simple_def write_all_def split: option.splits)

lemma outcomes_transfer:
  assumes "storage_ok X (storage c1)" and "not_yet c c1"
    and "read_message (reader c) = Some (Inr msg, rd)" and "parse_message X msg = Some (rest, a)"
  shows "outcomes (transfer_article X acc rej msg a) c1 (\<lambda>_. received X c)"
  using assms transferred_not_yet
  by (intro outcomes_mono [OF transfer_article_outcome [OF assms(1)]]) (auto simp: received_def)

lemma transfers_outcome:
  assumes "storage_ok X (storage c)"
  shows "outcomes (ihave_handler X args) c (\<lambda>_. received X c)"
    and "outcomes (takethis_handler X args) c (\<lambda>_. received X c)"
proof -
  show "outcomes (ihave_handler X args) c (\<lambda>_. received X c)"
    unfolding ihave_handler_def using assms
    by (cases args)
       (auto split: sum.split option.split simp: received_def
         intro!: outcomes_if outcomes_bind outcomes_lookup outcomes_write outcomes_read,
        (rule outcomes_transfer; simp add: not_yet_def)+)
  show "outcomes (takethis_handler X args) c (\<lambda>_. received X c)"
    unfolding takethis_handler_def using assms
    by (cases args)
       (auto split: sum.split option.split simp: received_def
         intro!: outcomes_if outcomes_bind outcomes_lookup outcomes_write outcomes_read,
        (rule outcomes_transfer; simp add: not_yet_def)+)
qed

subsection \<open>Properties\<close>

text \<open>C7: POST lets only admissible articles in. Whatever a client sends and whatever fails, POST changes
  no stored article, no group and nothing of the session, and it changes the queue at most by appending
  the article that was read from the connection, with the headers it lacked; and then the session may
  post, and the article has the required headers, names existing groups only, is within the size limits
  and is approved by a moderator of every moderated group it names.\<close>

theorem post_queues_only_admissible:
  assumes "post_handler X args c = Some (r, c')"
  shows "tables (storage c') = tables (storage c) \<and> session c' = session c \<and>
    (queue c' = queue c \<or>
     (\<exists>msg rest a. can_post (session c) \<and> read_message (reader c) = Some (Inr msg, reader c') \<and>
        parse_message X msg = Some (rest, a) \<and>
        plainly_acceptable X (config c) (ensure_headers X (config c) a) (of_nat (str_len msg)) (storage c) \<and>
        (\<forall>g \<in> set (extract_newsgroups (ensure_headers X (config c) a)).
           group_moderated (storage c) g \<longrightarrow>
           approved_by X (config c) (auth c) (ensure_headers X (config c) a) g) \<and>
        queue c' = (queue c)\<lparr>queue_items := queue_items (queue c) @ [post_item X (config c) msg a]\<rparr>))"
  using outcomesD [OF post_handler_outcome assms] by (simp add: posting_def admissible_def)

definition full_post :: message where
  "full_post = \<lparr>headers = (''Message-ID'', ''<p@x>'') # (''Date'', ''0'') # headers demo_post, body = ''hi''\<rparr>"

definition post_text :: string where
  "post_text = send_headers full_post @ CRLF @ send_body (body full_post) @ ''.'' @ CRLF"

definition posting_ctx :: ctx where
  "posting_ctx = (let c = start_ctx sample_server True \<lparr>pending = post_text, stream_end = Idle\<rparr> open_writer
     in c\<lparr>session := authenticate_with_admin ''root'' True (session c)\<rparr>)"

definition after_post :: ctx where
  "after_post = snd (the (post_handler sample_ext [] posting_ctx))"

lemma post_demo:
  "post_handler sample_ext [] posting_ctx = Some (Inr (), after_post)"
  "queue after_post \<noteq> queue posting_ctx" "faults (storage after_post) = []" "takes (writer after_post) = None"
proof -
  let ?run = "post_handler sample_ext [] posting_ctx"
  have "case ?run of Some (Inr _, c') \<Rightarrow> queue c' \<noteq> queue posting_ctx \<and> faults (storage c') = [] \<and>
      takes (writer c') = None | _ \<Rightarrow> False" by code_simp
  then show "?run = Some (Inr (), after_post)" "queue after_post \<noteq> queue posting_ctx"
    "faults (storage after_post) = []" "takes (writer after_post) = None"
    by (cases ?run; cases "fst (the ?run)"; auto simp: after_post_def split: prod.splits)+
qed

theorem post_queues_only_admissible_witness:
  "queue after_post \<noteq> queue posting_ctx \<and> tables (storage after_post) = tables (storage posting_ctx)"
  using post_queues_only_admissible [OF post_demo(1)] post_demo(2) by simp

text \<open>C8: IHAVE and TAKETHIS. They change the articles and the queue only with an article they have read
  from the connection, and then either the article is no control message and was admissible (and was
  stored, completely or up to a failed statement), or it is a control message that an administrator's
  signature or a cancel key authorises. Neither asks whether the session may post.\<close>

theorem transfers_are_justified:
  assumes "storage_ok X (storage c)"
    and "ihave_handler X args c = Some (r, c') \<or> takethis_handler X args c = Some (r, c')"
  shows "tables (storage c') = tables (storage c) \<and> queue c' = queue c \<or>
    (\<exists>msg rest a rd. read_message (reader c) = Some (Inr msg, rd) \<and>
       parse_message X msg = Some (rest, a) \<and> transferred X msg a c c')"
proof -
  from assms(2) transfers_outcome [OF assms(1)] have "received X c c'" by (metis outcomesD)
  then show ?thesis by (simp add: received_def)
qed

definition ihave_ctx :: ctx where
  "ihave_ctx = start_ctx sample_server False \<lparr>pending = post_text, stream_end = Idle\<rparr> open_writer"

theorem transfers_are_justified_witness:
  "\<exists>c' msg rest a rd. ihave_handler sample_ext [''<x@y>''] ihave_ctx = Some (Inr (), c') \<and>
     read_message (reader ihave_ctx) = Some (Inr msg, rd) \<and> parse_message sample_ext msg = Some (rest, a) \<and>
     transferred sample_ext msg a ihave_ctx c' \<and> \<not> can_post (session ihave_ctx)"
proof -
  let ?run = "ihave_handler sample_ext [''<x@y>''] ihave_ctx"
  have "case ?run of Some (Inr _, c') \<Rightarrow> queue c' \<noteq> queue ihave_ctx | _ \<Rightarrow> False" by code_simp
  then obtain c' where run: "?run = Some (Inr (), c')" "queue c' \<noteq> queue ihave_ctx"
    by (cases ?run; cases "fst (the ?run)") (auto split: prod.splits)
  have "\<not> can_post (session ihave_ctx)" by code_simp
  have "storage_ok sample_ext (storage ihave_ctx)"
    using storage_ok_sample by (simp add: ihave_ctx_def sample_server_def)
  from transfers_are_justified [OF this disjI1 [OF run(1)]] run \<open>\<not> can_post (session ihave_ctx)\<close>
  show ?thesis by blast
qed

end
