(* ===== verification/Delivery.thy ===== *)
theory Delivery
  imports Posting_Properties
begin

text \<open>
  The path of an article through the whole server: POST, the queue, a worker, the storage and ARTICLE.
\<close>

lemma worker_delivers_one:
  assumes "storage_ok X (storage c)" and "faults (storage c) = []" and "queue_items (queue c) = [q]"
    and "deliverable q" and "number_room (group_count q) (storage c)"
  shows "\<exists>d. worker_task 1 X c = c\<lparr>storage := d, queue := (queue c)\<lparr>queue_items := []\<rparr>\<rparr> \<and>
     abs_spool X d = spec_process (timestamp (utc_now X)) q (abs_spool X (storage c)) \<and>
     storage_ok X d \<and> faults d = []"
  using worker_task_drains [of X c "[q]"] assms by simp

lemma index_kept: "index S k = Some (i, t) \<Longrightarrow> index (fold (spec_post_group t i) gs S) k = Some (i, t)"
  by (induction gs arbitrary: S) (simp_all add: spec_post_group_def)

lemma index_post_group:
  "g \<in> set gs \<Longrightarrow> \<exists>n. index (fold (spec_post_group t i) gs S) (g, n) = Some (i, t)"
proof (induction gs arbitrary: S)
  case (Cons h gs)
  show ?case
  proof (cases "g = h")
    case True
    have "index (spec_post_group t i h S) (h, next_number S h) = Some (i, t)" by (simp add: spec_post_group_def)
    with index_kept True show ?thesis by fastforce
  qed (use Cons in auto)
qed simp

lemma index_stored:
  assumes "articles S i = None" and "g \<in> set (parse_newsgroups_from_message a)"
  shows "\<exists>n. index (spec_store t a i S) (g, n) = Some (i, t)"
  using index_post_group [OF assms(2)] by (simp add: spec_store_def)

lemma read_full_article:
  assumes "nom_ok X" and "list_all header_ok (headers m)"
  shows "\<exists>text. read_message \<lparr>pending = article_content Full m @ rest, stream_end = e\<rparr> =
       Some (Inr text, \<lparr>pending = rest, stream_end = e\<rparr>) \<and>
     parse_message X text = Some ([], \<lparr>headers = map_message_id unescape_message_id (headers m),
       body = crlf_body (body m)\<rparr>)"
  using Wire.read_article [OF assms(2)] parse_message_render [OF assms]
  by (simp add: RESP_CRLF_def RESP_DOT_CRLF_def)

text \<open>C2: an article that was posted is served. When POST has queued an article that is no control message
  and whose identifier is not yet stored, then, as long as no statement fails, one turn of a worker
  empties the queue, each newsgroup the article names gets an entry for it, and ARTICLE with its
  identifier sends exactly that article, with the headers it was given; and a reader on the other side
  that reads and parses what was sent gets its headers and the lines of its body.\<close>

theorem posted_article_is_served:
  assumes ok: "storage_ok X (storage c)" and post: "post_handler X args c = Some (r, c')"
    and queued: "queue_items (queue c) = []" "queue c' \<noteq> queue c"
    and article: "read_message (reader c) = Some (Inr msg, rd)" "parse_message X msg = Some (rest, a)"
      "\<not> is_control_message a" "m = ensure_headers X (config c) a"
    and ident: "extract_message_id m = Some i" "looks_like_message_id i" "articles (abs_spool X (storage c)) i = None"
    and engine: "faults (storage c') = []" "number_room (length (parse_newsgroups_from_message m)) (storage c')"
    and reader: "takes (writer c') = None" "tracked_user (session c) = None" "nom_ok X" "list_all header_ok (headers m)"
  shows "\<exists>c2. worker_task 1 X c' = c2 \<and> queue_items (queue c2) = [] \<and>
     (\<forall>g \<in> set (parse_newsgroups_from_message m). \<exists>n. index (abs_spool X (storage c2)) (g, n) =
        Some (i, timestamp (utc_now X))) \<and>
     article_handler X Full [i] c2 =
       (Inr (), answered (article_response_line Full 0 m @ article_content Full m) c2) \<and>
     (\<exists>text. read_message \<lparr>pending = article_content Full m @ later, stream_end = e\<rparr> =
          Some (Inr text, \<lparr>pending = later, stream_end = e\<rparr>) \<and>
        parse_message X text = Some ([], \<lparr>headers = map_message_id unescape_message_id (headers m),
          body = crlf_body (body m)\<rparr>))"
proof -
  let ?q = "post_item X (config c) msg a"
  from outcomesD [OF post_handler_outcome post] queued article have
    same: "tables (storage c') = tables (storage c)" "session c' = session c" and
    q: "queue_items (queue c') = [?q]" by (auto simp: posting_def)
  have ok': "storage_ok X (storage c')" using storage_ok_tables [OF same(1) ok] .
  have abs: "abs_spool X (storage c') = abs_spool X (storage c)"
    using tables_eqD [OF same(1)] by (metis abs_spool_faults)
  have "deliverable ?q"
    using article ident by (auto simp: deliverable_def looks_like_message_id_def starts_with_def)
  from worker_delivers_one [OF ok' engine(1) q this] engine(2) article(4) obtain d where
    run: "worker_task 1 X c' = c'\<lparr>storage := d, queue := (queue c')\<lparr>queue_items := []\<rparr>\<rparr>" and
    d: "abs_spool X d = spec_process (timestamp (utc_now X)) ?q (abs_spool X (storage c'))" "storage_ok X d" "faults d = []"
    by auto
  let ?c2 = "c'\<lparr>storage := d, queue := (queue c')\<lparr>queue_items := []\<rparr>\<rparr>"
  have stored: "abs_spool X d = spec_store (timestamp (utc_now X)) m i (abs_spool X (storage c))"
    using d(1) ident abs article(4) by (simp add: spec_process_def)
  then have "articles (abs_spool X d) i = Some m" using ident(3) by (simp add: articles_spec_store)
  with d ident(2) reader(1,2) same(2) have "article_handler X Full [i] ?c2 =
      (Inr (), answered (article_response_line Full 0 m @ article_content Full m) ?c2)"
    by (intro article_by_id_sent) simp_all
  moreover have "\<forall>g \<in> set (parse_newsgroups_from_message m). \<exists>n. index (abs_spool X (storage ?c2)) (g, n) =
      Some (i, timestamp (utc_now X))"
    using index_stored [OF ident(3)] stored by simp
  ultimately show ?thesis using run read_full_article [OF reader(3,4)] by auto
qed

definition posted :: message where
  "posted = full_post\<lparr>body := ''hi'' @ CRLF\<rparr>"

theorem posted_article_is_served_witness:
  "\<exists>c2. worker_task 1 sample_ext after_post = c2 \<and> queue_items (queue c2) = [] \<and>
     article_handler sample_ext Full [''<p@x>''] c2 =
       (Inr (), answered (article_response_line Full 0 posted @ article_content Full posted) c2)"
proof -
  let ?msg = "send_headers posted @ CRLF @ body posted"
  have "storage_ok sample_ext (storage posting_ctx)"
    using storage_ok_sample by (simp add: posting_ctx_def Let_def sample_server_def)
  moreover have "tables (storage after_post) = tables (storage posting_ctx)"
    using outcomesD [OF post_handler_outcome post_demo(1)] by (simp add: posting_def)
  then have "storage after_post = sample_db"
    using faults_update_id [OF post_demo(3)]
    by (simp add: tables_def posting_ctx_def Let_def sample_server_def sample_db_def)
  moreover have "queue_items (queue posting_ctx) = []" "tracked_user (session posting_ctx) = None"
    "number_room (length (parse_newsgroups_from_message posted)) sample_db" by code_simp+
  moreover have "read_message (reader posting_ctx) = Some (Inr ?msg, \<lparr>pending = [], stream_end = Idle\<rparr>)"
    "parse_message sample_ext ?msg = Some ([], posted)" "\<not> is_control_message posted"
    "posted = ensure_headers sample_ext (config posting_ctx) posted"
    "extract_message_id posted = Some ''<p@x>''" "looks_like_message_id ''<p@x>''"
    "articles (abs_spool sample_ext (storage posting_ctx)) ''<p@x>'' = None"
    "list_all header_ok (headers posted)" by code_simp+
  ultimately show ?thesis
    using posted_article_is_served [OF _ post_demo(1)] post_demo(2-4) nom_ok_sample by metis
qed

end
