(* ===== verification/Postgres_Storage.thy ===== *)
theory Postgres_Storage
  imports Storage
begin

text \<open>
  The PostgreSQL backend of the article storage, \<^verbatim>\<open>src/src/storage/postgres.rs\<close>, on the tables of the SQLite
  one (the schemas differ in the names of their types only). Statements whose SQL differs from SQLite's in
  the placeholders only are the same statements. What PostgreSQL does differently is modelled: a text
  parameter with a NUL character is an error (\<open>pg_text\<close>; the database's encoding is UTF-8), an upsert keeps
  the row in its place, and \<^verbatim>\<open>ORDER BY\<close> a text column follows the collation of the database, which is a
  parameter: \<open>coll\<close> is its sort key. A query without \<^verbatim>\<open>ORDER BY\<close> yields its rows in the order of the table.
\<close>

definition NUL :: char where
  "NUL = CHR 0x00"

definition pg_text :: "string list \<Rightarrow> ('d sql_engine_scheme, 'a) action \<Rightarrow> ('d sql_engine_scheme, 'a) action" where
  "pg_text params stmt =
     (if list_ex (\<lambda>t. NUL \<in> set t) params then exec (\<lambda>d. (Inl Database, d)) else stmt)"

subsection \<open>Queries\<close>

definition pg_get_message_size :: "string \<Rightarrow> (db, nat option) action" where
  "pg_get_message_size message_id =
     pg_text [message_id] (select (\<lambda>d. map_option (\<lambda>m. nat (m_size m))
       (List.find (\<lambda>m. m_message_id m = message_id) (messages d))))"

definition pg_get_article_by_number :: "ext \<Rightarrow> string \<Rightarrow> nat \<Rightarrow> (db, message option) action" where
  "pg_get_article_by_number X grp number =
     bind_res
       (pg_text [grp] (select (\<lambda>d.
          case [m. g \<leftarrow> group_articles d, m \<leftarrow> messages d,
                   m_message_id m = ga_message_id g,
                   ga_group_name g = grp \<and> ga_number g = try_i64 number (- 1)] of
            [] \<Rightarrow> None
          | m # _ \<Rightarrow> Some m)))
       (decode_row X)"

definition pg_get_article_by_id :: "ext \<Rightarrow> string \<Rightarrow> (db, message option) action" where
  "pg_get_article_by_id X message_id =
     bind_res
       (pg_text [message_id] (select (\<lambda>d. List.find (\<lambda>m. m_message_id m = message_id) (messages d))))
       (decode_row X)"

definition pg_get_articles_by_ids ::
  "ext \<Rightarrow> string list \<Rightarrow> (db, (string \<times> message) result list) action" where
  "pg_get_articles_by_ids X message_ids =
     (if message_ids = [] then ret []
      else bind_res
        (pg_text message_ids (select (\<lambda>d. filter (\<lambda>m. m_message_id m \<in> set message_ids) (messages d))))
        (\<lambda>rows. ret (map (\<lambda>r. case reconstruct_message_from_row X (m_headers r) (m_body r) of
                                Inl e \<Rightarrow> Inl e
                              | Inr m \<Rightarrow> Inr (m_message_id r, m)) rows)))"

definition pg_is_group_moderated :: "string \<Rightarrow> (db, bool) action" where
  "pg_is_group_moderated grp =
     pg_text [grp] (select (\<lambda>d. case List.find (\<lambda>g. g_name g = grp) (groups d) of
                                  None \<Rightarrow> False | Some g \<Rightarrow> g_moderated g))"

definition pg_group_exists :: "string \<Rightarrow> (db, bool) action" where
  "pg_group_exists grp = pg_text [grp] (select (\<lambda>d. list_ex (\<lambda>g. g_name g = grp) (groups d)))"

definition pg_list_groups_with_descriptions :: "(string \<Rightarrow> string) \<Rightarrow> (db, (string \<times> string) list) action" where
  "pg_list_groups_with_descriptions coll =
     select (\<lambda>d. map (\<lambda>g. (g_name g, g_description g)) (sort_key (\<lambda>g. coll (g_name g)) (groups d)))"

definition pg_list_groups :: "(string \<Rightarrow> string) \<Rightarrow> (db, string list) action" where
  "pg_list_groups coll = select (\<lambda>d. map g_name (sort_key (\<lambda>g. coll (g_name g)) (groups d)))"

definition pg_list_groups_since :: "(string \<Rightarrow> string) \<Rightarrow> datetime \<Rightarrow> (db, string list) action" where
  "pg_list_groups_since coll since =
     select (\<lambda>d. map g_name (sort_key (\<lambda>g. coll (g_name g))
       (filter (\<lambda>g. timestamp since < g_created_at g) (groups d))))"

definition pg_list_groups_with_times :: "(string \<Rightarrow> string) \<Rightarrow> (db, (string \<times> int) list) action" where
  "pg_list_groups_with_times coll =
     select (\<lambda>d. map (\<lambda>g. (g_name g, g_created_at g)) (sort_key (\<lambda>g. coll (g_name g)) (groups d)))"

definition pg_list_article_numbers :: "string \<Rightarrow> (db, nat list) action" where
  "pg_list_article_numbers grp =
     pg_text [grp] (select (\<lambda>d. map (\<lambda>g. nat (ga_number g)) (group_rows grp d)))"

definition pg_list_article_ids :: "string \<Rightarrow> (db, string list) action" where
  "pg_list_article_ids grp = pg_text [grp] (select (\<lambda>d. map ga_message_id (group_rows grp d)))"

definition pg_list_article_ids_since :: "string \<Rightarrow> datetime \<Rightarrow> (db, string list) action" where
  "pg_list_article_ids_since grp since =
     pg_text [grp] (select (\<lambda>d. map ga_message_id
       (filter (\<lambda>g. timestamp since < ga_inserted_at g) (group_rows grp d))))"

definition pg_get_overview_range :: "string \<Rightarrow> nat \<Rightarrow> nat \<Rightarrow> (db, string list) action" where
  "pg_get_overview_range grp start en =
     pg_text [grp] (select (\<lambda>d. map ov_overview_data (sort_key ov_article_number
       (filter (\<lambda>v. ov_group_name v = grp \<and> try_i64 start 0 \<le> ov_article_number v \<and>
                    ov_article_number v \<le> try_i64 en i64_max) (overview d)))))"

subsection \<open>Storing\<close>

text \<open>\<open>generate_overview_line\<close> of \<^verbatim>\<open>src/src/overview.rs\<close> with this backend as its storage.\<close>

definition pg_generate_overview_line :: "nat \<Rightarrow> message \<Rightarrow> (db, string) action" where
  "pg_generate_overview_line article_number article =
     bind_res
       (case extract_message_id article of
          Some i \<Rightarrow> bind_res (pg_get_message_size i)
                      (\<lambda>size. ret (case size of None \<Rightarrow> str_len (body article) | Some n \<Rightarrow> n))
        | None \<Rightarrow> ret (str_len (body article)))
       (\<lambda>bytes. ret (join [TAB]
          [show_nat article_number,
           unwrap_or_default (get_header_value article ''Subject''),
           unwrap_or_default (get_header_value article ''From''),
           unwrap_or_default (get_header_value article ''Date''),
           unwrap_or_default (get_header_value article ''Message-ID''),
           unwrap_or_default (get_header_value article ''References''),
           show_nat bytes,
           show_nat (length (str_lines (body article)))]))"

text \<open>\<^verbatim>\<open>INSERT INTO messages ... ON CONFLICT DO NOTHING\<close>\<close>

definition pg_insert_message :: "message_row \<Rightarrow> (db, unit) action" where
  "pg_insert_message r = pg_text [m_message_id r, m_headers r, m_body r] (exec (\<lambda>d.
     (Inr (), if list_ex (\<lambda>m. m_message_id m = m_message_id r) (messages d) then d
              else d\<lparr>messages := messages d @ [r]\<rparr>)))"

text \<open>\<^verbatim>\<open>INSERT INTO overview ... ON CONFLICT (group_name, article_number) DO UPDATE\<close>\<close>

definition pg_upsert_overview :: "overview_row \<Rightarrow> (db, unit) action" where
  "pg_upsert_overview r = pg_text [ov_group_name r, ov_overview_data r] (exec (\<lambda>d.
     let same = (\<lambda>v. ov_group_name v = ov_group_name r \<and> ov_article_number v = ov_article_number r)
     in (Inr (), d\<lparr>overview :=
          (if list_ex same (overview d)
           then map (\<lambda>v. if same v then v\<lparr>ov_overview_data := ov_overview_data r\<rparr> else v) (overview d)
           else overview d @ [r])\<rparr>)))"

definition pg_store_in_group :: "ext \<Rightarrow> message \<Rightarrow> string \<Rightarrow> string \<Rightarrow> (db, unit) action" where
  "pg_store_in_group X article msg_id grp =
     bind_res (pg_text [grp] (sql_next_number grp)) (\<lambda>next.
     bind_res (pg_text [grp, msg_id] (sql_insert_group_article
        \<lparr>ga_group_name = grp, ga_number = next, ga_message_id = msg_id,
         ga_inserted_at = timestamp (utc_now X)\<rparr>)) (\<lambda>_.
     bind_res (pg_generate_overview_line (nat next) article) (\<lambda>overview_data.
     pg_upsert_overview
        \<lparr>ov_group_name = grp, ov_article_number = next, ov_overview_data = overview_data\<rparr>)))"

definition pg_store_article :: "ext \<Rightarrow> message \<Rightarrow> (db, unit) action" where
  "pg_store_article X article =
     (case extract_message_id article of
        None \<Rightarrow> throw (Anyhow ''missing Message-ID'')
      | Some msg_id \<Rightarrow>
          bind_res (pg_insert_message
             \<lparr>m_message_id = msg_id, m_headers = json_to_string X (headers article), m_body = body article,
              m_size = try_i64 (str_len (body article)) i64_max\<rparr>) (\<lambda>_.
          for_each (pg_store_in_group X article msg_id) (parse_newsgroups_from_message article)))"

subsection \<open>Groups and removal\<close>

definition pg_add_group :: "ext \<Rightarrow> string \<Rightarrow> bool \<Rightarrow> (db, unit) action" where
  "pg_add_group X grp moderated = pg_text [grp] (sql_insert_group
     \<lparr>g_name = grp, g_created_at = timestamp (utc_now X), g_moderated = moderated, g_description = []\<rparr>)"

definition pg_set_group_moderated :: "string \<Rightarrow> bool \<Rightarrow> (db, unit) action" where
  "pg_set_group_moderated grp moderated =
     pg_text [grp] (sql_update_group grp (\<lambda>g. g\<lparr>g_moderated := moderated\<rparr>))"

definition pg_add_group_with_description ::
  "ext \<Rightarrow> string \<Rightarrow> bool \<Rightarrow> string \<Rightarrow> (db, unit) action" where
  "pg_add_group_with_description X grp moderated description = pg_text [grp, description] (sql_upsert_group
     \<lparr>g_name = grp, g_created_at = timestamp (utc_now X), g_moderated = moderated,
      g_description = description\<rparr>)"

definition pg_purge_orphan_messages :: "(db, unit) action" where
  "pg_purge_orphan_messages = sql_delete_orphans (\<lambda>_. True)"

definition pg_remove_group :: "string \<Rightarrow> (db, unit) action" where
  "pg_remove_group grp =
     bind_res (pg_text [grp] (sql_delete_group_articles (\<lambda>g. ga_group_name g = grp))) (\<lambda>_.
     bind_res (pg_text [grp] (sql_delete_groups grp)) (\<lambda>_.
     sql_delete_orphans (\<lambda>_. True)))"

definition pg_remove_groups_by_pattern :: "ext \<Rightarrow> string \<Rightarrow> (db, unit) action" where
  "pg_remove_groups_by_pattern X pattern =
     bind_res (select (\<lambda>d. map g_name (groups d)))
       (\<lambda>names. for_each pg_remove_group (filter (\<lambda>name. wildmat X pattern name) names))"

definition pg_purge_group_before :: "string \<Rightarrow> datetime \<Rightarrow> (db, unit) action" where
  "pg_purge_group_before grp before = pg_text [grp] (sql_delete_group_articles
     (\<lambda>g. ga_group_name g = grp \<and> ga_inserted_at g < timestamp before))"

definition pg_delete_article_by_id :: "string \<Rightarrow> (db, unit) action" where
  "pg_delete_article_by_id message_id =
     bind_res (pg_text [message_id] (sql_delete_group_articles (\<lambda>g. ga_message_id g = message_id))) (\<lambda>_.
     pg_text [message_id] (sql_delete_orphans (\<lambda>m. m_message_id m = message_id)))"

end
