(* ===== verification/Postgres_Auth.thy ===== *)
theory Postgres_Auth
  imports Postgres_Storage Auth
begin

text \<open>
  The PostgreSQL provider of authentication, \<^verbatim>\<open>src/src/auth/postgres.rs\<close>. Users, administrators and moderators
  are as in the SQLite provider; \<^verbatim>\<open>can_post\<close> is a boolean, \<^verbatim>\<open>max_connections\<close> a 32-bit integer and the start of
  a usage window a \<^verbatim>\<open>timestamptz\<close>. What PostgreSQL computes with time is a parameter (\<open>pg_time\<close>): reading a
  \<^verbatim>\<open>timestamptz\<close>, printing one with \<^verbatim>\<open>to_char\<close> in the time zone of the session, and \<^verbatim>\<open>NOW()\<close>.
\<close>

record pg_time =
  pg_timestamptz :: "string \<Rightarrow> datetime option"
  pg_to_char :: "datetime \<Rightarrow> string"
  pg_now :: datetime

record pg_limits_row =
  pl_username :: string
  pl_can_post :: "bool option"
  pl_max_connections :: "int option"
  pl_bandwidth_limit_bytes :: "int option"
  pl_bandwidth_period_secs :: "int option"

record pg_usage_row =
  pu_username :: string
  pu_bytes_uploaded :: int
  pu_bytes_downloaded :: int
  pu_window_start_at :: datetime

record pg_adb = sql_engine +
  pg_users :: "user_row list"
  pg_admins :: "string list"
  pg_moderators :: "moderator_row list"
  pg_limits_table :: "pg_limits_row list"
  pg_usage_table :: "pg_usage_row list"

definition pg_is_user :: "pg_adb \<Rightarrow> string \<Rightarrow> bool" where
  "pg_is_user d name \<longleftrightarrow> list_ex (\<lambda>u. u_username u = name) (pg_users d)"

subsection \<open>Users\<close>

text \<open>\<^verbatim>\<open>INSERT INTO users ... ON CONFLICT (username) DO UPDATE\<close>: the row stays, and with it what refers to
  it.\<close>

definition pg_upsert_user :: "user_row \<Rightarrow> (pg_adb, unit) action" where
  "pg_upsert_user r =
     pg_text (u_username r # u_password_hash r # (case u_key r of None \<Rightarrow> [] | Some k \<Rightarrow> [k])) (exec (\<lambda>d.
       (Inr (), d\<lparr>pg_users := upsert u_username r (pg_users d)\<rparr>)))"

definition pg_add_user_with_key :: "ext \<Rightarrow> string \<Rightarrow> string \<Rightarrow> string option \<Rightarrow> (pg_adb, unit) action" where
  "pg_add_user_with_key X name password key =
     (case argon2_hash_password X password (salt_generate X) of
        None \<Rightarrow> throw (Anyhow ''password hash'')
      | Some hash \<Rightarrow>
          pg_upsert_user \<lparr>u_username = name, u_password_hash = hash, u_key = key\<rparr>)"

definition pg_add_user :: "ext \<Rightarrow> string \<Rightarrow> string \<Rightarrow> (pg_adb, unit) action" where
  "pg_add_user X name password = pg_add_user_with_key X name password None"

definition pg_update_users :: "string \<Rightarrow> (user_row \<Rightarrow> user_row) \<Rightarrow> (pg_adb, unit) action" where
  "pg_update_users name f = exec (\<lambda>d.
     (Inr (), d\<lparr>pg_users := map (\<lambda>u. if u_username u = name then f u else u) (pg_users d)\<rparr>))"

definition pg_update_password :: "ext \<Rightarrow> string \<Rightarrow> string \<Rightarrow> (pg_adb, unit) action" where
  "pg_update_password X name new_password =
     (case argon2_hash_password X new_password (salt_generate X) of
        None \<Rightarrow> throw (Anyhow ''password hash'')
      | Some hash \<Rightarrow>
          pg_text [hash, name] (pg_update_users name (\<lambda>u. u\<lparr>u_password_hash := hash\<rparr>)))"

definition pg_delete_user :: "string \<Rightarrow> (pg_adb, unit) action" where
  "pg_delete_user name = exec (\<lambda>d.
     if pg_is_user d name \<and> (name \<in> set (pg_admins d) \<or> list_ex (\<lambda>m. mod_username m = name) (pg_moderators d))
     then (Inl Database, d)
     else (Inr (), d\<lparr>pg_users := filter (\<lambda>u. u_username u \<noteq> name) (pg_users d),
       pg_limits_table := filter (\<lambda>l. pl_username l \<noteq> name) (pg_limits_table d),
       pg_usage_table := filter (\<lambda>l. pu_username l \<noteq> name) (pg_usage_table d)\<rparr>))"

definition pg_delete_admin :: "string \<Rightarrow> (pg_adb, unit) action" where
  "pg_delete_admin name = exec (\<lambda>d. (Inr (), d\<lparr>pg_admins := filter (\<lambda>a. a \<noteq> name) (pg_admins d)\<rparr>))"

definition pg_delete_moderators :: "(moderator_row \<Rightarrow> bool) \<Rightarrow> (pg_adb, unit) action" where
  "pg_delete_moderators p = exec (\<lambda>d.
     (Inr (), d\<lparr>pg_moderators := filter (\<lambda>m. \<not> p m) (pg_moderators d)\<rparr>))"

definition pg_remove_user :: "string \<Rightarrow> (pg_adb, unit) action" where
  "pg_remove_user name =
     bind_res (pg_text [name] (pg_delete_user name)) (\<lambda>_.
     bind_res (pg_text [name] (pg_delete_admin name)) (\<lambda>_.
     pg_text [name] (pg_delete_moderators (\<lambda>m. mod_username m = name))))"

definition pg_verify_user :: "ext \<Rightarrow> string \<Rightarrow> string \<Rightarrow> (pg_adb, bool) action" where
  "pg_verify_user X name password =
     bind_res (pg_text [name] (select (\<lambda>d. List.find (\<lambda>u. u_username u = name) (pg_users d)))) (\<lambda>row.
       case row of
         None \<Rightarrow> ret False
       | Some u \<Rightarrow>
           if argon2_parse_hash X (u_password_hash u)
           then ret (argon2_verify_password X password (u_password_hash u))
           else throw (Anyhow ''password hash''))"

subsection \<open>Administrators, keys and moderators\<close>

definition pg_is_admin :: "string \<Rightarrow> (pg_adb, bool) action" where
  "pg_is_admin name = pg_text [name] (select (\<lambda>d. name \<in> set (pg_admins d)))"

definition pg_insert_admin :: "string \<Rightarrow> (pg_adb, unit) action" where
  "pg_insert_admin name = pg_text [name] (exec (\<lambda>d.
     if name \<in> set (pg_admins d) then (Inr (), d)
     else if pg_is_user d name then (Inr (), d\<lparr>pg_admins := pg_admins d @ [name]\<rparr>)
     else (Inl Database, d)))"

definition pg_add_admin :: "string \<Rightarrow> string \<Rightarrow> (pg_adb, unit) action" where
  "pg_add_admin name key =
     bind_res (pg_insert_admin name) (\<lambda>_.
       pg_text [key, name] (pg_update_users name (\<lambda>u. u\<lparr>u_key := Some key\<rparr>)))"

definition pg_add_admin_without_key :: "string \<Rightarrow> (pg_adb, unit) action" where
  "pg_add_admin_without_key name = pg_insert_admin name"

definition pg_remove_admin :: "string \<Rightarrow> (pg_adb, unit) action" where
  "pg_remove_admin name = pg_text [name] (pg_delete_admin name)"

definition pg_update_pgp_key :: "string \<Rightarrow> string \<Rightarrow> (pg_adb, unit) action" where
  "pg_update_pgp_key name key =
     pg_text [key, name] (pg_update_users name (\<lambda>u. u\<lparr>u_key := Some key\<rparr>))"

definition pg_get_pgp_key :: "string \<Rightarrow> (pg_adb, string option) action" where
  "pg_get_pgp_key name =
     pg_text [name] (select (\<lambda>d. case List.find (\<lambda>u. u_username u = name) (pg_users d) of
                                   None \<Rightarrow> None | Some u \<Rightarrow> u_key u))"

definition pg_add_moderator :: "string \<Rightarrow> string \<Rightarrow> (pg_adb, unit) action" where
  "pg_add_moderator name pattern = pg_text [name, pattern] (exec (\<lambda>d.
     if list_ex (\<lambda>m. mod_username m = name \<and> mod_pattern m = pattern) (pg_moderators d) then (Inr (), d)
     else if pg_is_user d name
     then (Inr (), d\<lparr>pg_moderators := pg_moderators d @ [\<lparr>mod_username = name, mod_pattern = pattern\<rparr>]\<rparr>)
     else (Inl Database, d)))"

definition pg_remove_moderator :: "string \<Rightarrow> string \<Rightarrow> (pg_adb, unit) action" where
  "pg_remove_moderator name pattern =
     pg_text [name, pattern] (pg_delete_moderators (\<lambda>m. mod_username m = name \<and> mod_pattern m = pattern))"

definition pg_is_moderator :: "ext \<Rightarrow> string \<Rightarrow> string \<Rightarrow> (pg_adb, bool) action" where
  "pg_is_moderator X name grp =
     bind_res (pg_text [name] (select (\<lambda>d. filter (\<lambda>m. mod_username m = name) (pg_moderators d))))
       (\<lambda>rows. ret (list_ex (\<lambda>m. wildmat X (mod_pattern m) grp) rows))"

subsection \<open>Limits and usage\<close>

text \<open>\<^verbatim>\<open>u32 as i32\<close>, \<^verbatim>\<open>u64 as i64\<close> and back keep the bits.\<close>

definition pg_get_user_limits :: "string \<Rightarrow> (pg_adb, user_limits option) action" where
  "pg_get_user_limits name =
     pg_text [name] (select (\<lambda>d. map_option
       (\<lambda>r. \<lparr>limit_can_post = (case pl_can_post r of None \<Rightarrow> True | Some v \<Rightarrow> v),
             limit_max_connections = map_option of_int (pl_max_connections r),
             limit_bandwidth = map_option of_int (pl_bandwidth_limit_bytes r),
             limit_bandwidth_period_secs = map_option of_int (pl_bandwidth_period_secs r)\<rparr>)
       (List.find (\<lambda>r. pl_username r = name) (pg_limits_table d))))"

definition pg_set_user_limits :: "string \<Rightarrow> user_limits \<Rightarrow> (pg_adb, unit) action" where
  "pg_set_user_limits name limits = pg_text [name] (exec (\<lambda>d.
     if pg_is_user d name
     then (Inr (), d\<lparr>pg_limits_table := upsert pl_username
            \<lparr>pl_username = name,
             pl_can_post = Some (limit_can_post limits),
             pl_max_connections = map_option sint (limit_max_connections limits),
             pl_bandwidth_limit_bytes = map_option sint (limit_bandwidth limits),
             pl_bandwidth_period_secs = map_option sint (limit_bandwidth_period_secs limits)\<rparr>
            (pg_limits_table d)\<rparr>)
     else (Inl Database, d)))"

definition pg_clear_user_limits :: "string \<Rightarrow> (pg_adb, unit) action" where
  "pg_clear_user_limits name = pg_text [name] (exec (\<lambda>d.
     (Inr (), d\<lparr>pg_limits_table := filter (\<lambda>r. pl_username r \<noteq> name) (pg_limits_table d)\<rparr>)))"

definition rfc3339_format :: string where
  "rfc3339_format = ''%Y-%m-%dT%H:%M:%SZ''"

definition pg_get_user_usage :: "ext \<Rightarrow> pg_time \<Rightarrow> string \<Rightarrow> (pg_adb, user_usage) action" where
  "pg_get_user_usage X T name =
     pg_text [name] (select (\<lambda>d. case List.find (\<lambda>r. pu_username r = name) (pg_usage_table d) of
       None \<Rightarrow> default_user_usage
     | Some r \<Rightarrow> \<lparr>usage_bytes_uploaded = of_int (pu_bytes_uploaded r),
                  usage_bytes_downloaded = of_int (pu_bytes_downloaded r),
                  usage_window_start = chrono_parse_rfc3339 X (pg_to_char T (pu_window_start_at r))\<rparr>))"

definition pg_upsert_usage :: "pg_usage_row \<Rightarrow> (pg_adb, unit) action" where
  "pg_upsert_usage row = exec (\<lambda>d.
     if pg_is_user d (pu_username row)
     then (Inr (), d\<lparr>pg_usage_table := upsert pu_username row (pg_usage_table d)\<rparr>)
     else (Inl Database, d))"

definition pg_set_user_usage :: "ext \<Rightarrow> pg_time \<Rightarrow> string \<Rightarrow> user_usage \<Rightarrow> (pg_adb, unit) action" where
  "pg_set_user_usage X T name usage =
     (let window_start_str = chrono_format X rfc3339_format
            (case usage_window_start usage of None \<Rightarrow> utc_now X | Some t \<Rightarrow> t)
      in pg_text [name, window_start_str]
           (case pg_timestamptz T window_start_str of
              None \<Rightarrow> exec (\<lambda>d. (Inl Database, d))
            | Some t \<Rightarrow> pg_upsert_usage
                \<lparr>pu_username = name,
                 pu_bytes_uploaded = sint (usage_bytes_uploaded usage),
                 pu_bytes_downloaded = sint (usage_bytes_downloaded usage),
                 pu_window_start_at = t\<rparr>))"

definition pg_reset_user_usage :: "pg_time \<Rightarrow> string \<Rightarrow> (pg_adb, unit) action" where
  "pg_reset_user_usage T name = pg_text [name] (pg_upsert_usage
     \<lparr>pu_username = name, pu_bytes_uploaded = 0, pu_bytes_downloaded = 0, pu_window_start_at = pg_now T\<rparr>)"

end
