(* ===== verification/Postgres_Properties.thy ===== *)
theory Postgres_Properties
  imports Postgres_Auth Storage_Properties Auth_Properties
begin

text \<open>
  The PostgreSQL backend behaves as the SQLite one. Storage: every sequence of calls whose texts have no
  NUL character gets the same answers from both, as long as the collation orders names as SQLite does; the
  proof is a simulation (\<open>agree\<close>) over the structure of the operations. Authentication: the provider satisfies
  the contract \<open>credential_store\<close>.
\<close>

subsection \<open>Simulation\<close>

abbreviation ov_key :: "overview_row \<Rightarrow> string \<times> int" where
  "ov_key v \<equiv> (ov_group_name v, ov_article_number v)"

definition plain :: "string \<Rightarrow> bool" where
  "plain t \<longleftrightarrow> NUL \<notin> set t"

definition same_content :: "db \<Rightarrow> db \<Rightarrow> bool" where
  "same_content d e \<longleftrightarrow> faults d = faults e \<and> messages d = messages e \<and>
     group_articles d = group_articles e \<and> groups d = groups e \<and> (\<forall>g \<in> set (groups d). plain (g_name g)) \<and>
     distinct (map ov_key (overview d)) \<and> distinct (map ov_key (overview e)) \<and>
     set (overview d) = set (overview e)"

definition agree :: "(db, 'a) action \<Rightarrow> (db, 'a) action \<Rightarrow> bool" where
  "agree m n \<longleftrightarrow> (\<forall>d e. same_content d e \<longrightarrow>
     fst (m d) = fst (n e) \<and> same_content (snd (m d)) (snd (n e)))"

named_theorems agree_intros "structural rules for agree"

lemma agree_ret [agree_intros]: "agree (ret x) (ret x)"
  by (simp add: agree_def)

lemma agree_throw [agree_intros]: "agree (throw e) (throw e)"
  by (simp add: agree_def)

lemma agree_bind_val:
  assumes "agree m n" and "\<And>x d e. same_content d e \<Longrightarrow> fst (m d) = Inr x \<Longrightarrow> agree (k x) (l x)"
  shows "agree (bind_res m k) (bind_res n l)"
  unfolding agree_def
proof (intro allI impI)
  fix d e assume de: "same_content d e"
  obtain r d1 where m: "m d = (r, d1)" by fastforce
  obtain r' e1 where n: "n e = (r', e1)" by fastforce
  from assms(1) de m n have eq: "r' = r" "same_content d1 e1" by (metis agree_def fst_conv snd_conv)+
  show "fst (bind_res m k d) = fst (bind_res n l e) \<and> same_content (snd (bind_res m k d)) (snd (bind_res n l e))"
  proof (cases r)
    case (Inr x)
    with assms(2) [OF de] m have "agree (k x) (l x)" by simp
    with Inr m n eq show ?thesis by (simp add: bind_res_def agree_def)
  qed (use m n eq in \<open>simp add: bind_res_def\<close>)
qed

lemma agree_bind [agree_intros]:
  "agree m n \<Longrightarrow> (\<And>x. agree (k x) (l x)) \<Longrightarrow> agree (bind_res m k) (bind_res n l)"
  by (rule agree_bind_val)

lemma agree_for_each [agree_intros]:
  assumes "\<And>x. x \<in> set xs \<Longrightarrow> agree (f x) (g x)"
  shows "agree (for_each f xs) (for_each g xs)"
  using assms
proof (induction xs)
  case Nil
  then show ?case by (simp add: agree_def)
next
  case (Cons x xs)
  then have "agree (bind_res (f x) (\<lambda>_. for_each f xs)) (bind_res (g x) (\<lambda>_. for_each g xs))"
    by (intro agree_bind) simp_all
  then show ?case by (simp add: agree_def)
qed

lemma agree_option [agree_intros]:
  "agree m n \<Longrightarrow> (\<And>x. v = Some x \<Longrightarrow> agree (f x) (g x)) \<Longrightarrow>
   agree (case v of None \<Rightarrow> m | Some x \<Rightarrow> f x) (case v of None \<Rightarrow> n | Some x \<Rightarrow> g x)"
  by (cases v) auto

lemma agree_sum [agree_intros]:
  "(\<And>x. agree (f x) (f' x)) \<Longrightarrow> (\<And>y. agree (g y) (g' y)) \<Longrightarrow>
   agree (case v of Inl x \<Rightarrow> f x | Inr y \<Rightarrow> g y) (case v of Inl x \<Rightarrow> f' x | Inr y \<Rightarrow> g' y)"
  by (cases v) auto

lemma same_content_faults: "same_content d e \<Longrightarrow> same_content (d\<lparr>faults := fs\<rparr>) (e\<lparr>faults := fs\<rparr>)"
  by (simp add: same_content_def)

lemma agree_exec:
  assumes "\<And>d e. same_content d e \<Longrightarrow> fst (s d) = fst (t e) \<and> same_content (snd (s d)) (snd (t e))"
  shows "agree (exec s) (exec t)"
  unfolding agree_def
proof (intro allI impI)
  fix d e assume de: "same_content d e"
  then have "faults e = faults d" by (simp add: same_content_def)
  with assms [OF de] assms [OF same_content_faults [OF de]] same_content_faults [OF de]
  show "fst (exec s d) = fst (exec t e) \<and> same_content (snd (exec s d)) (snd (exec t e))"
    by (auto simp: exec_def split: list.splits)
qed

lemma agree_select:
  "(\<And>d e. same_content d e \<Longrightarrow> q d = q' e) \<Longrightarrow> agree (select q) (select q')"
  unfolding select_def by (rule agree_exec) simp

lemma agree_text [agree_intros]: "list_all plain ts \<Longrightarrow> agree m n \<Longrightarrow> agree m (pg_text ts n)"
  by (simp add: pg_text_def plain_def list_ex_iff list_all_iff)

subsection \<open>Statements\<close>

lemma agree_statements [agree_intros]:
  "agree (sql_insert_group_article r) (sql_insert_group_article r)"
  "agree (sql_delete_group_articles p) (sql_delete_group_articles p)"
  "agree (sql_delete_orphans q) (sql_delete_orphans q)" "agree (sql_delete_groups g) (sql_delete_groups g)"
  "agree (sql_next_number g) (sql_next_number g)"
  unfolding sql_insert_group_article_def sql_delete_group_articles_def sql_delete_orphans_def
    sql_delete_groups_def sql_next_number_def
  by (rule agree_exec; auto simp: same_content_def Let_def)+

lemma agree_group_statements [agree_intros]:
  "plain (g_name r) \<Longrightarrow> agree (sql_insert_group r) (sql_insert_group r)"
  "plain (g_name r) \<Longrightarrow> agree (sql_upsert_group r) (sql_upsert_group r)"
  "(\<And>g. g_name (f g) = g_name g) \<Longrightarrow> agree (sql_update_group g f) (sql_update_group g f)"
  unfolding sql_insert_group_def sql_upsert_group_def sql_update_group_def
  by (rule agree_exec; auto simp: same_content_def)+

lemma agree_insert_message [agree_intros]:
  "plain (m_message_id r) \<Longrightarrow> plain (m_headers r) \<Longrightarrow> plain (m_body r) \<Longrightarrow>
     agree (sql_insert_message r) (pg_insert_message r)"
  unfolding sql_insert_message_def pg_insert_message_def
  by (intro agree_text agree_exec) (auto simp: same_content_def)

lemma distinct_in_place:
  assumes "distinct (map ov_key vs)"
  shows "distinct (map ov_key (map (\<lambda>v. if P v then v\<lparr>ov_overview_data := t\<rparr> else v) vs))"
proof -
  have "map ov_key (map (\<lambda>v. if P v then v\<lparr>ov_overview_data := t\<rparr> else v) vs) = map ov_key vs" by simp
  with assms show ?thesis by metis
qed

lemma upsert_set:
  fixes r :: overview_row
  assumes "\<exists>v \<in> set vs. ov_key v = ov_key r" and "distinct (map ov_key vs)"
  shows "set (map (\<lambda>v. if ov_key v = ov_key r then v\<lparr>ov_overview_data := ov_overview_data r\<rparr> else v) vs) =
     insert r {v \<in> set vs. ov_key v \<noteq> ov_key r}"
proof -
  have "v\<lparr>ov_overview_data := ov_overview_data r\<rparr> = r" if "ov_key v = ov_key r" for v :: overview_row
    using that by (cases v; cases r) simp
  with assms(1) show ?thesis by (auto simp: image_iff)
qed

lemma agree_overview [agree_intros]:
  assumes "plain (ov_group_name r)" and "plain (ov_overview_data r)"
  shows "agree (sql_replace_overview r) (pg_upsert_overview r)"
  unfolding sql_replace_overview_def pg_upsert_overview_def
proof (intro agree_text agree_exec)
  show "list_all plain [ov_group_name r, ov_overview_data r]" using assms by simp
next
  fix d e assume de: "same_content d e"
  let ?same = "\<lambda>v. ov_group_name v = ov_group_name r \<and> ov_article_number v = ov_article_number r"
  let ?l = "filter (\<lambda>v. \<not> ?same v) (overview d) @ [r]"
  let ?u = "if list_ex ?same (overview e)
    then map (\<lambda>v. if ?same v then v\<lparr>ov_overview_data := ov_overview_data r\<rparr> else v) (overview e)
    else overview e @ [r]"
  have keys: "distinct (map ov_key (overview d))" "distinct (map ov_key (overview e))"
    and sets: "set (overview d) = set (overview e)" using de by (simp_all add: same_content_def)
  have l: "distinct (map ov_key ?l)" using keys(1) by (auto simp: distinct_map inj_on_def)
  have u: "distinct (map ov_key ?u) \<and> set ?u = set ?l"
  proof (cases "list_ex ?same (overview e)")
    case True
    then have "\<exists>v \<in> set (overview e). ov_key v = ov_key r" by (auto simp: list_ex_iff)
    from True upsert_set [OF this keys(2)] distinct_in_place [OF keys(2), of ?same] sets show ?thesis
      by simp
  next
    case False
    with keys(2) sets show ?thesis by (auto simp: list_ex_iff)
  qed
  from de l u show "fst (Inr (), d\<lparr>overview := ?l\<rparr>) =
      fst (let same = ?same in (Inr (), e\<lparr>overview := if list_ex same (overview e)
         then map (\<lambda>v. if same v then v\<lparr>ov_overview_data := ov_overview_data r\<rparr> else v) (overview e)
         else overview e @ [r]\<rparr>)) \<and>
    same_content (snd (Inr (), d\<lparr>overview := ?l\<rparr>))
      (snd (let same = ?same in (Inr (), e\<lparr>overview := if list_ex same (overview e)
         then map (\<lambda>v. if same v then v\<lparr>ov_overview_data := ov_overview_data r\<rparr> else v) (overview e)
         else overview e @ [r]\<rparr>)))"
    unfolding Let_def fst_conv snd_conv by (simp only: same_content_def db.simps sql_engine.simps) simp
qed

subsection \<open>Texts\<close>

lemma plain_trim: "plain t \<Longrightarrow> plain (str_trim t)"
  unfolding plain_def str_trim_def trim_matches_def trim_end_matches_def trim_start_matches_def
  by (metis set_dropWhileD set_rev)

lemma plain_split_on: "plain t \<Longrightarrow> w \<in> set (split_on p t) \<Longrightarrow> plain w"
  by (induction p t arbitrary: w rule: split_on.induct) (auto simp: plain_def split: list.splits if_splits)

lemma plain_simps [simp]: "plain []" "plain (a @ b) \<longleftrightarrow> plain a \<and> plain b" "plain (c # a) \<longleftrightarrow> c \<noteq> NUL \<and> plain a"
  by (auto simp: plain_def)

lemma plain_show_nat [simp]: "plain (show_nat n)"
proof -
  have "\<not> is_ascii_digit NUL" by code_simp
  with show_nat_digits show ?thesis by (auto simp: plain_def)
qed

definition plain_message :: "ext \<Rightarrow> message \<Rightarrow> bool" where
  "plain_message X a \<longleftrightarrow> list_all (\<lambda>(n, v). plain v) (headers a) \<and> plain (body a) \<and>
     plain (json_to_string X (headers a))"

lemma plain_header: "plain_message X a \<Longrightarrow> get_header_value a n = Some v \<Longrightarrow> plain v"
  by (auto simp: plain_message_def get_header_value_def list_all_iff dest: find_SomeD)

lemma plain_header_or_empty: "plain_message X a \<Longrightarrow> plain (unwrap_or_default (get_header_value a n))"
  by (auto simp: unwrap_or_default_def plain_header split: option.split)

lemma plain_message_id: "plain_message X a \<Longrightarrow> extract_message_id a = Some i \<Longrightarrow> plain i"
  using plain_header [of X a "''Message-ID''" i] by (simp add: extract_message_id_def get_header_value_def)

lemma plain_newsgroups:
  assumes "plain_message X a" and "g \<in> set (parse_newsgroups_from_message a)"
  shows "plain g"
proof -
  from assms(2) obtain k v w where
    v: "List.find (\<lambda>(k, _). eq_ignore_ascii_case k ''Newsgroups'') (headers a) = Some (k, v)" and
    w: "w \<in> set (str_split CHR '','' v)" "g = str_trim w"
    by (auto simp: parse_newsgroups_from_message_def split: option.splits prod.splits) (metis)
  have "plain v" using plain_header [OF assms(1), of "''Newsgroups''" v] v by (simp add: get_header_value_def)
  with w show ?thesis by (auto simp: str_split_def intro: plain_trim plain_split_on)
qed

subsection \<open>Operations\<close>

lemma agree_select_same [agree_intros]:
  "(\<And>d e. same_content d e \<Longrightarrow> q d = q e) \<Longrightarrow> agree (select q) (select q)"
  by (rule agree_select)

lemma agree_decode_row [agree_intros]: "agree (decode_row X row) (decode_row X row)"
  unfolding decode_row_def by (intro agree_intros)

lemma agree_message_size [agree_intros]:
  "plain i \<Longrightarrow> agree (get_message_size i) (pg_get_message_size i)"
  unfolding get_message_size_def pg_get_message_size_def
  by (intro agree_intros) (simp_all add: same_content_def)

lemma agree_overview_line:
  "plain_message X a \<Longrightarrow> agree (generate_overview_line n a) (pg_generate_overview_line n a)"
  unfolding generate_overview_line_def pg_generate_overview_line_def
  by (intro agree_intros plain_message_id)

lemma plain_overview_line:
  assumes "plain_message X a" and "generate_overview_line n a d = (Inr line, d')"
  shows "plain line"
  using assms plain_header_or_empty [OF assms(1)]
  by (auto simp: generate_overview_line_def NUL_def elim!: bind_res_okE)

lemma agree_store_in_group:
  assumes "plain_message X a" and "plain i" and "plain g"
  shows "agree (store_in_group X a i g) (pg_store_in_group X a i g)"
  unfolding store_in_group_def pg_store_in_group_def
proof (rule agree_bind, rule agree_text, simp add: assms, rule agree_statements,
    rule agree_bind, rule agree_text, simp add: assms, rule agree_statements)
  fix n
  show "agree (bind_res (generate_overview_line (nat n) a) (\<lambda>overview_data. sql_replace_overview
          \<lparr>ov_group_name = g, ov_article_number = n, ov_overview_data = overview_data\<rparr>))
     (bind_res (pg_generate_overview_line (nat n) a) (\<lambda>overview_data. pg_upsert_overview
          \<lparr>ov_group_name = g, ov_article_number = n, ov_overview_data = overview_data\<rparr>))"
  proof (rule agree_bind_val [OF agree_overview_line [OF assms(1)]])
    fix line d e assume "fst (generate_overview_line (nat n) a d) = Inr line"
    then have "plain line" using plain_overview_line [OF assms(1)] by (metis prod.collapse)
    with assms(3) show "agree
        (sql_replace_overview \<lparr>ov_group_name = g, ov_article_number = n, ov_overview_data = line\<rparr>)
        (pg_upsert_overview \<lparr>ov_group_name = g, ov_article_number = n, ov_overview_data = line\<rparr>)"
      by (intro agree_overview) simp_all
  qed
qed

lemma agree_store:
  assumes "plain_message X a"
  shows "agree (store_article X a) (pg_store_article X a)"
proof (cases "extract_message_id a")
  case (Some i)
  have i: "plain i" using plain_message_id [OF assms Some] .
  have "agree (bind_res (sql_insert_message (message_row_of X a i)) (\<lambda>_.
          for_each (store_in_group X a i) (parse_newsgroups_from_message a)))
     (bind_res (pg_insert_message (message_row_of X a i)) (\<lambda>_.
          for_each (pg_store_in_group X a i) (parse_newsgroups_from_message a)))"
    using assms i plain_newsgroups [OF assms]
    by (intro agree_intros agree_store_in_group) (auto simp: message_row_of_def plain_message_def)
  with Some show ?thesis by (simp add: store_article_def pg_store_article_def message_row_of_def)
qed (simp add: store_article_def pg_store_article_def agree_throw)

lemma agree_remove_group: "plain g \<Longrightarrow> agree (remove_group g) (pg_remove_group g)"
  unfolding remove_group_def pg_remove_group_def by (intro agree_intros) simp_all

lemma agree_remove_pattern: "agree (remove_groups_by_pattern X p) (pg_remove_groups_by_pattern X p)"
  unfolding remove_groups_by_pattern_def pg_remove_groups_by_pattern_def
proof (rule agree_bind_val)
  show "agree (select (\<lambda>d. map g_name (groups d))) (select (\<lambda>d. map g_name (groups d)))"
    by (intro agree_select) (simp add: same_content_def)
  fix names d e assume "same_content d e" "fst (select (\<lambda>d. map g_name (groups d)) d) = Inr names"
  then have "\<forall>g \<in> set names. plain g"
    by (auto simp: select_def exec_def same_content_def split: list.splits if_splits)
  then show "agree (for_each remove_group (filter (wildmat X p) names))
      (for_each pg_remove_group (filter (wildmat X p) names))"
    by (intro agree_for_each agree_remove_group) simp
qed

subsection \<open>Calls\<close>

text \<open>The operations of the \<^verbatim>\<open>Storage\<close> trait as data, with their answers.\<close>

datatype storage_call =
    Store message
  | ByNumber string nat
  | ById string
  | ByIds "string list"
  | AddGroup string bool
  | SetModerated string bool
  | Describe string bool string
  | RemoveGroup string
  | RemovePattern string
  | IsModerated string
  | Exists string
  | Descriptions
  | Groups
  | GroupsSince datetime
  | GroupTimes
  | Numbers string
  | Ids string
  | IdsSince string datetime
  | PurgeBefore string datetime
  | PurgeOrphans
  | MessageSize string
  | Delete string
  | OverviewRange string nat nat

datatype storage_answer =
    Done
  | Found "message option"
  | Items "(string \<times> message) result list"
  | Truth bool
  | Names "string list"
  | Described "(string \<times> string) list"
  | Times "(string \<times> int) list"
  | NumberList "nat list"
  | SizeOf "nat option"

definition answer :: "('a \<Rightarrow> storage_answer) \<Rightarrow> (db, 'a) action \<Rightarrow> (db, storage_answer) action" where
  "answer f m = bind_res m (\<lambda>x. ret (f x))"

abbreviation finished :: "(db, unit) action \<Rightarrow> (db, storage_answer) action" where
  "finished \<equiv> answer (\<lambda>_. Done)"

fun sqlite_call :: "ext \<Rightarrow> storage_call \<Rightarrow> (db, storage_answer) action" where
  "sqlite_call X (Store a) = finished (store_article X a)"
| "sqlite_call X (ByNumber g n) = answer Found (get_article_by_number X g n)"
| "sqlite_call X (ById i) = answer Found (get_article_by_id X i)"
| "sqlite_call X (ByIds is) = answer Items (get_articles_by_ids X is)"
| "sqlite_call X (AddGroup g b) = finished (add_group X g b)"
| "sqlite_call X (SetModerated g b) = finished (set_group_moderated g b)"
| "sqlite_call X (Describe g b t) = finished (add_group_with_description X g b t)"
| "sqlite_call X (RemoveGroup g) = finished (remove_group g)"
| "sqlite_call X (RemovePattern p) = finished (remove_groups_by_pattern X p)"
| "sqlite_call X (IsModerated g) = answer Truth (is_group_moderated g)"
| "sqlite_call X (Exists g) = answer Truth (group_exists g)"
| "sqlite_call X Descriptions = answer Described list_groups_with_descriptions"
| "sqlite_call X Groups = answer Names list_groups"
| "sqlite_call X (GroupsSince t) = answer Names (list_groups_since t)"
| "sqlite_call X GroupTimes = answer Times list_groups_with_times"
| "sqlite_call X (Numbers g) = answer NumberList (list_article_numbers g)"
| "sqlite_call X (Ids g) = answer Names (list_article_ids g)"
| "sqlite_call X (IdsSince g t) = answer Names (list_article_ids_since g t)"
| "sqlite_call X (PurgeBefore g t) = finished (purge_group_before g t)"
| "sqlite_call X PurgeOrphans = finished purge_orphan_messages"
| "sqlite_call X (MessageSize i) = answer SizeOf (get_message_size i)"
| "sqlite_call X (Delete i) = finished (delete_article_by_id i)"
| "sqlite_call X (OverviewRange g a b) = answer Names (get_overview_range g a b)"

fun pg_call :: "ext \<Rightarrow> (string \<Rightarrow> string) \<Rightarrow> storage_call \<Rightarrow> (db, storage_answer) action" where
  "pg_call X coll (Store a) = finished (pg_store_article X a)"
| "pg_call X coll (ByNumber g n) = answer Found (pg_get_article_by_number X g n)"
| "pg_call X coll (ById i) = answer Found (pg_get_article_by_id X i)"
| "pg_call X coll (ByIds is) = answer Items (pg_get_articles_by_ids X is)"
| "pg_call X coll (AddGroup g b) = finished (pg_add_group X g b)"
| "pg_call X coll (SetModerated g b) = finished (pg_set_group_moderated g b)"
| "pg_call X coll (Describe g b t) = finished (pg_add_group_with_description X g b t)"
| "pg_call X coll (RemoveGroup g) = finished (pg_remove_group g)"
| "pg_call X coll (RemovePattern p) = finished (pg_remove_groups_by_pattern X p)"
| "pg_call X coll (IsModerated g) = answer Truth (pg_is_group_moderated g)"
| "pg_call X coll (Exists g) = answer Truth (pg_group_exists g)"
| "pg_call X coll Descriptions = answer Described (pg_list_groups_with_descriptions coll)"
| "pg_call X coll Groups = answer Names (pg_list_groups coll)"
| "pg_call X coll (GroupsSince t) = answer Names (pg_list_groups_since coll t)"
| "pg_call X coll GroupTimes = answer Times (pg_list_groups_with_times coll)"
| "pg_call X coll (Numbers g) = answer NumberList (pg_list_article_numbers g)"
| "pg_call X coll (Ids g) = answer Names (pg_list_article_ids g)"
| "pg_call X coll (IdsSince g t) = answer Names (pg_list_article_ids_since g t)"
| "pg_call X coll (PurgeBefore g t) = finished (pg_purge_group_before g t)"
| "pg_call X coll PurgeOrphans = finished pg_purge_orphan_messages"
| "pg_call X coll (MessageSize i) = answer SizeOf (pg_get_message_size i)"
| "pg_call X coll (Delete i) = finished (pg_delete_article_by_id i)"
| "pg_call X coll (OverviewRange g a b) = answer Names (pg_get_overview_range g a b)"

fun plain_call :: "ext \<Rightarrow> storage_call \<Rightarrow> bool" where
  "plain_call X (Store a) = plain_message X a"
| "plain_call X (ByIds is) = list_all plain is"
| "plain_call X (Describe g b t) = (plain g \<and> plain t)"
| "plain_call X (ByNumber g n) = plain g"
| "plain_call X (ById i) = plain i"
| "plain_call X (AddGroup g b) = plain g"
| "plain_call X (SetModerated g b) = plain g"
| "plain_call X (RemoveGroup g) = plain g"
| "plain_call X (IsModerated g) = plain g"
| "plain_call X (Exists g) = plain g"
| "plain_call X (Numbers g) = plain g"
| "plain_call X (Ids g) = plain g"
| "plain_call X (IdsSince g t) = plain g"
| "plain_call X (PurgeBefore g t) = plain g"
| "plain_call X (MessageSize i) = plain i"
| "plain_call X (Delete i) = plain i"
| "plain_call X (OverviewRange g a b) = plain g"
| "plain_call X (RemovePattern p) = True"
| "plain_call X Descriptions = True"
| "plain_call X Groups = True"
| "plain_call X (GroupsSince t) = True"
| "plain_call X GroupTimes = True"
| "plain_call X PurgeOrphans = True"

fun run_calls :: "(storage_call \<Rightarrow> (db, storage_answer) action) \<Rightarrow> storage_call list \<Rightarrow> db \<Rightarrow> storage_answer result list" where
  "run_calls call [] d = []"
| "run_calls call (q # qs) d = (case call q d of (r, d') \<Rightarrow> r # run_calls call qs d')"

text \<open>The order of the names agrees with SQLite's:\<close>

definition collates :: "(string \<Rightarrow> string) \<Rightarrow> bool" where
  "collates coll \<longleftrightarrow> (\<forall>s t. coll s \<le> coll t \<longleftrightarrow> s \<le> t)"

lemma sort_key_collates:
  assumes "collates coll"
  shows "sort_key (\<lambda>x. coll (f x)) xs = sort_key f xs"
proof -
  have "insort_key (\<lambda>x. coll (f x)) x ys = insort_key f x ys" for x ys
    using assms by (induction ys) (auto simp: collates_def)
  then show ?thesis by (induction xs) (simp_all add: sort_key_def)
qed

lemma sort_key_same:
  assumes "distinct (map key xs)" and "distinct (map key ys)" and "set xs = set ys"
  shows "sort_key key xs = sort_key key ys"
proof -
  have "map key (sort_key key xs) = map key (sort_key key ys)"
    using assms by (intro sorted_distinct_set_unique) (simp_all add: distinct_map)
  moreover have "inj_on key (set (sort_key key xs) \<union> set (sort_key key ys))"
    using assms by (simp add: distinct_map)
  ultimately show ?thesis by (metis inj_on_map_eq_map set_sort)
qed

lemma overview_range_same:
  assumes "same_content d e"
  shows "sort_key ov_article_number (filter (\<lambda>v. ov_group_name v = g \<and> P v) (overview d)) =
     sort_key ov_article_number (filter (\<lambda>v. ov_group_name v = g \<and> P v) (overview e))"
proof (rule sort_key_same)
  have "inj_on ov_key (set (overview d))" "inj_on ov_key (set (overview e))"
    "distinct (overview d)" "distinct (overview e)"
    using assms by (simp_all add: same_content_def distinct_map)
  then show "distinct (map ov_article_number (filter (\<lambda>v. ov_group_name v = g \<and> P v) (overview d)))"
    "distinct (map ov_article_number (filter (\<lambda>v. ov_group_name v = g \<and> P v) (overview e)))"
    by (auto simp: distinct_map inj_on_def)
qed (use assms in \<open>simp add: same_content_def\<close>)

lemma agree_answer [agree_intros]: "agree m n \<Longrightarrow> agree (answer f m) (answer f n)"
  unfolding answer_def by (intro agree_intros)

lemma agree_call:
  assumes "collates coll" and "plain_call X q"
  shows "agree (sqlite_call X q) (pg_call X coll q)"
proof (cases q)
  case (Store a)
  with assms show ?thesis by (simp add: agree_answer agree_store)
next
  case (RemovePattern p)
  show ?thesis by (simp add: RemovePattern agree_answer agree_remove_pattern)
next
  case (RemoveGroup g)
  with assms show ?thesis by (simp add: agree_answer agree_remove_group)
next
  case (OverviewRange g a b)
  with assms show ?thesis
    unfolding OverviewRange sqlite_call.simps pg_call.simps get_overview_range_def pg_get_overview_range_def
    by (intro agree_intros agree_select) (simp_all add: overview_range_same [where P = "\<lambda>v. _ v \<and> _ v"])
next
  case (ByIds ids)
  with assms show ?thesis
    unfolding ByIds sqlite_call.simps pg_call.simps get_articles_by_ids_def pg_get_articles_by_ids_def
    by (cases "ids = []") (auto intro!: agree_intros agree_select simp: same_content_def)
qed (use assms in \<open>auto intro!: agree_intros agree_select simp: same_content_def sort_key_collates
      get_article_by_number_def pg_get_article_by_number_def get_article_by_id_def pg_get_article_by_id_def
      add_group_def pg_add_group_def set_group_moderated_def pg_set_group_moderated_def
      add_group_with_description_def pg_add_group_with_description_def is_group_moderated_def
      pg_is_group_moderated_def group_exists_def pg_group_exists_def list_groups_with_descriptions_def
      pg_list_groups_with_descriptions_def list_groups_def pg_list_groups_def list_groups_since_def
      pg_list_groups_since_def list_groups_with_times_def pg_list_groups_with_times_def
      list_article_numbers_def pg_list_article_numbers_def list_article_ids_def pg_list_article_ids_def
      list_article_ids_since_def pg_list_article_ids_since_def group_rows_def purge_group_before_def
      pg_purge_group_before_def purge_orphan_messages_def pg_purge_orphan_messages_def
      delete_article_by_id_def pg_delete_article_by_id_def\<close>)

lemma run_calls_agree:
  assumes "collates coll" and "list_all (plain_call X) calls" and "same_content d e"
  shows "run_calls (pg_call X coll) calls e = run_calls (sqlite_call X) calls d"
  using assms(2,3)
proof (induction calls arbitrary: d e)
  case (Cons q qs)
  obtain r d' where s: "sqlite_call X q d = (r, d')" by fastforce
  obtain r' e' where p: "pg_call X coll q e = (r', e')" by fastforce
  have "agree (sqlite_call X q) (pg_call X coll q)" using agree_call [OF assms(1)] Cons.prems(1) by simp
  with s p Cons.prems(2) have "r' = r" "same_content d' e'" by (metis agree_def fst_conv snd_conv)+
  with Cons s p show ?case by simp
qed simp

subsection \<open>Credentials\<close>

definition pg_hash_of :: "pg_adb \<Rightarrow> string \<Rightarrow> string option" where
  "pg_hash_of d name = map_option u_password_hash (List.find (\<lambda>u. u_username u = name) (pg_users d))"

lemma pg_hash_of_faults [simp]: "pg_hash_of (d\<lparr>faults := fs\<rparr>) = pg_hash_of d"
  by (simp add: pg_hash_of_def fun_eq_iff)

lemma pg_text_okE:
  assumes "pg_text ts m d = (Inr x, d')"
  shows "m d = (Inr x, d')"
  using assms by (auto simp: pg_text_def exec_def split: if_splits list.splits)

lemma pg_hash_of_upsert:
  assumes "pg_upsert_user r d = (Inr (), d')"
  shows "pg_hash_of d' = (pg_hash_of d)(u_username r \<mapsto> u_password_hash r)"
proof -
  have "pg_users d' = upsert u_username r (pg_users d)"
    using assms unfolding pg_upsert_user_def by (auto dest!: pg_text_okE elim!: exec_okE)
  then show ?thesis by (auto simp: pg_hash_of_def fun_eq_iff find_upsert)
qed

lemma pg_hash_of_update:
  assumes "pg_update_users name (\<lambda>u. u\<lparr>u_password_hash := h\<rparr>) d = (Inr (), d')"
  shows "pg_hash_of d' = (if pg_hash_of d name = None then pg_hash_of d else (pg_hash_of d)(name \<mapsto> h))"
proof -
  have us: "pg_users d' = map (\<lambda>u. if u_username u = name then u\<lparr>u_password_hash := h\<rparr> else u) (pg_users d)"
    using assms unfolding pg_update_users_def by (auto elim!: exec_okE)
  have "map_option u_password_hash (List.find (\<lambda>u. u_username u = n)
        (map (\<lambda>u. if u_username u = name then u\<lparr>u_password_hash := h\<rparr> else u) us)) =
      (if n = name \<and> List.find (\<lambda>u. u_username u = n) us \<noteq> None then Some h
       else map_option u_password_hash (List.find (\<lambda>u. u_username u = n) us))" for n and us :: "user_row list"
    by (induction us) auto
  then show ?thesis by (auto simp: pg_hash_of_def fun_eq_iff us)
qed

lemma pg_hash_of_delete:
  assumes "pg_remove_user name d = (Inr (), d')"
  shows "pg_hash_of d' = (pg_hash_of d)(name := None)"
proof -
  have "pg_users d' = filter (\<lambda>u. u_username u \<noteq> name) (pg_users d)"
    using assms unfolding pg_remove_user_def pg_delete_user_def pg_delete_admin_def pg_delete_moderators_def
    by (auto elim!: bind_res_okE exec_okE dest!: pg_text_okE split: if_splits)
  moreover have "List.find (\<lambda>u. u_username u = n) (filter (\<lambda>u. u_username u \<noteq> name) us) =
      (if n = name then None else List.find (\<lambda>u. u_username u = n) us)" for n and us :: "user_row list"
    by (induction us) auto
  ultimately show ?thesis by (auto simp: pg_hash_of_def fun_eq_iff)
qed

interpretation pg_auth: credential_store "\<lambda>_. argon2_ok X" pg_hash_of
  "\<lambda>h p. argon2_verify_password X p h" "pg_add_user X" "pg_update_password X" pg_remove_user "pg_verify_user X" for X
proof
  fix d u p d'
  assume ok: "argon2_ok X" and add: "pg_add_user X u p d = (Inr (), d')"
  then obtain h where h: "argon2_hash_password X p (salt_generate X) = Some h"
    and r: "pg_upsert_user \<lparr>u_username = u, u_password_hash = h, u_key = None\<rparr> d = (Inr (), d')"
    by (auto simp: pg_add_user_def pg_add_user_with_key_def split: option.splits)
  with ok pg_hash_of_upsert [OF r] show "\<exists>h. argon2_verify_password X p h \<and>
      pg_hash_of d' = (pg_hash_of d)(u \<mapsto> h) \<and> argon2_ok X"
    by (auto simp: argon2_ok_def)
next
  fix d u p d'
  assume ok: "argon2_ok X" and up: "pg_update_password X u p d = (Inr (), d')"
  then obtain h where h: "argon2_hash_password X p (salt_generate X) = Some h"
    and r: "pg_update_users u (\<lambda>u. u\<lparr>u_password_hash := h\<rparr>) d = (Inr (), d')"
    by (auto simp: pg_update_password_def split: option.splits dest: pg_text_okE)
  with ok pg_hash_of_update [OF r] show "\<exists>h. argon2_verify_password X p h \<and> argon2_ok X \<and>
      pg_hash_of d' = (if pg_hash_of d u = None then pg_hash_of d else (pg_hash_of d)(u \<mapsto> h))"
    by (intro exI [of _ h]) (auto simp: argon2_ok_def)
next
  fix d u d'
  assume "argon2_ok X" and "pg_remove_user u d = (Inr (), d')"
  then show "pg_hash_of d' = (pg_hash_of d)(u := None) \<and> argon2_ok X" using pg_hash_of_delete by blast
next
  fix d u p b d'
  assume ok: "argon2_ok X" and v: "pg_verify_user X u p d = (Inr b, d')"
  from v obtain row d1 where
    sel: "select (\<lambda>d. List.find (\<lambda>r. u_username r = u) (pg_users d)) d = (Inr row, d1)" and
    k: "(case row of None \<Rightarrow> ret False | Some r \<Rightarrow> if argon2_parse_hash X (u_password_hash r)
           then ret (argon2_verify_password X p (u_password_hash r))
           else throw (Anyhow ''password hash'')) d1 = (Inr b, d')"
    unfolding pg_verify_user_def by (elim bind_res_okE) (auto dest: pg_text_okE)
  from select_cases [OF _ sel] obtain fs where
    "row = List.find (\<lambda>r. u_username r = u) (pg_users d)" "d1 = d\<lparr>faults := fs\<rparr>" by auto
  with k ok show "b = (\<exists>h. pg_hash_of d u = Some h \<and> argon2_verify_password X p h) \<and>
      pg_hash_of d' = pg_hash_of d \<and> argon2_ok X"
    by (auto simp: pg_hash_of_def fun_eq_iff split: option.splits if_splits)
qed

subsection \<open>Properties\<close>



text \<open>Passwords with PostgreSQL: a password that was set verifies, a changed one verifies once it was
  changed, none verifies for a removed user, and setting one user's password does not change the outcome
  for another.\<close>

theorem postgres_password_lifecycle:
  assumes "argon2_ok X"
  shows "(pg_add_user X u p d = (Inr (), d1) \<and> pg_verify_user X u p d1 = (Inr b1, e1) \<longrightarrow> b1) \<and>
         (pg_hash_of d u \<noteq> None \<and> pg_update_password X u p d = (Inr (), d2) \<and>
            pg_verify_user X u p d2 = (Inr b2, e2) \<longrightarrow> b2) \<and>
         (pg_remove_user u d = (Inr (), d3) \<and> pg_verify_user X u q d3 = (Inr b3, e3) \<longrightarrow> \<not> b3) \<and>
         (pg_add_user X u p d = (Inr (), d1) \<and> v \<noteq> u \<and> pg_verify_user X v q d1 = (Inr b4, e4) \<and>
            pg_verify_user X v q d = (Inr b5, e5) \<longrightarrow> b4 = b5)"
  using pg_auth.verify_after_add [OF assms, of u p d d1 b1 e1]
    pg_auth.verify_after_change [OF assms, of d u p d2 b2 e2]
    pg_auth.verify_after_remove [OF assms, of u d d3 q b3 e3]
    pg_auth.verify_other_after_add [OF assms, of u p d d1 v q b4 e4 b5 e5] by blast

definition empty_pg :: pg_adb where
  "empty_pg = \<lparr>faults = [], pg_users = [], pg_admins = [], pg_moderators = [], pg_limits_table = [], pg_usage_table = []\<rparr>"

theorem postgres_password_lifecycle_witness:
  "fst (pg_verify_user sample_ext ''u'' ''pw'' (snd (pg_add_user sample_ext ''u'' ''pw'' empty_pg))) = Inr True"
proof -
  let ?d = "snd (pg_add_user sample_ext ''u'' ''pw'' empty_pg)"
  have "fst (pg_add_user sample_ext ''u'' ''pw'' empty_pg) = Inr ()"
    "is_ok (fst (pg_verify_user sample_ext ''u'' ''pw'' ?d))" by code_simp+
  then obtain b e where "pg_add_user sample_ext ''u'' ''pw'' empty_pg = (Inr (), ?d)"
    "pg_verify_user sample_ext ''u'' ''pw'' ?d = (Inr b, e)"
    by (metis is_ok.simps(1) prod.collapse sum.exhaust)
  with postgres_password_lifecycle [OF argon2_ok_sample, of "''u''" "''pw''" empty_pg ?d b e] show ?thesis
    by simp
qed

text \<open>C33: adding a user again is where the two providers differ: SQLite replaces the row, which deletes the
  limits of the user; PostgreSQL updates it, and the limits stay.\<close>

theorem readding_a_user_loses_limits_in_sqlite_only:
  assumes "add_user X u p d = (Inr (), d1)" and "is_user d u"
    and "pg_add_user X u p e = (Inr (), e1)"
  shows "(get_user_limits u d1 = (Inr v, d2) \<longrightarrow> v = None) \<and> pg_limits_table e1 = pg_limits_table e"
proof
  have "user_limits_table d1 = filter (\<lambda>l. ul_username l \<noteq> u) (user_limits_table d)"
    using assms(1,2) unfolding add_user_def add_user_with_key_def sql_replace_user_def
    by (auto elim!: exec_okE simp: is_user_def split: option.splits)
  then have "List.find (\<lambda>r. ul_username r = u) (user_limits_table d1) = None" by (auto simp: find_None_iff)
  then show "get_user_limits u d1 = (Inr v, d2) \<longrightarrow> v = None"
    unfolding get_user_limits_def by (auto simp: select_def exec_def split: list.splits if_splits)
  show "pg_limits_table e1 = pg_limits_table e"
    using assms(3) unfolding pg_add_user_def pg_add_user_with_key_def pg_upsert_user_def
    by (auto elim!: exec_okE dest!: pg_text_okE split: option.splits)
qed

theorem readding_a_user_loses_limits_in_sqlite_only_witness:
  "fst (get_user_limits ''u'' (snd (add_user sample_ext ''u'' ''pw'' (snd (set_user_limits ''u'' unlimited
     (snd (add_user sample_ext ''u'' ''pw'' empty_adb))))))) = Inr None"
proof -
  let ?d = "snd (set_user_limits ''u'' unlimited (snd (add_user sample_ext ''u'' ''pw'' empty_adb)))"
  let ?d1 = "snd (add_user sample_ext ''u'' ''pw'' ?d)"
  have "fst (add_user sample_ext ''u'' ''pw'' ?d) = Inr ()" "is_user ?d ''u''" "is_ok (fst (get_user_limits ''u'' ?d1))"
    "fst (pg_add_user sample_ext ''u'' ''pw'' empty_pg) = Inr ()" by code_simp+
  then show ?thesis
    using readding_a_user_loses_limits_in_sqlite_only [of sample_ext "''u''" "''pw''" ?d ?d1 empty_pg]
    by (metis is_ok.simps(1) prod.collapse sum.exhaust_sel)
qed

end
