(* ===== verification/Peers.thy ===== *)
theory Peers
  imports Post_Handlers
begin

text \<open>
  Peer synchronisation, \<^verbatim>\<open>src/src/peers.rs\<close>: the addresses of peers, the client side of the transfer protocol,
  the table of peers and the job that sends new articles to a peer.

  The network is a parameter of the state: \<open>dials\<close> holds, for the connections to come, what the TCP
  connection and the TLS handshake yield (they fail, or the peer will send some text and take some),
  and \<open>transcripts\<close> what was sent, per connection. The roots of trust and the validity of host names are those of \<open>ext\<close>. A peer that stays silent keeps the job
  waiting, which is the value \<open>None\<close>: there is no timeout. The cron scheduler is a library; what a job does
  when it runs is \<open>peer_job\<close>.
\<close>

subsection \<open>Addresses\<close>

record peer_credentials =
  cred_username :: string
  cred_password :: string

record peer_connection_info =
  info_host :: string
  info_port :: nat
  info_credentials :: "peer_credentials option"

definition extract_credentials :: "string \<Rightarrow> peer_credentials option \<times> string" where
  "extract_credentials addr =
     (case rsplit_once CHR ''@'' addr of
        None \<Rightarrow> (None, addr)
      | Some (creds_part, rest) \<Rightarrow>
          (case split_once CHR '':'' creds_part of
             None \<Rightarrow> (None, addr)
           | Some (name, password) \<Rightarrow>
               (Some \<lparr>cred_username = name, cred_password = password\<rparr>, rest)))"

definition parse_ipv6_address :: "string \<Rightarrow> nat \<Rightarrow> string \<times> nat" where
  "parse_ipv6_address content default_port =
     (case split_once CHR '']'' content of
        None \<Rightarrow> (content, default_port)
      | Some (host, port_part) \<Rightarrow>
          (host,
           case Option.bind (strip_prefix port_part '':'') (parse_uint 16) of
             None \<Rightarrow> default_port
           | Some port \<Rightarrow> port))"

definition parse_regular_address :: "string \<Rightarrow> nat \<Rightarrow> string \<times> nat" where
  "parse_regular_address host_port default_port =
     (case rsplit_once CHR '':'' host_port of
        None \<Rightarrow> (host_port, default_port)
      | Some (host, port_str) \<Rightarrow>
          if \<not> list_all is_ascii_digit port_str then (host_port, default_port)
          else case parse_uint 16 port_str of
                 None \<Rightarrow> (host_port, default_port)
               | Some port \<Rightarrow> (host, port))"

definition parse_host_and_port :: "string \<Rightarrow> nat \<Rightarrow> string \<times> nat" where
  "parse_host_and_port host_port default_port =
     (case strip_prefix host_port ''['' of
        Some ipv6_content \<Rightarrow> parse_ipv6_address ipv6_content default_port
      | None \<Rightarrow> parse_regular_address host_port default_port)"

definition parse_peer_address :: "string \<Rightarrow> nat \<Rightarrow> peer_connection_info" where
  "parse_peer_address addr default_port =
     (let (credentials, host_port) = extract_credentials addr;
          (host, port) = parse_host_and_port host_port default_port
      in \<lparr>info_host = host, info_port = port, info_credentials = credentials\<rparr>)"

subsection \<open>The connection to a peer\<close>

record peer_connection =
  conn_reader :: reader
  conn_writer :: writer

definition peer_read_response :: "(peer_connection, string) waits" where
  "peer_read_response p =
     (case read_line (conn_reader p) of
        None \<Rightarrow> None
      | Some (r, rd) \<Rightarrow> Some (r, p\<lparr>conn_reader := rd\<rparr>))"

definition peer_send_command :: "string \<Rightarrow> (peer_connection, unit) action" where
  "peer_send_command text p =
     (case takes (conn_writer p) of
        None \<Rightarrow> (Inr (), p\<lparr>conn_writer := (conn_writer p)\<lparr>sent := sent (conn_writer p) @ text\<rparr>\<rparr>)
      | Some n \<Rightarrow>
          (if length text \<le> n then Inr () else Inl Io,
           p\<lparr>conn_writer := \<lparr>sent = sent (conn_writer p) @ take n text, takes = Some (n - length text)\<rparr>\<rparr>))"

definition peer_authenticate :: "peer_credentials \<Rightarrow> (peer_connection, unit) waits" where
  "peer_authenticate creds =
     bind_wait (now (peer_send_command (''AUTHINFO USER '' @ cred_username creds @ CRLF))) (\<lambda>_.
     bind_wait peer_read_response (\<lambda>response.
       if starts_with response ''381''
       then bind_wait (now (peer_send_command (''AUTHINFO PASS '' @ cred_password creds @ CRLF))) (\<lambda>_.
            bind_wait peer_read_response (\<lambda>response.
              if \<not> starts_with response ''281'' then now (throw (Anyhow ''Authentication failed''))
              else now (ret ())))
       else if \<not> starts_with response ''281'' then now (throw (Anyhow ''Authentication failed''))
       else now (ret ())))"

text \<open>\<^verbatim>\<open>PeerConnection::connect\<close> from the TLS stream on: the greeting and the login.\<close>

definition peer_greet :: "peer_connection_info \<Rightarrow> (peer_connection, unit) waits" where
  "peer_greet info =
     bind_wait peer_read_response (\<lambda>greeting.
       if \<not> starts_with greeting ''200'' \<and> \<not> starts_with greeting ''201''
       then now (throw (Anyhow ''Unexpected greeting''))
       else case info_credentials info of
              Some creds \<Rightarrow> peer_authenticate creds
            | None \<Rightarrow> now (ret ()))"

definition send_article_content :: "message \<Rightarrow> (peer_connection, unit) action" where
  "send_article_content article =
     bind_res (peer_send_command (send_headers article)) (\<lambda>_.
     bind_res (peer_send_command CRLF) (\<lambda>_.
     bind_res (peer_send_command (send_body (body article))) (\<lambda>_.
     peer_send_command (''.'' @ CRLF))))"

definition peer_transfer_article :: "message \<Rightarrow> string \<Rightarrow> (peer_connection, unit) waits" where
  "peer_transfer_article article msg_id =
     bind_wait (now (peer_send_command (''IHAVE '' @ msg_id @ CRLF))) (\<lambda>_.
     bind_wait peer_read_response (\<lambda>response.
       if \<not> starts_with response ''335'' then now (ret ())
       else bind_wait (now (send_article_content article)) (\<lambda>_.
            bind_wait peer_read_response (\<lambda>response.
              if \<not> starts_with response ''2'' then now (throw (Anyhow ''Transfer failed''))
              else now (ret ())))))"

subsection \<open>The table of peers\<close>

record peer_row =
  peer_sitename :: string
  peer_last_sync :: int

record peer_db = sql_engine +
  peers :: "peer_row list"

definition list_peers :: "(peer_db, string list) action" where
  "list_peers = select (\<lambda>d. map peer_sitename (peers d))"

definition sql_insert_peer :: "string \<Rightarrow> (peer_db, unit) action" where
  "sql_insert_peer name = exec (\<lambda>d.
     if list_ex (\<lambda>p. peer_sitename p = name) (peers d) then (Inl Database, d)
     else (Inr (), d\<lparr>peers := peers d @ [\<lparr>peer_sitename = name, peer_last_sync = 0\<rparr>]\<rparr>))"

definition sql_delete_peer :: "string \<Rightarrow> (peer_db, unit) action" where
  "sql_delete_peer name = exec (\<lambda>d.
     (Inr (), d\<lparr>peers := filter (\<lambda>p. peer_sitename p \<noteq> name) (peers d)\<rparr>))"

definition sync_config :: "string list \<Rightarrow> (peer_db, unit) action" where
  "sync_config names =
     bind_res list_peers (\<lambda>existing_peers.
     bind_res (for_each sql_insert_peer (filter (\<lambda>name. name \<notin> set existing_peers) names)) (\<lambda>_.
     for_each sql_delete_peer (filter (\<lambda>p. p \<notin> set names) existing_peers)))"

definition update_last_sync :: "string \<Rightarrow> datetime \<Rightarrow> (peer_db, unit) action" where
  "update_last_sync name when = exec (\<lambda>d.
     (Inr (), d\<lparr>peers := map (\<lambda>p. if peer_sitename p = name then p\<lparr>peer_last_sync := timestamp when\<rparr> else p)
        (peers d)\<rparr>))"

definition get_last_sync :: "ext \<Rightarrow> string \<Rightarrow> (peer_db, datetime option) action" where
  "get_last_sync X name =
     select (\<lambda>d. case List.find (\<lambda>p. peer_sitename p = name) (peers d) of
       Some row \<Rightarrow> if peer_last_sync row = 0 then None else chrono_from_timestamp X (peer_last_sync row)
     | None \<Rightarrow> None)"

subsection \<open>Articles for a peer\<close>

record peer_config =
  pc_sitename :: string
  pc_patterns :: "string list"
  pc_sync_schedule :: "string option"

definition peer_config_of :: "peer_rule \<Rightarrow> peer_config" where
  "peer_config_of r = \<lparr>pc_sitename = rule_sitename r, pc_patterns = rule_patterns r,
     pc_sync_schedule = rule_sync_schedule r\<rparr>"

fun prepend_path :: "string \<Rightarrow> header list \<Rightarrow> header list option" where
  "prepend_path site_name [] = None"
| "prepend_path site_name ((k, v) # hs) =
     (if eq_ignore_ascii_case k ''Path'' then Some ((k, site_name @ ''!'' @ v) # hs)
      else map_option ((#) (k, v)) (prepend_path site_name hs))"

definition create_peer_article :: "message \<Rightarrow> string \<Rightarrow> message" where
  "create_peer_article orig site_name =
     orig\<lparr>headers := (case prepend_path site_name (headers orig) of
        Some hs \<Rightarrow> hs
      | None \<Rightarrow> headers orig @ [(''Path'', site_name)])\<rparr>"

definition should_skip_article :: "message \<Rightarrow> string \<Rightarrow> bool" where
  "should_skip_article article sitename =
     list_ex (\<lambda>(k, path). eq_ignore_ascii_case k ''Path'' \<and>
       list_ex (\<lambda>segment. str_trim segment = sitename) (str_split CHR ''!'' path)) (headers article)"

subsection \<open>Synchronisation\<close>

datatype peer_dial =
    TcpFails string
  | TlsFails string
  | TlsStream peer_connection

record peering = server +
  peer_database :: peer_db
  dials :: "peer_dial list"
  transcripts :: "(string \<times> string) list"

definition on_peers :: "(peer_db, 'a) action \<Rightarrow> (peering, 'a) action" where
  "on_peers m w = (case m (peer_database w) of (r, d) \<Rightarrow> (r, w\<lparr>peer_database := d\<rparr>))"

fun add_root_certs :: "ext \<Rightarrow> string list \<Rightarrow> string option" where
  "add_root_certs X [] = None"
| "add_root_certs X (cert # certs) =
     (case root_store_add X cert of Some e \<Rightarrow> Some e | None \<Rightarrow> add_root_certs X certs)"

definition create_tls_connector :: "ext \<Rightarrow> string + string list" where
  "create_tls_connector X =
     (case load_native_certs X of
        Inl e \<Rightarrow> Inl e
      | Inr certs \<Rightarrow> (case add_root_certs X certs of Some e \<Rightarrow> Inl e | None \<Rightarrow> Inr certs))"

text \<open>\<^verbatim>\<open>PeerConnection::connect\<close> up to the TLS stream.\<close>

definition establish :: "ext \<Rightarrow> peer_connection_info \<Rightarrow> (peering, peer_connection) action" where
  "establish X info w =
     (let addr = info_host info @ '':'' @ show_nat (info_port info)
      in case dials w of
           [] \<Rightarrow> (Inl (Anyhow (''Failed to connect to '' @ addr)), w)
         | dial # rest \<Rightarrow>
             (case dial of
                TcpFails e \<Rightarrow> Inl (Anyhow (''Failed to connect to '' @ addr @ '': '' @ e))
              | _ \<Rightarrow>
                  (case create_tls_connector X of
                     Inl e \<Rightarrow> Inl (Anyhow (''Failed to create TLS connector: '' @ e))
                   | Inr _ \<Rightarrow>
                       if \<not> server_name_valid X (info_host info)
                       then Inl (Anyhow (''Invalid server name '' @ info_host info))
                       else (case dial of
                               TlsFails e \<Rightarrow> Inl (Anyhow (''TLS handshake failed for '' @ addr @ '': '' @ e))
                             | TlsStream p \<Rightarrow> Inr p)),
              w\<lparr>dials := rest\<rparr>))"

definition send_article_to_peer :: "ext \<Rightarrow> string \<Rightarrow> message \<Rightarrow> (peering, unit) waits" where
  "send_article_to_peer X host article w =
     (case extract_message_id article of
        None \<Rightarrow> Some (Inl (Anyhow ''Article missing Message-ID header''), w)
      | Some msg_id \<Rightarrow>
          (case establish X (parse_peer_address host 563) w of
             (Inl e, w') \<Rightarrow> Some (Inl e, w')
           | (Inr p, w') \<Rightarrow>
               (case bind_wait (peer_greet (parse_peer_address host 563))
                       (\<lambda>_. peer_transfer_article article msg_id) p of
                  None \<Rightarrow> None
                | Some (r, p') \<Rightarrow>
                    Some (r, w'\<lparr>transcripts := transcripts w' @ [(host, sent (conn_writer p'))]\<rparr>))))"

datatype article_process_result = Sent | Skipped

definition process_fetched_article ::
  "ext \<Rightarrow> peer_config \<Rightarrow> string \<Rightarrow> message \<Rightarrow> (peering, article_process_result) waits" where
  "process_fetched_article X peer site_name original_article =
     (if should_skip_article original_article (pc_sitename peer) then now (ret Skipped)
      else bind_wait (send_article_to_peer X (pc_sitename peer) (create_peer_article original_article site_name))
             (\<lambda>_. now (ret Sent)))"

record group_sync_stats =
  gs_sent :: nat
  gs_skipped :: nat
  gs_errors :: nat

definition no_stats :: group_sync_stats where
  "no_stats = \<lparr>gs_sent = 0, gs_skipped = 0, gs_errors = 0\<rparr>"

text \<open>The loop over the fetched articles: a failure is counted and logged, and the loop goes on.\<close>

fun process_articles ::
  "ext \<Rightarrow> peer_config \<Rightarrow> string \<Rightarrow> (string \<times> message) result list \<Rightarrow> group_sync_stats \<Rightarrow> (peering, group_sync_stats) waits" where
  "process_articles X peer site_name [] stats w = Some (Inr stats, w)"
| "process_articles X peer site_name (Inl e # items) stats w =
     process_articles X peer site_name items (stats\<lparr>gs_errors := gs_errors stats + 1\<rparr>) w"
| "process_articles X peer site_name (Inr (article_id, article) # items) stats w =
     (case process_fetched_article X peer site_name article w of
        None \<Rightarrow> None
      | Some (Inl e, w') \<Rightarrow>
          process_articles X peer site_name items (stats\<lparr>gs_errors := gs_errors stats + 1\<rparr>) w'
      | Some (Inr Sent, w') \<Rightarrow>
          process_articles X peer site_name items (stats\<lparr>gs_sent := gs_sent stats + 1\<rparr>) w'
      | Some (Inr Skipped, w') \<Rightarrow>
          process_articles X peer site_name items (stats\<lparr>gs_skipped := gs_skipped stats + 1\<rparr>) w')"

text \<open>A query that fails is one failed item of the stream.\<close>

definition fetch_items :: "ext \<Rightarrow> string list \<Rightarrow> (peering, (string \<times> message) result list) action" where
  "fetch_items X article_ids w =
     (case on_storage (get_articles_by_ids X article_ids) w of
        (Inl e, w') \<Rightarrow> (Inr [Inl e], w')
      | (Inr items, w') \<Rightarrow> (Inr items, w'))"

definition process_group_articles ::
  "ext \<Rightarrow> peer_config \<Rightarrow> string \<Rightarrow> string list \<Rightarrow> (peering, group_sync_stats) waits" where
  "process_group_articles X peer site_name article_ids =
     (if article_ids = [] then now (ret no_stats)
      else bind_wait (now (fetch_items X article_ids)) (\<lambda>items.
             process_articles X peer site_name items no_stats))"

record sync_stats = group_sync_stats +
  ss_groups_processed :: nat

definition merge_stats :: "sync_stats \<Rightarrow> group_sync_stats \<Rightarrow> sync_stats" where
  "merge_stats s other =
     s\<lparr>gs_sent := gs_sent s + gs_sent other, gs_skipped := gs_skipped s + gs_skipped other,
       gs_errors := gs_errors s + gs_errors other\<rparr>"

definition article_ids_to_sync :: "string \<Rightarrow> datetime option \<Rightarrow> (db, string list) action" where
  "article_ids_to_sync grp last_sync =
     (case last_sync of
        Some since \<Rightarrow> list_article_ids_since grp since
      | None \<Rightarrow> list_article_ids grp)"

fun sync_groups ::
  "ext \<Rightarrow> peer_config \<Rightarrow> string \<Rightarrow> datetime option \<Rightarrow> string list \<Rightarrow> sync_stats \<Rightarrow> (peering, sync_stats) waits" where
  "sync_groups X peer site_name last_sync [] stats w = Some (Inr stats, w)"
| "sync_groups X peer site_name last_sync (grp # names) stats w =
     (if \<not> list_ex (\<lambda>pattern. wildmat X pattern grp) (pc_patterns peer)
      then sync_groups X peer site_name last_sync names stats w
      else bind_wait (now (on_storage (article_ids_to_sync grp last_sync))) (\<lambda>article_ids.
           bind_wait (process_group_articles X peer site_name article_ids) (\<lambda>group_stats.
             sync_groups X peer site_name last_sync names
               ((merge_stats stats group_stats)\<lparr>ss_groups_processed := ss_groups_processed stats + 1\<rparr>))) w)"

definition sync_peer_once :: "ext \<Rightarrow> peer_config \<Rightarrow> string \<Rightarrow> (peering, sync_stats) waits" where
  "sync_peer_once X peer site_name =
     bind_wait (now (on_peers (get_last_sync X (pc_sitename peer)))) (\<lambda>last_sync.
     bind_wait (now (on_storage list_groups)) (\<lambda>names.
     sync_groups X peer site_name last_sync names
       \<lparr>gs_sent = 0, gs_skipped = 0, gs_errors = 0, ss_groups_processed = 0\<rparr>))"

text \<open>What the job of \<^verbatim>\<open>add_peer_job\<close> does when it runs; errors are logged. The clock is read again for the new
  time of the last synchronisation (\<open>finished\<close>).\<close>

definition peer_job :: "ext \<Rightarrow> peer_config \<Rightarrow> string \<Rightarrow> datetime \<Rightarrow> peering \<Rightarrow> peering option" where
  "peer_job X peer site_name finished w =
     (case sync_peer_once X peer site_name w of
        None \<Rightarrow> None
      | Some (_, w') \<Rightarrow> Some (snd (on_peers (update_last_sync (pc_sitename peer) finished) w')))"

definition job_schedule :: "peer_config \<Rightarrow> string \<Rightarrow> string" where
  "job_schedule peer default_schedule =
     (case pc_sync_schedule peer of None \<Rightarrow> default_schedule | Some s \<Rightarrow> s)"

text \<open>Connecting uses up a dial and changes nothing else.\<close>

lemma establish_frame: "establish X info w = (r, w') \<Longrightarrow> \<exists>ds. w' = w\<lparr>dials := ds\<rparr>"
  by (cases "dials w") (auto simp: establish_def Let_def intro: exI [of _ "dials w"])

end
