(* ===== verification/Peer_Properties.thy ===== *)
theory Peer_Properties
  imports Peers Delivery
begin

text \<open>
  Peer synchronisation: what reaches the peer, what a later synchronisation leaves out, and the table of
  peers.
\<close>

subsection \<open>Talking to a peer\<close>

lemma peer_send_command_open:
  "takes (conn_writer p) = None \<Longrightarrow>
     peer_send_command t p = (Inr (), p\<lparr>conn_writer := (conn_writer p)\<lparr>sent := sent (conn_writer p) @ t\<rparr>\<rparr>)"
  by (simp add: peer_send_command_def)

lemma send_article_content_open:
  assumes "takes (conn_writer p) = None"
  shows "send_article_content a p = (Inr (), p\<lparr>conn_writer := (conn_writer p)
     \<lparr>sent := sent (conn_writer p) @ article_content Full a\<rparr>\<rparr>)"
  using assms by (simp add: send_article_content_def bind_res_def peer_send_command_open RESP_CRLF_def RESP_DOT_CRLF_def)

lemma peer_read_response_line:
  assumes "pending (conn_reader p) = l @ LF # rest" and "LF \<notin> set l"
  shows "peer_read_response p = Some (Inr (l @ [LF]), p\<lparr>conn_reader := (conn_reader p)\<lparr>pending := rest\<rparr>\<rparr>)"
  using assms by (simp add: peer_read_response_def read_line_def take_line_LF)

subsection \<open>Paths\<close>

lemma prepend_path_Some:
  "prepend_path s hs = Some hs' \<Longrightarrow>
     \<exists>k v. (k, s @ ''!'' @ v) \<in> set hs' \<and> eq_ignore_ascii_case k ''Path''"
proof (induction hs arbitrary: hs')
  case (Cons h hs)
  obtain k v where h: "h = (k, v)" by fastforce
  show ?case
  proof (cases "eq_ignore_ascii_case k ''Path''")
    case True
    with Cons.prems h show ?thesis by fastforce
  next
    case False
    with Cons.prems h obtain hs1 where "prepend_path s hs = Some hs1" "hs' = (k, v) # hs1" by auto
    with Cons.IH [of hs1] show ?thesis by fastforce
  qed
qed simp

lemma split_first: "c \<notin> set s \<Longrightarrow> str_split c (s @ c # v) = s # str_split c v"
  by (induction s) (auto simp: str_split_def)

lemma split_none: "c \<notin> set s \<Longrightarrow> str_split c s = [s]"
  by (induction s) (auto simp: str_split_def)

lemma path_names_site:
  assumes "CHR ''!'' \<notin> set s" and "str_trim s = s"
  shows "should_skip_article (create_peer_article a s) s"
proof (cases "prepend_path s (headers a)")
  case None
  have "eq_ignore_ascii_case ''Path'' ''Path''" by (simp add: eq_ignore_ascii_case_def)
  with None assms show ?thesis
    by (simp add: should_skip_article_def create_peer_article_def split_none)
next
  case (Some hs)
  from prepend_path_Some [OF Some] obtain k v where
    "(k, s @ ''!'' @ v) \<in> set hs" "eq_ignore_ascii_case k ''Path''" by blast
  with Some assms show ?thesis
    by (auto simp: should_skip_article_def create_peer_article_def list_ex_iff split_first intro!: bexI)
qed

lemma transfer_to_open_peer:
  assumes "extract_message_id a = Some i" and "dials w = TlsStream p # rest"
    and tls: "create_tls_connector X = Inr roots" "server_name_valid X (info_host (parse_peer_address host 563))"
    and "conn_writer p = \<lparr>sent = [], takes = None\<rparr>" and "info_credentials (parse_peer_address host 563) = None"
    and "pending (conn_reader p) = l1 @ LF # l2 @ LF # l3 @ LF # later"
    and "LF \<notin> set l1 \<union> set l2 \<union> set l3"
    and "starts_with (l1 @ [LF]) ''200''" and "starts_with (l2 @ [LF]) ''335''" and "starts_with (l3 @ [LF]) ''2''"
  shows "send_article_to_peer X host a w = Some (Inr (), w\<lparr>dials := rest,
     transcripts := transcripts w @ [(host, ''IHAVE '' @ i @ CRLF @ article_content Full a)]\<rparr>)"
proof -
  have greet: "peer_greet (parse_peer_address host 563) p =
      Some (Inr (), p\<lparr>conn_reader := (conn_reader p)\<lparr>pending := l2 @ LF # l3 @ LF # later\<rparr>\<rparr>)"
    using assms(5-11) peer_read_response_line [of p l1 "l2 @ LF # l3 @ LF # later"]
    by (simp add: peer_greet_def bind_wait_def now_def)
  have "peer_transfer_article a i (p\<lparr>conn_reader := (conn_reader p)\<lparr>pending := l2 @ LF # l3 @ LF # later\<rparr>\<rparr>) =
      Some (Inr (), \<lparr>conn_reader = (conn_reader p)\<lparr>pending := later\<rparr>,
        conn_writer = \<lparr>sent = ''IHAVE '' @ i @ CRLF @ article_content Full a, takes = None\<rparr>\<rparr>)"
    using assms(5,8-11)
    by (cases p) (simp add: peer_transfer_article_def bind_wait_def now_def peer_send_command_open
        peer_read_response_line [where l = l2] peer_read_response_line [where l = l3] send_article_content_open
        del: article_content.simps)
  with greet assms(1-4) show ?thesis
    by (simp add: send_article_to_peer_def establish_def Let_def bind_wait_def del: article_content.simps)
qed

subsection \<open>The times of synchronisation\<close>

lemma on_peers_view: "on_peers m w = (r, w') \<longleftrightarrow> (\<exists>d. m (peer_database w) = (r, d) \<and> w' = w\<lparr>peer_database := d\<rparr>)"
  by (auto simp: on_peers_def split: prod.splits)

lemma update_last_sync_row:
  assumes "update_last_sync name t d = (Inr (), d')"
  shows "List.find (\<lambda>p. peer_sitename p = name) (peers d') =
     map_option (\<lambda>p. p\<lparr>peer_last_sync := timestamp t\<rparr>) (List.find (\<lambda>p. peer_sitename p = name) (peers d))"
proof -
  have "peers d' = map (\<lambda>p. if peer_sitename p = name then p\<lparr>peer_last_sync := timestamp t\<rparr> else p) (peers d)"
    using assms unfolding update_last_sync_def by (auto elim!: exec_okE)
  moreover have "List.find (\<lambda>p. peer_sitename p = name)
      (map (\<lambda>p. if peer_sitename p = name then p\<lparr>peer_last_sync := timestamp t\<rparr> else p) ps) =
      map_option (\<lambda>p. p\<lparr>peer_last_sync := timestamp t\<rparr>) (List.find (\<lambda>p. peer_sitename p = name) ps)"
    for ps :: "peer_row list" by (induction ps) auto
  ultimately show ?thesis by simp
qed

lemma article_ids_since_set:
  assumes "list_article_ids_since g since d = (Inr ids, d')"
  shows "set ids = {ga_message_id r | r. r \<in> set (group_articles d) \<and> ga_group_name r = g \<and>
     timestamp since < ga_inserted_at r}"
proof -
  have "ids = map ga_message_id (filter (\<lambda>r. timestamp since < ga_inserted_at r) (group_rows g d))"
    using assms select_cases [of "\<lambda>d. map ga_message_id (filter (\<lambda>r. timestamp since < ga_inserted_at r) (group_rows g d))" d]
    by (auto simp: list_article_ids_since_def group_rows_def)
  then show ?thesis by (auto simp: set_group_rows)
qed

subsection \<open>The table of peers\<close>

lemma insert_peers_ok:
  assumes "faults d = []" and "distinct names" and "set names \<inter> peer_sitename ` set (peers d) = {}"
  shows "for_each sql_insert_peer names d = (Inr (), d\<lparr>peers := peers d @
     map (\<lambda>n. \<lparr>peer_sitename = n, peer_last_sync = 0\<rparr>) names\<rparr>)"
  using assms
proof (induction names arbitrary: d)
  case (Cons n ns)
  have "\<not> list_ex (\<lambda>p. peer_sitename p = n) (peers d)" using Cons.prems(3) by (auto simp: list_ex_iff)
  then have 1: "sql_insert_peer n d =
      (Inr (), d\<lparr>peers := peers d @ [\<lparr>peer_sitename = n, peer_last_sync = 0\<rparr>]\<rparr>)"
    using Cons.prems(1) by (simp add: sql_insert_peer_def exec_ok)
  with Cons.IH [of "d\<lparr>peers := peers d @ [\<lparr>peer_sitename = n, peer_last_sync = 0\<rparr>]\<rparr>"] Cons.prems
  show ?case by (auto simp: bind_res_def)
qed simp

lemma delete_peers_ok:
  "faults d = [] \<Longrightarrow> for_each sql_delete_peer names d =
     (Inr (), d\<lparr>peers := filter (\<lambda>p. peer_sitename p \<notin> set names) (peers d)\<rparr>)"
proof (induction names arbitrary: d)
  case (Cons n ns)
  have "filter (\<lambda>p. peer_sitename p \<notin> set ns) (filter (\<lambda>p. peer_sitename p \<noteq> n) ps) =
      filter (\<lambda>p. peer_sitename p \<notin> set (n # ns)) ps" for ps :: "peer_row list" by (induction ps) auto
  with Cons show ?case by (simp add: bind_res_def sql_delete_peer_def exec_ok)
qed simp

subsection \<open>What a synchronisation leaves alone\<close>

lemma process_articles_frame:
  "process_articles X peer site items st w = Some (r, w') \<Longrightarrow>
     peer_database w' = peer_database w \<and> storage w' = storage w \<and>
     (\<exists>st'. r = Inr st' \<and> gs_sent st' + gs_skipped st' + gs_errors st' =
        gs_sent st + gs_skipped st + gs_errors st + length items)"
proof (induction X peer site items st w rule: process_articles.induct)
  case (3 X peer site i a items st w)
  have fr: "peer_database w1 = peer_database w \<and> storage w1 = storage w"
    if "process_fetched_article X peer site a w = Some (x, w1)" for x w1
    using that by (auto simp: process_fetched_article_def bind_wait_def now_def send_article_to_peer_def
        split: if_splits option.splits prod.splits sum.splits dest!: establish_frame)
  from 3 show ?case
    by (fastforce split: option.splits prod.splits sum.splits article_process_result.splits dest!: fr)
qed fastforce+

lemma process_group_articles_frame:
  "process_group_articles X peer site ids w = Some (r, w') \<Longrightarrow> peer_database w' = peer_database w"
  unfolding process_group_articles_def
  by (auto simp: bind_wait_def now_def fetch_items_def on_storage_def
      split: if_splits option.splits prod.splits sum.splits dest!: process_articles_frame)

lemma sync_groups_frame:
  "sync_groups X peer site ls gs st w = Some (r, w') \<Longrightarrow> peer_database w' = peer_database w"
proof (induction X peer site ls gs st w rule: sync_groups.induct)
  case (2 X peer site ls g gs st w)
  show ?case
  proof (cases "list_ex (\<lambda>p. wildmat X p g) (pc_patterns peer)")
    case False
    with 2 show ?thesis by simp
  next
    case True
    obtain x w1 where 1: "on_storage (article_ids_to_sync g ls) w = (x, w1)" by fastforce
    have "peer_database w1 = peer_database w" using 1 by (auto simp: on_storage_def split: prod.splits)
    with 2 True 1 show ?thesis
      by (fastforce simp: bind_wait_def now_def split: option.splits prod.splits sum.splits
          dest!: process_group_articles_frame)
  qed
qed simp

lemma sync_peer_once_frame:
  assumes "sync_peer_once X peer site w = Some (r, w')" and "faults (peer_database w) = []"
  shows "peer_database w' = peer_database w"
  using assms unfolding sync_peer_once_def
  by (auto simp: bind_wait_def now_def on_peers_def get_last_sync_def select_ok on_storage_def
      split: option.splits prod.splits sum.splits dest!: sync_groups_frame)

lemma sync_config_ok:
  assumes "faults d = []" and "distinct names"
  shows "sync_config names d = (Inr (), d\<lparr>peers := filter (\<lambda>p. peer_sitename p \<in> set names) (peers d) @
     map (\<lambda>n. \<lparr>peer_sitename = n, peer_last_sync = 0\<rparr>)
       (filter (\<lambda>n. n \<notin> peer_sitename ` set (peers d)) names)\<rparr>)"
proof -
  let ?known = "map peer_sitename (peers d)"
  let ?new = "filter (\<lambda>n. n \<notin> set ?known) names"
  let ?rows = "map (\<lambda>n. \<lparr>peer_sitename = n, peer_last_sync = 0\<rparr>) ?new"
  let ?old = "filter (\<lambda>n. n \<notin> set names) ?known"
  have "for_each sql_insert_peer ?new d = (Inr (), d\<lparr>peers := peers d @ ?rows\<rparr>)"
    using assms by (intro insert_peers_ok) auto
  moreover have "filter (\<lambda>p. peer_sitename p \<notin> set ?old) ?rows = ?rows" by (auto intro!: filter_True)
  moreover have "filter (\<lambda>p. peer_sitename p \<notin> set ?old) (peers d) =
      filter (\<lambda>p. peer_sitename p \<in> set names) (peers d)" by (auto intro!: filter_cong)
  ultimately show ?thesis
    using assms delete_peers_ok [of "d\<lparr>peers := peers d @ ?rows\<rparr>" ?old]
    by (simp add: sync_config_def bind_res_def list_peers_def select_ok)
qed

subsection \<open>Properties\<close>

text \<open>C23: an article sent to a peer arrives there. When the roots of trust load and the peer greets, asks for the article and accepts it,
  the job reports it as sent, and what it wrote is an IHAVE command line that the peer's parser takes as
  such, followed by the article as the peer's reader and parser read it: the article's headers with this
  site added to the path, and its body lines. Since the path then names this site, the article is never
  sent back to a peer that is named like it.\<close>

theorem peer_transfer_arrives:
  assumes site: "CHR ''!'' \<notin> set site" "str_trim site = site"
    and new: "\<not> should_skip_article orig (pc_sitename peer)" "a = create_peer_article orig site"
      "extract_message_id a = Some i" "arg_ok i"
    and tls: "create_tls_connector X = Inr roots" "server_name_valid X (info_host (parse_peer_address (pc_sitename peer) 563))"
    and net: "dials w = TlsStream p # rest" "conn_writer p = \<lparr>sent = [], takes = None\<rparr>"
      "info_credentials (parse_peer_address (pc_sitename peer) 563) = None"
      "pending (conn_reader p) = l1 @ LF # l2 @ LF # l3 @ LF # later"
      "LF \<notin> set l1 \<union> set l2 \<union> set l3"
      "starts_with (l1 @ [LF]) ''200''" "starts_with (l2 @ [LF]) ''335''" "starts_with (l3 @ [LF]) ''2''"
    and format: "nom_ok X" "list_all header_ok (headers a)"
  shows "\<exists>w'. process_fetched_article X peer site orig w = Some (Inr Sent, w') \<and>
     transcripts w' = transcripts w @
       [(pc_sitename peer, ''IHAVE '' @ i @ CRLF @ article_content Full a)] \<and>
     parse_command X (''IHAVE '' @ i @ CRLF) = Some ([], \<lparr>cmd_name = ''IHAVE'', cmd_args = [i]\<rparr>) \<and>
     (\<exists>text. read_message \<lparr>pending = article_content Full a, stream_end = Idle\<rparr> =
          Some (Inr text, \<lparr>pending = [], stream_end = Idle\<rparr>) \<and>
        parse_message X text = Some ([], \<lparr>headers = map_message_id unescape_message_id (headers a),
          body = crlf_body (body a)\<rparr>)) \<and>
     should_skip_article a site"
proof -
  have "to_ascii_uppercase ''IHAVE'' = ''IHAVE''" "list_all is_ascii_alphabetic ''IHAVE''" by code_simp+
  with parse_command_render [OF format(1), of "''IHAVE''" "[i]" CRLF] new(4)
  have cmd: "parse_command X (''IHAVE '' @ i @ CRLF) = Some ([], \<lparr>cmd_name = ''IHAVE'', cmd_args = [i]\<rparr>)"
    by (simp add: render_args_def)
  from transfer_to_open_peer [OF new(3) net(1) tls net(2-)] new(1,2)
  have "process_fetched_article X peer site orig w = Some (Inr Sent, w\<lparr>dials := rest,
     transcripts := transcripts w @ [(pc_sitename peer, ''IHAVE '' @ i @ CRLF @ article_content Full a)]\<rparr>)"
    by (simp add: process_fetched_article_def bind_wait_def now_def del: article_content.simps)
  with cmd read_full_article [OF format, of "[]" Idle] path_names_site [OF site, of orig] new(2)
  show ?thesis by (simp del: article_content.simps)
qed

definition willing_peer :: peer_connection where
  "willing_peer =
     \<lparr>conn_reader = \<lparr>pending = ''200'' @ [LF] @ ''335'' @ [LF] @ ''235'' @ [LF], stream_end = Idle\<rparr>,
      conn_writer = \<lparr>sent = [], takes = None\<rparr>\<rparr>"

definition sample_peer :: peer_config where
  "sample_peer = \<lparr>pc_sitename = ''peer.net'', pc_patterns = [''*''], pc_sync_schedule = None\<rparr>"

definition sample_peering :: peering where
  "sample_peering = server.extend sample_server
     \<lparr>peer_database = \<lparr>faults = [], peers = [\<lparr>peer_sitename = ''peer.net'', peer_last_sync = 0\<rparr>]\<rparr>,
      dials = [TlsStream willing_peer], transcripts = []\<rparr>"

theorem peer_transfer_arrives_witness:
  "\<exists>w'. process_fetched_article sample_ext sample_peer ''here'' posted sample_peering = Some (Inr Sent, w') \<and>
     transcripts w' = [(''peer.net'', ''IHAVE <p@x>'' @ CRLF @
       article_content Full (create_peer_article posted ''here''))]"
proof -
  let ?a = "create_peer_article posted ''here''"
  have "\<not> should_skip_article posted (pc_sitename sample_peer)" "extract_message_id ?a = Some ''<p@x>''"
    "arg_ok ''<p@x>''" "list_all header_ok (headers ?a)" "str_trim ''here'' = ''here''"
    "info_credentials (parse_peer_address (pc_sitename sample_peer) 563) = None"
    "create_tls_connector sample_ext = Inr [''root'']"
    "server_name_valid sample_ext (info_host (parse_peer_address (pc_sitename sample_peer) 563))" by code_simp+
  moreover have "dials sample_peering = [TlsStream willing_peer]" "transcripts sample_peering = []"
    by (simp_all add: sample_peering_def server.defs)
  moreover have "conn_writer willing_peer = \<lparr>sent = [], takes = None\<rparr>"
    "pending (conn_reader willing_peer) = ''200'' @ LF # ''335'' @ LF # ''235'' @ LF # []"
    "LF \<notin> set ''200'' \<union> set ''335'' \<union> set ''235''"
    "starts_with (''200'' @ [LF]) ''200''" "starts_with (''335'' @ [LF]) ''335''"
    "starts_with (''235'' @ [LF]) ''2''" by code_simp+
  moreover have "CHR ''!'' \<notin> set ''here''" "pc_sitename sample_peer = ''peer.net''"
    by (simp_all add: sample_peer_def)
  ultimately show ?thesis
    using peer_transfer_arrives [of "''here''" posted sample_peer ?a "''<p@x>''" sample_ext "[''root'']" sample_peering willing_peer
        "[]" "''200''" "''335''" "''235''" "[]"] nom_ok_sample
    by (auto simp del: article_content.simps)
qed

text \<open>C24: whatever a run of a peer's job sent or failed to send, the next run of it considers exactly the
  entries that were stored after the second in which this one finished. An article that could not be
  transferred, or that was stored while the job ran, is therefore never offered to the peer again.\<close>

theorem next_sync_starts_after_this_one:
  assumes "peer_job X peer site finished w = Some w'" and "faults (peer_database w) = []"
    and "pc_sitename peer \<in> peer_sitename ` set (peers (peer_database w))"
    and "timestamp finished \<noteq> 0" "chrono_from_timestamp X (timestamp finished) = Some since"
      "timestamp since = timestamp finished"
  shows "fst (get_last_sync X (pc_sitename peer) (peer_database w')) = Inr (Some since) \<and>
     (\<forall>grp d ids d'. article_ids_to_sync grp (Some since) d = (Inr ids, d') \<longrightarrow>
        set ids = {ga_message_id r | r. r \<in> set (group_articles d) \<and> ga_group_name r = grp \<and>
          timestamp finished < ga_inserted_at r})"
proof
  let ?mine = "\<lambda>p. peer_sitename p = pc_sitename peer"
  from assms(1) obtain r w1 where run: "sync_peer_once X peer site w = Some (r, w1)"
    and w': "w' = snd (on_peers (update_last_sync (pc_sitename peer) finished) w1)"
    by (auto simp: peer_job_def split: option.splits prod.splits)
  have same: "peer_database w1 = peer_database w" by (rule sync_peer_once_frame [OF run assms(2)])
  obtain d' where upd: "update_last_sync (pc_sitename peer) finished (peer_database w) = (Inr (), d')"
    and nf: "faults d' = []" using assms(2) by (simp add: update_last_sync_def exec_ok)
  have db: "peer_database w' = d'" using upd by (simp add: w' on_peers_def same)
  obtain p where "List.find ?mine (peers (peer_database w)) = Some p"
    using assms(3) by (cases "List.find ?mine (peers (peer_database w))") (auto simp: find_None_iff)
  with update_last_sync_row [OF upd] assms(4,5) nf
  show "fst (get_last_sync X (pc_sitename peer) (peer_database w')) = Inr (Some since)"
    by (simp add: db get_last_sync_def select_ok)
qed (auto simp: article_ids_to_sync_def assms(6) dest!: article_ids_since_set)

definition unreachable_peer :: peering where
  "unreachable_peer = sample_peering\<lparr>dials := [], storage := snd (store_article sample_ext posted sample_db)\<rparr>"

theorem next_sync_starts_after_this_one_witness:
  "\<exists>w' since. peer_job sample_ext sample_peer ''here'' (utc_now sample_ext) unreachable_peer = Some w' \<and>
     transcripts w' = [] \<and>
     fst (get_last_sync sample_ext ''peer.net'' (peer_database w')) = Inr (Some since) \<and>
     fst (article_ids_to_sync ''misc.test'' None (storage w')) = Inr [''<p@x>''] \<and>
     fst (article_ids_to_sync ''misc.test'' (Some since) (storage w')) = Inr []"
proof -
  let ?job = "peer_job sample_ext sample_peer ''here'' (utc_now sample_ext) unreachable_peer"
  have "case ?job of None \<Rightarrow> False | Some w' \<Rightarrow> transcripts w' = [] \<and>
      fst (article_ids_to_sync ''misc.test'' None (storage w')) = Inr [''<p@x>''] \<and>
      is_ok (fst (article_ids_to_sync ''misc.test'' (Some (utc_now sample_ext)) (storage w'))) \<and>
      list_all (\<lambda>r. ga_inserted_at r \<le> timestamp (utc_now sample_ext)) (group_articles (storage w'))"
    by code_simp
  then obtain w' where w': "?job = Some w'" "transcripts w' = []"
    "fst (article_ids_to_sync ''misc.test'' None (storage w')) = Inr [''<p@x>'']"
    "is_ok (fst (article_ids_to_sync ''misc.test'' (Some (utc_now sample_ext)) (storage w')))"
    "\<forall>r \<in> set (group_articles (storage w')). ga_inserted_at r \<le> timestamp (utc_now sample_ext)"
    by (auto simp: list_all_iff split: option.splits)
  have "faults (peer_database unreachable_peer) = []"
    "pc_sitename sample_peer \<in> peer_sitename ` set (peers (peer_database unreachable_peer))"
    by (simp_all add: unreachable_peer_def sample_peering_def server.defs sample_peer_def)
  moreover have "timestamp (utc_now sample_ext) \<noteq> 0"
    "chrono_from_timestamp sample_ext (timestamp (utc_now sample_ext)) = Some (utc_now sample_ext)" by code_simp+
  ultimately have after: "fst (get_last_sync sample_ext (pc_sitename sample_peer) (peer_database w')) =
      Inr (Some (utc_now sample_ext))"
    and left: "\<And>ids d. article_ids_to_sync ''misc.test'' (Some (utc_now sample_ext)) (storage w') = (Inr ids, d) \<Longrightarrow>
      set ids = {ga_message_id r | r. r \<in> set (group_articles (storage w')) \<and> ga_group_name r = ''misc.test'' \<and>
        timestamp (utc_now sample_ext) < ga_inserted_at r}"
    using next_sync_starts_after_this_one [OF w'(1)] by blast+
  from w'(4) obtain ids d where ids:
    "article_ids_to_sync ''misc.test'' (Some (utc_now sample_ext)) (storage w') = (Inr ids, d)"
    by (metis is_ok.simps(1) prod.collapse sum.exhaust)
  have "ids = []" using w'(5) by (simp only: set_empty [symmetric] left [OF ids]) force
  moreover have "pc_sitename sample_peer = ''peer.net''" by (simp add: sample_peer_def)
  ultimately show ?thesis using w'(1-3) ids after by (metis fst_conv)
qed

text \<open>After the table of peers is brought in line with the configuration it holds exactly the configured
  peers, each once. A peer that was known keeps the time of its last synchronisation, a new one has none, so
  that it is offered every article.\<close>

theorem sync_config_matches_configuration:
  assumes "faults d = []" and "distinct names" and "distinct (map peer_sitename (peers d))"
  shows "\<exists>d'. sync_config names d = (Inr (), d') \<and>
     set (map peer_sitename (peers d')) = set names \<and> distinct (map peer_sitename (peers d')) \<and>
     (\<forall>n \<in> set names. fst (get_last_sync X n d') =
        (if n \<in> peer_sitename ` set (peers d) then fst (get_last_sync X n d) else Inr None))"
proof -
  let ?rows = "filter (\<lambda>p. peer_sitename p \<in> set names) (peers d) @
     map (\<lambda>n. \<lparr>peer_sitename = n, peer_last_sync = 0\<rparr>) (filter (\<lambda>n. n \<notin> peer_sitename ` set (peers d)) names)"
  have names: "set (map peer_sitename ?rows) = set names" by (auto simp: image_iff)
  have dist: "distinct (map peer_sitename ?rows)"
    using assms(2,3) by (auto simp: comp_def distinct_map inj_on_def)
  have find_row: "p \<in> set ?rows \<Longrightarrow> List.find (\<lambda>q. peer_sitename q = peer_sitename p) ?rows = Some p" for p
    using dist by (rule find_unique)
  have "fst (get_last_sync X n (d\<lparr>peers := ?rows\<rparr>)) =
      (if n \<in> peer_sitename ` set (peers d) then fst (get_last_sync X n d) else Inr None)" if "n \<in> set names" for n
  proof (cases "n \<in> peer_sitename ` set (peers d)")
    case True
    then obtain p where p: "p \<in> set (peers d)" "n = peer_sitename p" by auto
    with that have "List.find (\<lambda>q. peer_sitename q = n) ?rows = Some p" using find_row [of p] by auto
    moreover have "List.find (\<lambda>q. peer_sitename q = n) (peers d) = Some p"
      unfolding p(2) by (rule find_unique [OF assms(3) p(1)])
    ultimately show ?thesis using True assms(1) by (simp add: get_last_sync_def select_ok)
  next
    case False
    with that have "List.find (\<lambda>q. peer_sitename q = n) ?rows = Some \<lparr>peer_sitename = n, peer_last_sync = 0\<rparr>"
      using find_row [of "\<lparr>peer_sitename = n, peer_last_sync = 0\<rparr>"] by auto
    with False assms(1) show ?thesis by (simp add: get_last_sync_def select_ok)
  qed
  with names dist show ?thesis
    by (intro exI [of _ "d\<lparr>peers := ?rows\<rparr>"]) (simp add: sync_config_ok [OF assms(1,2)])
qed

theorem sync_config_matches_configuration_witness:
  "\<exists>d'. sync_config [''new'', ''peer.net''] (peer_database sample_peering) = (Inr (), d') \<and>
     set (map peer_sitename (peers d')) = {''new'', ''peer.net''}"
  using sync_config_matches_configuration [of "peer_database sample_peering" "[''new'', ''peer.net'']" sample_ext]
  by (auto simp: sample_peering_def server.defs)

end
