(* ===== verification/Admin.thy ===== *)
theory Admin
  imports Peers
begin

text \<open>
  The administration commands, \<^verbatim>\<open>src/src/main.rs\<close>: import and export of the list of groups, and the commands
  on the storage and the authentication database. The command line is parsed by a library (\<^verbatim>\<open>clap\<close>), so that
  a command is a value of \<open>admin_command\<close>; opening the databases is I/O, and the commands run on the opened
  ones. What is printed goes to \<open>console_output\<close>, line by line. \<open>files\<close> gives the lines of a file, or those of
  the standard input for a single dash: \<open>None\<close> when it cannot be opened, an error for a line that cannot be
  read.
\<close>

datatype admin_command =
    AddGroup string "string list"
  | RemoveGroup string
  | AddUser string string "string option"
  | UpdatePassword string string
  | RemoveUser string
  | UpdateKey string string
  | SetModerated string string
  | AddAdmin string
  | RemoveAdmin string
  | AddModerator string string
  | RemoveModerator string string
  | SetLimits string "string option" "u32 option" "string option" "string option"
  | ClearLimits string
  | ShowUsage string
  | ResetUsage string
  | ImportGroups string
  | ExportGroups

record console = server +
  console_output :: "string list"

definition println :: "string \<Rightarrow> (console, unit) action" where
  "println line w = (Inr (), w\<lparr>console_output := console_output w @ [line]\<rparr>)"

subsection \<open>Numbers for people\<close>

text \<open>The conversion of a \<^verbatim>\<open>u64\<close> to \<^verbatim>\<open>f64\<close> keeps 53 bits and rounds to the nearest value, ties to even; so does
  printing with two digits after the point. The divisors are powers of two, so that the division between
  them is exact.\<close>

definition round_half_even :: "nat \<Rightarrow> nat \<Rightarrow> nat" where
  "round_half_even a b =
     (let q = a div b; r = a mod b
      in if 2 * r < b \<or> 2 * r = b \<and> even q then q else q + 1)"

fun bit_length :: "nat \<Rightarrow> nat" where
  "bit_length n = (if n = 0 then 0 else Suc (bit_length (n div 2)))"

declare bit_length.simps [simp del]

definition u64_as_f64 :: "u64 \<Rightarrow> nat" where
  "u64_as_f64 w = (let n = unat w; e = bit_length n - 53 in round_half_even n (2 ^ e) * 2 ^ e)"

definition show_two_digits :: "nat \<Rightarrow> nat \<Rightarrow> string" where
  "show_two_digits a b =
     (let h = round_half_even (100 * a) b
      in show_nat (h div 100) @ ''.'' @ [digit_char (h mod 100 div 10), digit_char (h mod 10)])"

definition format_bytes :: "u64 \<Rightarrow> string" where
  "format_bytes bytes =
     (if bytes \<ge> 2 ^ 30 then show_two_digits (u64_as_f64 bytes) (2 ^ 30) @ '' GB''
      else if bytes \<ge> 2 ^ 20 then show_two_digits (u64_as_f64 bytes) (2 ^ 20) @ '' MB''
      else if bytes \<ge> 2 ^ 10 then show_two_digits (u64_as_f64 bytes) (2 ^ 10) @ '' KB''
      else show_nat (unat bytes) @ '' bytes'')"

definition format_duration :: "u64 \<Rightarrow> string" where
  "format_duration secs =
     (let s = unat secs
      in if s \<ge> 604800 \<and> s mod 604800 = 0 then show_nat (s div 604800) @ '' week(s)''
         else if s \<ge> 86400 \<and> s mod 86400 = 0 then show_nat (s div 86400) @ '' day(s)''
         else if s \<ge> 3600 \<and> s mod 3600 = 0 then show_nat (s div 3600) @ '' hour(s)''
         else if s \<ge> 60 \<and> s mod 60 = 0 then show_nat (s div 60) @ '' minute(s)''
         else show_nat s @ '' second(s)'')"

definition show_bool :: "bool \<Rightarrow> string" where
  "show_bool b = (if b then ''true'' else ''false'')"

definition quoted :: "string \<Rightarrow> string" where
  "quoted s = [CHR 0x27] @ s @ [CHR 0x27]"

subsection \<open>Lists of groups\<close>

text \<open>What \<open>import_groups\<close> makes of a line: \<open>None\<close> for an empty line or a comment, otherwise the name (which may be
  empty), whether the group is moderated, and the description.\<close>

definition is_moderated_text :: "string \<Rightarrow> bool" where
  "is_moderated_text description = ends_with (to_ascii_lowercase description) ''(moderated)''"

definition parse_group_line :: "string \<Rightarrow> (string \<times> bool \<times> string) option" where
  "parse_group_line raw =
     (let line = str_trim_end raw
      in if line = [] \<or> starts_with line ''#'' then None
         else let name = str_trim (takeWhile (\<lambda>c. c \<noteq> CHR 0x20 \<and> c \<noteq> TAB) line);
                  description = str_trim (dropWhile (\<lambda>c. c \<noteq> CHR 0x20 \<and> c \<noteq> TAB) line)
              in if is_moderated_text description
                 then Some (name, True, str_trim_end (take (length description - 11) description))
                 else Some (name, False, description))"

fun import_lines :: "ext \<Rightarrow> string result list \<Rightarrow> nat \<Rightarrow> nat \<Rightarrow> (console, nat \<times> nat) action" where
  "import_lines X [] imported skipped = ret (imported, skipped)"
| "import_lines X (Inl e # rest) imported skipped = throw (Anyhow ''Failed to read line'')"
| "import_lines X (Inr line # rest) imported skipped =
     (case parse_group_line line of
        None \<Rightarrow> import_lines X rest imported skipped
      | Some (name, moderated, description) \<Rightarrow>
          if name = [] then import_lines X rest imported (skipped + 1)
          else bind_res (on_storage (add_group_with_description X name moderated description)) (\<lambda>_.
                 import_lines X rest (imported + 1) skipped))"

definition import_groups ::
  "ext \<Rightarrow> (string \<Rightarrow> string result list option) \<Rightarrow> string \<Rightarrow> (console, unit) action" where
  "import_groups X files file =
     (case files file of
        None \<Rightarrow> throw (Anyhow ''Failed to open file'')
      | Some file_lines \<Rightarrow>
          bind_res (import_lines X file_lines 0 0) (\<lambda>(imported, skipped).
            println (''Imported '' @ show_nat imported @ '' groups, skipped '' @ show_nat skipped @ '' lines'')))"

definition export_line :: "string \<Rightarrow> string \<Rightarrow> bool \<Rightarrow> string" where
  "export_line name description moderated =
     (if description = []
      then if moderated then name @ [TAB] @ ''(Moderated)'' else name
      else if moderated \<and> \<not> is_moderated_text description
      then name @ [TAB] @ description @ '' (Moderated)''
      else name @ [TAB] @ description)"

definition export_groups :: "(console, unit) action" where
  "export_groups =
     bind_res (on_storage list_groups_with_descriptions) (\<lambda>rows.
     for_each (\<lambda>(name, description).
       bind_res (on_storage (is_group_moderated name)) (\<lambda>moderated.
       println (export_line name description moderated))) rows)"

subsection \<open>Commands\<close>

definition parse_bool :: "string \<Rightarrow> bool result" where
  "parse_bool val =
     (let v = to_ascii_lowercase val
      in if v \<in> {''true'', ''yes'', ''1''} then Inr True
         else if v \<in> {''false'', ''no'', ''0''} then Inr False
         else Inl (Anyhow ''Invalid boolean value''))"

definition new_limits ::
  "user_limits \<Rightarrow> string option \<Rightarrow> u32 option \<Rightarrow> string option \<Rightarrow> string option \<Rightarrow> user_limits result" where
  "new_limits existing allow_posting max_connections bandwidth_limit bandwidth_period =
     (case (case allow_posting of Some val \<Rightarrow> parse_bool val | None \<Rightarrow> Inr (limit_can_post existing)) of
        Inl e \<Rightarrow> Inl e
      | Inr posting \<Rightarrow> Inr
          \<lparr>limit_can_post = posting,
           limit_max_connections =
             (case max_connections of
                Some c \<Rightarrow> if c = 0 then None else Some c
              | None \<Rightarrow> limit_max_connections existing),
           limit_bandwidth =
             (case bandwidth_limit of
                Some val \<Rightarrow> if val = ''0'' \<or> val = [] then None else parse_size val
              | None \<Rightarrow> limit_bandwidth existing),
           limit_bandwidth_period_secs =
             (case bandwidth_period of
                Some val \<Rightarrow> parse_duration_secs val
              | None \<Rightarrow> limit_bandwidth_period_secs existing)\<rparr>)"

definition print_limits :: "string \<Rightarrow> user_limits \<Rightarrow> (console, unit) action" where
  "print_limits name limits = for_each println
     [''Limits set for user '' @ quoted name @ '':'',
      ''  can_post: '' @ show_bool (limit_can_post limits),
      ''  max_connections: '' @
        (case limit_max_connections limits of None \<Rightarrow> ''unlimited'' | Some c \<Rightarrow> show_nat (unat c)),
      ''  bandwidth_limit: '' @
        (case limit_bandwidth limits of None \<Rightarrow> ''unlimited'' | Some b \<Rightarrow> format_bytes b),
      ''  bandwidth_period: '' @
        (case limit_bandwidth_period_secs limits of None \<Rightarrow> ''absolute'' | Some p \<Rightarrow> format_duration p)]"

definition set_limits ::
  "string \<Rightarrow> string option \<Rightarrow> u32 option \<Rightarrow> string option \<Rightarrow> string option \<Rightarrow> (console, unit) action" where
  "set_limits name allow_posting max_connections bandwidth_limit bandwidth_period =
     bind_res (on_auth (get_user_limits name)) (\<lambda>stored.
     let existing = (case stored of None \<Rightarrow> default_user_limits | Some l \<Rightarrow> l)
     in case new_limits existing allow_posting max_connections bandwidth_limit bandwidth_period of
          Inl e \<Rightarrow> throw e
        | Inr limits \<Rightarrow>
            bind_res (on_auth (set_user_limits name limits)) (\<lambda>_. print_limits name limits))"

definition show_usage :: "ext \<Rightarrow> string \<Rightarrow> (console, unit) action" where
  "show_usage X name =
     bind_res (on_auth (get_user_usage X name)) (\<lambda>usage. for_each println
       [''Usage for user '' @ quoted name @ '':'',
        ''  uploaded: '' @ format_bytes (usage_bytes_uploaded usage),
        ''  downloaded: '' @ format_bytes (usage_bytes_downloaded usage),
        ''  total: '' @ format_bytes (total_bandwidth usage),
        ''  window_start: '' @
          (case usage_window_start usage of
             Some ws \<Rightarrow> chrono_format X ''%Y-%m-%d %H:%M:%S%.f UTC'' ws
           | None \<Rightarrow> ''(not set)'')])"

fun run_admin ::
  "ext \<Rightarrow> (string \<Rightarrow> string result list option) \<Rightarrow> admin_command \<Rightarrow> (console, unit) action" where
  "run_admin X files (AddGroup name names) =
     bind_res (on_storage (add_group X name False)) (\<lambda>_.
     for_each (\<lambda>g. on_storage (add_group X g False)) names)"
| "run_admin X files (RemoveGroup pattern) = on_storage (remove_groups_by_pattern X pattern)"
| "run_admin X files (AddUser name pass pgp_key) = on_auth (add_user_with_key X name pass pgp_key)"
| "run_admin X files (UpdatePassword name new_pass) = on_auth (update_password X name new_pass)"
| "run_admin X files (RemoveUser name) = on_auth (remove_user name)"
| "run_admin X files (UpdateKey name pgp_key) = on_auth (update_pgp_key name pgp_key)"
| "run_admin X files (SetModerated name moderated) =
     (case parse_bool moderated of
        Inl e \<Rightarrow> throw e
      | Inr is_moderated \<Rightarrow> on_storage (set_group_moderated name is_moderated))"
| "run_admin X files (AddAdmin name) = on_auth (add_admin_without_key name)"
| "run_admin X files (RemoveAdmin name) = on_auth (remove_admin name)"
| "run_admin X files (AddModerator name grp) = on_auth (add_moderator name grp)"
| "run_admin X files (RemoveModerator name grp) = on_auth (remove_moderator name grp)"
| "run_admin X files (SetLimits name allow_posting max_connections bandwidth_limit bandwidth_period) =
     set_limits name allow_posting max_connections bandwidth_limit bandwidth_period"
| "run_admin X files (ClearLimits name) =
     bind_res (on_auth (clear_user_limits name)) (\<lambda>_.
     println (''Limits cleared for user '' @ quoted name @ '' (will use defaults)''))"
| "run_admin X files (ShowUsage name) = show_usage X name"
| "run_admin X files (ResetUsage name) =
     bind_res (on_auth (reset_user_usage X name)) (\<lambda>_.
     println (''Usage counters reset for user '' @ quoted name))"
| "run_admin X files (ImportGroups file) = import_groups X files file"
| "run_admin X files ExportGroups = export_groups"

text \<open>\<^verbatim>\<open>run_init\<close>, once the databases are open.\<close>

definition run_init :: "config \<Rightarrow> (peer_db, unit) action" where
  "run_init cfg = sync_config (map rule_sitename (cfg_peers cfg))"

end
