(* ===== verification/Admin_Properties.thy ===== *)
theory Admin_Properties
  imports Admin Peer_Properties
begin

text \<open>
  The administration commands: they keep the invariants of both databases, and an exported list of groups is
  imported as the same list.
\<close>

subsection \<open>Lines of a list of groups\<close>

definition printable_group :: "string \<Rightarrow> string \<Rightarrow> bool" where
  "printable_group name description \<longleftrightarrow>
     name \<noteq> [] \<and> list_all (\<lambda>c. \<not> is_whitespace c) name \<and> \<not> starts_with name ''#'' \<and>
     LF \<notin> set description \<and> str_trim description = description \<and> \<not> is_moderated_text description"

lemma whitespace_facts [simp]: "is_whitespace TAB" "is_whitespace LF" "is_whitespace CR"
  "is_whitespace (CHR 0x20)" "\<not> is_whitespace (CHR '')'')"
  by (simp_all add: is_whitespace_def char_code_def)

lemma str_trim_end_id: "s \<noteq> [] \<Longrightarrow> \<not> is_whitespace (last s) \<Longrightarrow> str_trim_end s = s"
  by (simp add: str_trim_end_def trim_end_matches_id)

lemma trimmed_ends:
  assumes "str_trim s = s" and "s \<noteq> []"
  shows "\<not> is_whitespace (hd s) \<and> \<not> is_whitespace (last s)"
proof -
  let ?t = "trim_start_matches is_whitespace s"
  have s: "trim_end_matches is_whitespace ?t = s" using assms(1) by (simp add: str_trim_def trim_matches_def)
  then have l: "\<not> is_whitespace (last s)" using trim_end_matches_last [of is_whitespace ?t] assms(2) by simp
  have "length ?t \<le> length s" by (simp add: trim_start_matches_def length_dropWhile_le)
  moreover have "length s \<le> length ?t"
    using s by (metis length_dropWhile_le length_rev trim_end_matches_def)
  ultimately have "?t = s"
    by (metis dropWhile_eq_drop drop_0 length_drop diff_is_0_eq' le_antisym trim_start_matches_def
        append_eq_conv_conj takeWhile_dropWhile_id length_append add_cancel_left_left length_0_conv self_append_conv2)
  then show ?thesis using l hd_dropWhile [of is_whitespace s] assms(2) by (simp add: trim_start_matches_def)
qed

lemma str_trim_ends: "s \<noteq> [] \<Longrightarrow> \<not> is_whitespace (hd s) \<Longrightarrow> \<not> is_whitespace (last s) \<Longrightarrow> str_trim s = s"
  by (simp add: str_trim_def trim_matches_id)

lemma str_trim_TAB: "str_trim (TAB # s) = str_trim s"
  by (simp add: str_trim_def trim_matches_def trim_start_matches_def)

lemma lower_moderated: "map char_to_lower ''(Moderated)'' = ''(moderated)''"
  by code_simp

lemma moderated_suffix: "is_moderated_text (d @ ''(Moderated)'')"
  using lower_moderated by (simp add: is_moderated_text_def ends_with_def to_ascii_lowercase_def)

lemma str_trim_end_space:
  "d \<noteq> [] \<Longrightarrow> \<not> is_whitespace (last d) \<Longrightarrow> str_trim_end (d @ '' '') = d"
  by (simp add: str_trim_end_def trim_end_matches_def trim_end_matches_id [unfolded trim_end_matches_def])

lemma split_name:
  assumes "list_all (\<lambda>c. \<not> is_whitespace c) name"
  shows "takeWhile (\<lambda>c. c \<noteq> CHR 0x20 \<and> c \<noteq> TAB) (name @ TAB # rest) = name \<and>
     dropWhile (\<lambda>c. c \<noteq> CHR 0x20 \<and> c \<noteq> TAB) (name @ TAB # rest) = TAB # rest \<and>
     takeWhile (\<lambda>c. c \<noteq> CHR 0x20 \<and> c \<noteq> TAB) name = name \<and>
     dropWhile (\<lambda>c. c \<noteq> CHR 0x20 \<and> c \<noteq> TAB) name = []"
proof -
  have "\<And>c. c \<in> set name \<Longrightarrow> c \<noteq> CHR 0x20 \<and> c \<noteq> TAB" using assms by (auto simp: list_all_iff)
  then show ?thesis by (simp add: takeWhile_append2 dropWhile_append2 dropWhile_eq_Nil_conv takeWhile_eq_all_conv)
qed

lemma name_ends:
  "printable_group n d \<Longrightarrow> n \<noteq> [] \<and> \<not> is_whitespace (hd n) \<and> \<not> is_whitespace (last n) \<and> str_trim n = n \<and>
     list_all (\<lambda>c. \<not> is_whitespace c) n"
  by (auto simp: printable_group_def list_all_iff intro!: str_trim_ends)

lemma parse_named_line:
  assumes n: "printable_group n d" and rest: "rest \<noteq> []" "\<not> is_whitespace (last rest)" "str_trim rest = rest"
  shows "parse_group_line (n @ [TAB] @ rest) =
     (if is_moderated_text rest then Some (n, True, str_trim_end (take (length rest - 11) rest))
      else Some (n, False, rest))"
proof -
  have "str_trim_end (n @ [TAB] @ rest) = n @ [TAB] @ rest" using rest by (intro str_trim_end_id) auto
  moreover have "\<not> starts_with (n @ [TAB] @ rest) ''#''"
    using n by (cases n) (auto simp: printable_group_def starts_with_def)
  ultimately show ?thesis
    using name_ends [OF n] split_name [of n rest] rest
    by (simp add: parse_group_line_def Let_def str_trim_TAB)
qed

lemma parse_export_line:
  assumes "printable_group n d"
  shows "parse_group_line (export_line n d m) = Some (n, m, d)"
proof (cases "d = []")
  case True
  have p: "\<not> is_whitespace (hd ''(Moderated)'')" "\<not> is_whitespace (last ''(Moderated)'')" by code_simp+
  have e: "str_trim [] = []" "\<not> is_moderated_text []" by code_simp+
  have n: "str_trim_end n = n" "n \<noteq> []" "\<not> starts_with n ''#''" "str_trim n = n"
    using assms name_ends [OF assms] by (auto simp: printable_group_def str_trim_end_id)
  have plain: "parse_group_line n = Some (n, False, [])"
    using split_name [of n "[]"] name_ends [OF assms]
    by (simp only: parse_group_line_def Let_def n e) simp
  have "parse_group_line (n @ [TAB] @ ''(Moderated)'') = Some (n, True, [])"
    using parse_named_line [OF assms, of "''(Moderated)''"] moderated_suffix [of "[]"] p
    by (simp add: str_trim_ends str_trim_end_def trim_end_matches_def)
  with plain True show ?thesis by (simp add: export_line_def)
next
  case False
  have d: "\<not> is_whitespace (hd d)" "\<not> is_whitespace (last d)" "str_trim d = d" "\<not> is_moderated_text d"
    using assms False trimmed_ends [of d] by (auto simp: printable_group_def)
  have "str_trim (d @ '' (Moderated)'') = d @ '' (Moderated)''" using d False by (intro str_trim_ends) auto
  with parse_named_line [OF assms, of "d @ '' (Moderated)''"] moderated_suffix [of "d @ '' ''"] d False
  have "parse_group_line (n @ [TAB] @ d @ '' (Moderated)'') = Some (n, True, d)"
    by (simp add: str_trim_end_space)
  with parse_named_line [OF assms False d(2,3)] d(4) False show ?thesis by (simp add: export_line_def)
qed

lemma str_lines_printed:
  "\<forall>l \<in> set ls. LF \<notin> set l \<and> l \<noteq> [] \<and> last l \<noteq> CR \<Longrightarrow> str_lines (concat (map (\<lambda>l. l @ [LF]) ls)) = ls"
proof (induction ls)
  case (Cons l ls)
  then have "strip_eol (l @ [LF]) = l" by (auto simp: strip_eol_def ends_with_singleton)
  with Cons show ?case
    using str_lines_step [of "l @ LF # concat (map (\<lambda>l. l @ [LF]) ls)"] by (simp add: take_line_LF)
qed simp

lemma export_line_printable:
  assumes "printable_group n d"
  shows "LF \<notin> set (export_line n d m) \<and> export_line n d m \<noteq> [] \<and> last (export_line n d m) \<noteq> CR"
proof -
  have "LF \<notin> set n" using name_ends [OF assms] by (auto simp: list_all_iff)
  moreover have "last n \<noteq> CR" "n \<noteq> []" using name_ends [OF assms] by auto
  moreover have "d \<noteq> [] \<Longrightarrow> last d \<noteq> CR" using assms trimmed_ends [of d] by (auto simp: printable_group_def)
  ultimately show ?thesis using assms by (auto simp: export_line_def printable_group_def)
qed

subsection \<open>What import and export do\<close>

definition group_info :: "db \<Rightarrow> string \<Rightarrow> (bool \<times> string) option" where
  "group_info d name =
     map_option (\<lambda>g. (g_moderated g, g_description g)) (List.find (\<lambda>g. g_name g = name) (groups d))"

lemma add_group_info:
  assumes "faults d = []"
  shows "\<exists>d'. add_group_with_description X n m t d = (Inr (), d') \<and> faults d' = [] \<and>
     group_info d' = (group_info d)(n \<mapsto> (m, t))"
proof -
  let ?r = "\<lparr>g_name = n, g_created_at = timestamp (utc_now X), g_moderated = m, g_description = t\<rparr>"
  let ?up = "\<lambda>g. if g_name g = n then g\<lparr>g_moderated := m, g_description := t\<rparr> else g"
  have upd: "map_option (\<lambda>g. (g_moderated g, g_description g)) (List.find (\<lambda>g. g_name g = k) (map ?up gs)) =
      (if k = n \<and> list_ex (\<lambda>g. g_name g = n) gs then Some (m, t)
       else map_option (\<lambda>g. (g_moderated g, g_description g)) (List.find (\<lambda>g. g_name g = k) gs))" for k gs
    by (induction gs) auto
  have none: "List.find (\<lambda>g. g_name g = n) (groups d) = None" if "\<not> list_ex (\<lambda>g. g_name g = n) (groups d)"
    using that by (auto simp: find_None_iff list_ex_iff)
  have run: "add_group_with_description X n m t d = (Inr (), d\<lparr>groups :=
      (if list_ex (\<lambda>g. g_name g = n) (groups d) then map ?up (groups d) else groups d @ [?r])\<rparr>)"
    using assms by (simp add: add_group_with_description_def sql_upsert_group_def exec_ok cong: if_cong)
  show ?thesis
    using assms none upd [of _ "groups d"] unfolding run
    by (auto simp: group_info_def fun_eq_iff find_append split: option.splits)
qed

lemma import_rows:
  assumes "\<forall>g \<in> set gs. printable_group (g_name g) (g_description g)" and "faults (storage w) = []"
  shows "\<exists>w'. import_lines X (map (\<lambda>g. Inr (export_line (g_name g) (g_description g) (g_moderated g))) gs) i k w =
       (Inr (i + length gs, k), w') \<and> faults (storage w') = [] \<and>
     group_info (storage w') = group_info (storage w) ++
       map_of (rev (map (\<lambda>g. (g_name g, g_moderated g, g_description g)) gs))"
  using assms
proof (induction gs arbitrary: w i)
  case Nil
  then show ?case by (simp add: ret_def)
next
  case (Cons g gs)
  from add_group_info [OF Cons.prems(2), of X "g_name g" "g_moderated g" "g_description g"] obtain d where
    add: "add_group_with_description X (g_name g) (g_moderated g) (g_description g) (storage w) = (Inr (), d)"
    "faults d = []" "group_info d = (group_info (storage w))(g_name g \<mapsto> (g_moderated g, g_description g))" by blast
  have "g_name g \<noteq> []" using Cons.prems(1) by (auto simp: printable_group_def)
  moreover from Cons.IH [of "w\<lparr>storage := d\<rparr>" "i + 1"] Cons.prems(1) add(2) obtain w' where
    "import_lines X (map (\<lambda>g. Inr (export_line (g_name g) (g_description g) (g_moderated g))) gs) (i + 1) k
       (w\<lparr>storage := d\<rparr>) = (Inr (i + 1 + length gs, k), w')" "faults (storage w') = []"
    "group_info (storage w') = group_info d ++ map_of (rev (map (\<lambda>g. (g_name g, g_moderated g, g_description g)) gs))"
    by auto
  moreover have "group_info d ++ map_of (rev (map (\<lambda>g. (g_name g, g_moderated g, g_description g)) gs)) =
      group_info (storage w) ++ map_of (rev (map (\<lambda>g. (g_name g, g_moderated g, g_description g)) (g # gs)))"
    by (simp add: add(3) fun_eq_iff map_add_def split: option.splits)
  ultimately show ?case
    using Cons.prems(1) add(1)
    by (intro exI [of _ w']) (simp add: parse_export_line bind_res_def on_storage_def)
qed

lemma export_rows:
  assumes "faults (storage w) = []" and "\<forall>g \<in> set gs. g \<in> set (groups (storage w))"
    and "distinct (map g_name (groups (storage w)))"
  shows "for_each (\<lambda>(name, description).
       bind_res (on_storage (is_group_moderated name)) (\<lambda>moderated.
       println (export_line name description moderated))) (map (\<lambda>g. (g_name g, g_description g)) gs) w =
     (Inr (), w\<lparr>console_output := console_output w @
        map (\<lambda>g. export_line (g_name g) (g_description g) (g_moderated g)) gs\<rparr>)"
  using assms
proof (induction gs arbitrary: w)
  case (Cons g gs)
  have "is_group_moderated (g_name g) (storage w) = (Inr (g_moderated g), storage w)"
    using Cons.prems find_unique [of g_name "groups (storage w)" g]
    by (simp add: is_group_moderated_def select_ok)
  then show ?case
    using Cons.IH [of "w\<lparr>console_output := console_output w @
        [export_line (g_name g) (g_description g) (g_moderated g)]\<rparr>"] Cons.prems
    by (simp add: bind_res_def on_storage_def println_def)
qed simp

lemma export_groups_ok:
  assumes "faults (storage w) = []" and "distinct (map g_name (groups (storage w)))"
  shows "export_groups w = (Inr (), w\<lparr>console_output := console_output w @
     map (\<lambda>g. export_line (g_name g) (g_description g) (g_moderated g)) (sort_key g_name (groups (storage w)))\<rparr>)"
proof -
  have "list_groups_with_descriptions (storage w) =
      (Inr (map (\<lambda>g. (g_name g, g_description g)) (sort_key g_name (groups (storage w)))), storage w)"
    using assms(1) by (simp add: list_groups_with_descriptions_def select_ok)
  with export_rows [OF assms(1) _ assms(2)] show ?thesis
    by (simp add: export_groups_def bind_res_def on_storage_def)
qed

lemma map_of_group_rows:
  assumes "distinct (map g_name gs)"
  shows "map_of (rev (map (\<lambda>g. (g_name g, g_moderated g, g_description g)) (sort_key g_name gs))) n =
     map_option (\<lambda>g. (g_moderated g, g_description g)) (List.find (\<lambda>g. g_name g = n) gs)"
proof -
  let ?kv = "\<lambda>g. (g_name g, g_moderated g, g_description g)"
  have d: "distinct (map fst (map ?kv gs))" using assms by (simp add: comp_def)
  have "distinct (map fst (rev (map ?kv (sort_key g_name gs))))"
    using assms by (simp add: rev_map [symmetric] comp_def distinct_map)
  with d have "map_of (rev (map ?kv (sort_key g_name gs))) = map_of (map ?kv gs)"
    by (intro map_of_inject_set [THEN iffD2]) simp_all
  moreover have "map_of (map ?kv gs) n =
      map_option (\<lambda>g. (g_moderated g, g_description g)) (List.find (\<lambda>g. g_name g = n) gs)"
    by (induction gs) auto
  ultimately show ?thesis by simp
qed

subsection \<open>The invariants of both databases\<close>

definition databases_ok :: "ext \<Rightarrow> console \<Rightarrow> bool" where
  "databases_ok X w \<longleftrightarrow> storage_ok X (storage w) \<and> adb_ok (auth w)"

named_theorems console_keeps "the steps of the commands keep the invariants of both databases"

lemma console_storage [console_keeps]: "keeps (storage_ok X) m \<Longrightarrow> keeps (databases_ok X) (on_storage m)"
  by (auto simp: keeps_def databases_ok_def on_storage_def split: prod.splits)

lemma console_auth [console_keeps]: "keeps adb_ok m \<Longrightarrow> keeps (databases_ok X) (on_auth m)"
  by (auto simp: keeps_def databases_ok_def on_auth_def split: prod.splits)

lemma console_println [console_keeps]: "keeps (databases_ok X) (println l)"
  by (simp add: keeps_def databases_ok_def println_def)

lemma console_let [console_keeps]: "keeps P (f v) \<Longrightarrow> keeps P (let x = v in f x)"
  by simp

lemma auth_reads: "keeps adb_ok (get_user_limits u)" "keeps adb_ok (get_user_usage X u)"
  unfolding get_user_limits_def get_user_usage_def parse_window_start_def
  by (intro keeps_intros keeps_select; simp add: adb_ok_def)+

lemma group_reads: "keeps (storage_ok X) (is_group_moderated g)" "keeps (storage_ok X) list_groups_with_descriptions"
  unfolding is_group_moderated_def list_groups_with_descriptions_def by (rule keeps_select; simp)+

lemmas command_keeps = keeps_intros console_keeps storage_keeps auth_ok auth_reads group_reads

lemma import_lines_keeps: "keeps (databases_ok X) (import_lines X ls i k)"
proof (induction X ls i k rule: import_lines.induct)
  case (3 X line rest i k)
  then show ?case by (cases "parse_group_line line") (auto intro!: command_keeps)
qed (simp_all add: keeps_def)

lemma run_admin_keeps: "keeps (databases_ok X) (run_admin X files cmd)"
  by (cases cmd) (auto simp: set_limits_def show_usage_def import_groups_def export_groups_def print_limits_def
      intro!: command_keeps import_lines_keeps)

subsection \<open>Properties\<close>

text \<open>C29: an exported list of groups is imported as what it was. The text that the export command prints for a
  server, read by the import command of any server, leaves each exported group with the description and the
  moderation it had, and every other group of the importing server as it was. Names must be free of white
  space and not begin with a number sign; descriptions must be trimmed, on one line, and not themselves end in
  the mark of moderated groups.\<close>

theorem export_import_roundtrip:
  assumes source: "faults (storage w) = []" "distinct (map g_name (groups (storage w)))"
      "\<forall>g \<in> set (groups (storage w)). printable_group (g_name g) (g_description g)"
    and target: "faults (storage v) = []"
    and listing: "run_admin X files ExportGroups w = (Inr (), w')"
      "console_output w' = console_output w @ printed"
      "files' f = Some (map Inr (str_lines (concat (map (\<lambda>l. l @ [LF]) printed))))"
  shows "\<exists>v'. run_admin X files' (ImportGroups f) v = (Inr (), v') \<and>
     group_info (storage v') = group_info (storage v) ++ group_info (storage w)"
proof -
  let ?gs = "sort_key g_name (groups (storage w))"
  let ?line = "\<lambda>g. export_line (g_name g) (g_description g) (g_moderated g)"
  have printed: "printed = map ?line ?gs" using listing(1,2) export_groups_ok [OF source(1,2)] by auto
  have "str_lines (concat (map (\<lambda>l. l @ [LF]) printed)) = printed"
    unfolding printed using source(3) export_line_printable by (intro str_lines_printed) auto
  then have lines: "files' f = Some (map (\<lambda>g. Inr (?line g)) ?gs)" using listing(3) printed by simp
  from import_rows [of ?gs v X 0 0] source(3) target obtain v1 where
    run: "import_lines X (map (\<lambda>g. Inr (?line g)) ?gs) 0 0 v = (Inr (length ?gs, 0), v1)" and
    info: "group_info (storage v1) = group_info (storage v) ++
      map_of (rev (map (\<lambda>g. (g_name g, g_moderated g, g_description g)) ?gs))" by auto
  have "map_of (rev (map (\<lambda>g. (g_name g, g_moderated g, g_description g)) ?gs)) = group_info (storage w)"
    using map_of_group_rows [OF source(2)] by (simp add: group_info_def fun_eq_iff)
  with info run lines show ?thesis by (simp add: import_groups_def bind_res_def println_def)
qed

definition sample_console :: console where
  "sample_console = server.extend sample_server \<lparr>console_output = []\<rparr>"

theorem export_import_roundtrip_witness:
  "\<exists>v'. run_admin sample_ext (\<lambda>_. Some [Inr (''misc.test'' @ [TAB] @ ''tests'')]) (ImportGroups ''f'')
       (sample_console\<lparr>storage := sample_db\<lparr>groups := []\<rparr>\<rparr>) = (Inr (), v') \<and>
     group_info (storage v') ''misc.test'' = Some (False, ''tests'')"
proof -
  let ?v = "sample_console\<lparr>storage := sample_db\<lparr>groups := []\<rparr>\<rparr>"
  let ?line = "''misc.test'' @ [TAB] @ ''tests''"
  have "storage sample_console = sample_db" "console_output sample_console = []" "faults sample_db = []"
    "distinct (map g_name (groups sample_db))"
    by (simp_all add: sample_console_def server.defs sample_server_def sample_db_def)
  moreover have "list_all (\<lambda>g. printable_group (g_name g) (g_description g)) (groups sample_db)"
    "fst (run_admin sample_ext (\<lambda>_. None) ExportGroups sample_console) = Inr ()"
    "console_output (snd (run_admin sample_ext (\<lambda>_. None) ExportGroups sample_console)) = [?line]"
    "str_lines (concat (map (\<lambda>l. l @ [LF]) [?line])) = [?line]"
    "group_info sample_db ''misc.test'' = Some (False, ''tests'')" by code_simp+
  ultimately show ?thesis
    using export_import_roundtrip [of sample_console ?v sample_ext "\<lambda>_. None"
        "snd (run_admin sample_ext (\<lambda>_. None) ExportGroups sample_console)" "[?line]" "\<lambda>_. Some [Inr ?line]" "''f''"]
    by (auto simp: list_all_iff prod_eq_iff map_add_def)
qed

text \<open>Every administration command, whatever it is given and whichever of its statements fails, keeps the
  invariants of the article storage and of the authentication database.\<close>

theorem admin_commands_keep_invariants:
  assumes "storage_ok X (storage w)" and "adb_ok (auth w)" and "run_admin X files cmd w = (r, w')"
  shows "storage_ok X (storage w') \<and> adb_ok (auth w')"
  using keepsD' [OF run_admin_keeps assms(3)] assms(1,2) by (simp add: databases_ok_def)

theorem admin_commands_keep_invariants_witness:
  "adb_ok (auth (snd (run_admin sample_ext (\<lambda>_. None) (AddUser ''ann'' ''pw'' None) sample_console)))"
proof -
  have "storage_ok sample_ext (storage sample_console)" "adb_ok (auth sample_console)"
    using storage_ok_sample
    by (simp_all add: sample_console_def server.defs sample_server_def sample_adb_def adb_ok_def user_names_def)
  then show ?thesis
    using admin_commands_keep_invariants [of sample_ext sample_console "\<lambda>_. None" "AddUser ''ann'' ''pw'' None"]
    by (metis prod.collapse)
qed

end
