(* ===== verification/Addresses.thy ===== *)
theory Addresses
  imports Text
begin

text \<open>
  Listen addresses, \<^verbatim>\<open>listen_addr\<close> of \<^verbatim>\<open>src/src/server.rs\<close> and of \<^verbatim>\<open>src/src/ws.rs\<close>. They ask the standard library whether a text is a
  socket address, so that its parser is modelled here: each reader returns the text it leaves, or fails. A
  number may be limited in digits and is limited by the type it is read into.
\<close>

subsection \<open>Socket addresses\<close>

definition to_digit :: "nat \<Rightarrow> char \<Rightarrow> nat option" where
  "to_digit radix c =
     (if is_ascii_digit c then Some (char_code c - 48)
      else if radix = 16 \<and> c \<in> set ''abcdef'' then Some (char_code c - 87)
      else if radix = 16 \<and> c \<in> set ''ABCDEF'' then Some (char_code c - 55)
      else None)"

definition read_number :: "nat \<Rightarrow> nat option \<Rightarrow> bool \<Rightarrow> int \<Rightarrow> string \<Rightarrow> string option" where
  "read_number radix max_digits allow_zero_prefix type_max s =
     (let digits = takeWhile (\<lambda>c. to_digit radix c \<noteq> None) s;
          number = foldl (\<lambda>n c. n * int radix + int (the (to_digit radix c))) 0 digits
      in if digits = [] then None
         else if (case max_digits of None \<Rightarrow> False | Some m \<Rightarrow> m < length digits) then None
         else if \<not> allow_zero_prefix \<and> hd digits = CHR ''0'' \<and> 1 < length digits then None
         else if type_max < number then None
         else Some (drop (length digits) s))"

definition read_given_char :: "char \<Rightarrow> string \<Rightarrow> string option" where
  "read_given_char c s = (case s of [] \<Rightarrow> None | x # r \<Rightarrow> if x = c then Some r else None)"

definition read_separator :: "char \<Rightarrow> nat \<Rightarrow> (string \<Rightarrow> string option) \<Rightarrow> string \<Rightarrow> string option" where
  "read_separator sep index inner s =
     (if 0 < index then Option.bind (read_given_char sep s) inner else inner s)"

fun read_octets :: "nat \<Rightarrow> nat \<Rightarrow> string \<Rightarrow> string option" where
  "read_octets 0 i s = Some s"
| "read_octets (Suc k) i s =
     Option.bind (read_separator CHR ''.'' i (read_number 10 (Some 3) False 255) s) (read_octets k (Suc i))"

definition read_ipv4_addr :: "string \<Rightarrow> string option" where
  "read_ipv4_addr s = read_octets 4 0 s"

text \<open>\<open>read_groups k i s\<close> has \<open>i\<close> groups and may read \<open>k\<close> more; the flag says that the last two were an IPv4 address.\<close>

fun read_groups :: "nat \<Rightarrow> nat \<Rightarrow> string \<Rightarrow> nat \<times> bool \<times> string" where
  "read_groups 0 i s = (i, False, s)"
| "read_groups (Suc k) i s =
     (case (if 0 < k then read_separator CHR '':'' i read_ipv4_addr s else None) of
        Some r \<Rightarrow> (i + 2, True, r)
      | None \<Rightarrow>
          (case read_separator CHR '':'' i (read_number 16 (Some 4) True 65535) s of
             Some r \<Rightarrow> read_groups k (Suc i) r
           | None \<Rightarrow> (i, False, s)))"

definition read_ipv6_addr :: "string \<Rightarrow> string option" where
  "read_ipv6_addr s =
     (case read_groups 8 0 s of
        (head_size, head_ipv4, r) \<Rightarrow>
          if head_size = 8 then Some r
          else if head_ipv4 then None
          else Option.bind (read_given_char CHR '':'' r) (\<lambda>r.
               Option.bind (read_given_char CHR '':'' r) (\<lambda>r.
                 case read_groups (8 - (head_size + 1)) 0 r of (_, _, r') \<Rightarrow> Some r')))"

definition read_port :: "string \<Rightarrow> string option" where
  "read_port s = Option.bind (read_given_char CHR '':'' s) (read_number 10 None True 65535)"

definition read_scope_id :: "string \<Rightarrow> string option" where
  "read_scope_id s = Option.bind (read_given_char CHR ''%'' s) (read_number 10 None True (2 ^ 32 - 1))"

definition read_socket_addr_v4 :: "string \<Rightarrow> string option" where
  "read_socket_addr_v4 s = Option.bind (read_ipv4_addr s) read_port"

definition read_socket_addr_v6 :: "string \<Rightarrow> string option" where
  "read_socket_addr_v6 s =
     Option.bind (read_given_char CHR ''['' s) (\<lambda>r.
     Option.bind (read_ipv6_addr r) (\<lambda>r.
     Option.bind (read_given_char CHR '']'' (case read_scope_id r of Some r' \<Rightarrow> r' | None \<Rightarrow> r)) read_port))"

definition is_socket_addr :: "string \<Rightarrow> bool" where
  "is_socket_addr s \<longleftrightarrow>
     (case read_socket_addr_v4 s of
        Some r \<Rightarrow> r = []
      | None \<Rightarrow> read_socket_addr_v6 s = Some [])"

subsection \<open>Listen addresses\<close>

definition listen_addr :: "string \<Rightarrow> string" where
  "listen_addr raw =
     (if is_socket_addr raw then raw
      else case strip_prefix raw '':'' of
             Some port \<Rightarrow> ''0.0.0.0:'' @ port
           | None \<Rightarrow> ''0.0.0.0:'' @ raw)"

definition ws_listen_addr :: "string \<Rightarrow> string" where
  "ws_listen_addr raw =
     (if is_socket_addr raw then raw
      else case strip_prefix raw '':'' of
             Some port \<Rightarrow> ''0.0.0.0:'' @ port
           | None \<Rightarrow> ''0.0.0.0:'' @ raw)"

text \<open>A port number: decimal digits, at most 65535.\<close>

definition is_port :: "string \<Rightarrow> bool" where
  "is_port t \<longleftrightarrow> t \<noteq> [] \<and> list_all is_ascii_digit t \<and> digits_val t \<le> 65535"

lemma to_digit_10: "to_digit 10 c = (if is_ascii_digit c then Some (digit_val c) else None)"
  by (simp add: to_digit_def digit_val_def)

lemma read_any_address: "read_ipv4_addr (''0.0.0.0:'' @ t) = Some ('':'' @ t)"
proof -
  have "is_ascii_digit CHR ''0''" "\<not> is_ascii_digit CHR ''.''" "\<not> is_ascii_digit CHR '':''" "digit_val CHR ''0'' = 0"
    by code_simp+
  then have zero: "read_number 10 (Some 3) False 255 (CHR ''0'' # c # s) = Some (c # s)"
    if "c = CHR ''.'' \<or> c = CHR '':''" for c s
    using that by (auto simp: read_number_def to_digit_10)
  have "read_octets (Suc (Suc (Suc (Suc 0)))) 0 (''0.0.0.0:'' @ t) = Some ('':'' @ t)"
    by (simp add: read_separator_def read_given_char_def zero)
  moreover have "Suc (Suc (Suc (Suc 0))) = 4" by simp
  ultimately show ?thesis unfolding read_ipv4_addr_def by metis
qed

lemma read_number_all: "read_number 10 None True 65535 t = Some [] \<longleftrightarrow> is_port t"
proof -
  let ?P = "\<lambda>c. to_digit 10 c \<noteq> None"
  have P: "?P = is_ascii_digit" by (simp add: fun_eq_iff to_digit_10)
  have val: "foldl (\<lambda>n c. n * int 10 + int (the (to_digit 10 c))) (int n) ds =
      int (foldl (\<lambda>n c. 10 * n + digit_val c) n ds)" if "list_all is_ascii_digit ds" for n ds
    using that
  proof (induction ds arbitrary: n)
    case (Cons c ds)
    from Cons.IH [of "10 * n + digit_val c"] Cons.prems show ?case by (simp add: to_digit_10 mult.commute)
  qed simp
  have all: "takeWhile is_ascii_digit t = t \<longleftrightarrow> list_all is_ascii_digit t"
    by (simp add: list_all_iff takeWhile_eq_all_conv)
  have "drop (length (takeWhile is_ascii_digit t)) t = [] \<longleftrightarrow> takeWhile is_ascii_digit t = t"
    unfolding dropWhile_eq_drop [symmetric] by (simp add: dropWhile_eq_Nil_conv takeWhile_eq_all_conv)
  note rest = this
  show ?thesis
  proof (cases "list_all is_ascii_digit t")
    case True
    then have t: "takeWhile ?P t = t" unfolding P using all by simp
    show ?thesis unfolding read_number_def Let_def t using True val [OF True, of 0] by (auto simp: is_port_def digits_val_def)
  next
    case False
    then show ?thesis unfolding read_number_def Let_def P using all rest by (auto simp: is_port_def)
  qed
qed

lemma any_address_port: "is_socket_addr (''0.0.0.0:'' @ t) \<longleftrightarrow> is_port t"
proof -
  have v4: "read_socket_addr_v4 (''0.0.0.0:'' @ t) = read_number 10 None True 65535 t"
    unfolding read_socket_addr_v4_def read_any_address by (simp add: read_port_def read_given_char_def)
  have v6: "read_socket_addr_v6 (''0.0.0.0:'' @ t) = None"
    by (simp add: read_socket_addr_v6_def read_given_char_def)
  show ?thesis
    unfolding is_socket_addr_def v4 v6 using read_number_all [of t] by (auto split: option.splits)
qed

text \<open>C26: what can be listened on. The address made from a configured text is a socket address exactly when the
  text is one already, or is a port number, with or without a colon before it: a host name and a port are not
  (the address made from them is not an address at all), although the message for a failed bind says so.\<close>

theorem listen_addr_accepts:
  "is_socket_addr (listen_addr raw) \<longleftrightarrow>
     is_socket_addr raw \<or> is_port (case strip_prefix raw '':'' of Some port \<Rightarrow> port | None \<Rightarrow> raw)"
proof (cases "is_socket_addr raw")
  case False
  then show ?thesis
    unfolding listen_addr_def using any_address_port by (cases "strip_prefix raw '':''") auto
qed (simp add: listen_addr_def)

lemma host_name_refused: "\<not> is_socket_addr (listen_addr ''localhost:119'')"
  by code_simp

lemma ipv6_accepted: "is_socket_addr ''[2001:db8::192.0.2.1%1]:119''" "\<not> is_socket_addr ''192.0.2.01:119''"
  by code_simp+

end
