(* ===== verification/Network.thy ===== *)
theory Network
  imports Addresses
begin

text \<open>
  Listeners and certificates, \<^verbatim>\<open>get_listener\<close> and \<^verbatim>\<open>load_tls_config\<close> of \<^verbatim>\<open>src/src/server.rs\<close>. The operating system and the crates for
  systemd sockets, PEM files and TLS are parameters: what binding an address and opening a file give, the
  certificates and keys a PEM file holds, and the configuration made from a chain and a key. Error messages
  are given by their first line.
\<close>

record 'l network =
  systemd_parse :: "string \<Rightarrow> string option"
  systemd_bind :: "string \<Rightarrow> 'l option"
  set_nonblocking :: "'l \<Rightarrow> bool"
  listener_from_std :: "'l \<Rightarrow> 'l option"
  tcp_bind :: "string \<Rightarrow> 'l option"

definition get_listener :: "'l network \<Rightarrow> string \<Rightarrow> 'l result" where
  "get_listener N addr_config =
     (if starts_with addr_config ''systemd://''
      then case systemd_parse N addr_config of
             None \<Rightarrow> Inl (Anyhow (''Invalid systemd socket address '' @ addr_config))
           | Some socket_addr \<Rightarrow>
               (case systemd_bind N socket_addr of
                  None \<Rightarrow> Inl (Anyhow (''Failed to bind to address '' @ addr_config))
                | Some std_listener \<Rightarrow>
                    if \<not> set_nonblocking N std_listener
                    then Inl (Anyhow ''failed to set socket to non-blocking'')
                    else case listener_from_std N std_listener of
                           None \<Rightarrow> Inl (Anyhow ''failed to convert socket to tokio'')
                         | Some listener \<Rightarrow> Inr listener)
      else case tcp_bind N (listen_addr addr_config) of
             Some listener \<Rightarrow> Inr listener
           | None \<Rightarrow> Inl (Anyhow (''Failed to bind to address '' @ addr_config)))"

datatype io_error_kind = NotFound | PermissionDenied | OtherKind

record 'tls tls_library =
  file_open :: "string \<Rightarrow> io_error_kind + string"
  pem_certs :: "string \<Rightarrow> string list option"
  pkcs8_private_keys :: "string \<Rightarrow> string list option"
  with_single_cert :: "string list \<Rightarrow> string \<Rightarrow> 'tls option"

definition open_error :: "string \<Rightarrow> string \<Rightarrow> io_error_kind \<Rightarrow> error" where
  "open_error what path kind =
     Anyhow (case kind of
               NotFound \<Rightarrow> ''TLS '' @ what @ '' file not found: '' @ path
             | PermissionDenied \<Rightarrow> ''Permission denied reading TLS '' @ what @ '' file: '' @ path
             | OtherKind \<Rightarrow> ''Failed to open TLS '' @ what @ '' file '' @ path)"

definition load_tls_config :: "'tls tls_library \<Rightarrow> string \<Rightarrow> string \<Rightarrow> 'tls result" where
  "load_tls_config T cert_path key_path =
     (case file_open T cert_path of
        Inl kind \<Rightarrow> Inl (open_error ''certificate'' cert_path kind)
      | Inr cert_file \<Rightarrow>
     (case file_open T key_path of
        Inl kind \<Rightarrow> Inl (open_error ''private key'' key_path kind)
      | Inr key_file \<Rightarrow>
     (case pem_certs T cert_file of
        None \<Rightarrow> Inl (Anyhow (''Failed to parse TLS certificate file '' @ cert_path))
      | Some certs \<Rightarrow>
     (case pkcs8_private_keys T key_file of
        None \<Rightarrow> Inl (Anyhow (''Failed to parse TLS private key file '' @ key_path))
      | Some keys \<Rightarrow>
     (case keys of
        [] \<Rightarrow> Inl (Anyhow (''No valid private key found in TLS key file '' @ key_path))
      | key # _ \<Rightarrow>
     (case with_single_cert T certs key of
        None \<Rightarrow> Inl (Anyhow ''Failed to create TLS configuration'')
      | Some cfg \<Rightarrow> Inr cfg))))))"

text \<open>When a configuration is loaded, it is made from the whole chain of the certificate file and the first key of
  the key file.\<close>

lemma load_tls_config_ok:
  "load_tls_config T cert_path key_path = Inr cfg \<longleftrightarrow>
     (\<exists>cert_file key_file certs key keys. file_open T cert_path = Inr cert_file \<and> file_open T key_path = Inr key_file \<and>
        pem_certs T cert_file = Some certs \<and> pkcs8_private_keys T key_file = Some (key # keys) \<and>
        with_single_cert T certs key = Some cfg)"
  by (auto simp: load_tls_config_def split: sum.splits option.splits list.splits)

end
