(* ===== verification/Lifecycle.thy ===== *)
theory Lifecycle
  imports Peers Retention Queue Tracker Network
begin

text \<open>
  The life of the server, \<^verbatim>\<open>src/src/server.rs\<close>: the start of its components, the jobs of its peers, the periodic
  tasks, the reload of the configuration and the shutdown.

  Sockets, the TLS library, the scheduler of jobs and the signals are outside: \<open>accepted\<close> values say what the
  listeners yield, \<open>load_tls\<close> is the loading of a certificate and its key (\<open>load_tls_config\<close>), \<open>cron_valid\<close> whether the scheduler takes a
  schedule, \<open>added\<close> the identifiers it gives to the jobs to come (\<open>None\<close> when adding fails) and \<open>removes\<close> whether a
  job can be removed. A task that runs for ever is given by what it does in one round.
\<close>

subsection \<open>Counting connections\<close>

record connection_tracker =
  active_count :: u64
  shutdown_signals :: nat

definition new_connection_tracker :: connection_tracker where
  "new_connection_tracker = \<lparr>active_count = 0, shutdown_signals = 0\<rparr>"

definition connection_started :: "connection_tracker \<Rightarrow> connection_tracker" where
  "connection_started t = t\<lparr>active_count := active_count t + 1\<rparr>"

definition connection_ended :: "connection_tracker \<Rightarrow> connection_tracker" where
  "connection_ended t = t\<lparr>active_count := active_count t - 1\<rparr>"

definition active_connections :: "connection_tracker \<Rightarrow> u64" where
  "active_connections t = active_count t"

definition signal_shutdown :: "connection_tracker \<Rightarrow> connection_tracker" where
  "signal_shutdown t = t\<lparr>shutdown_signals := shutdown_signals t + 1\<rparr>"

subsection \<open>Components\<close>

text \<open>The databases are the opened ones.\<close>

definition initialize_components :: "config \<Rightarrow> db \<Rightarrow> adb \<Rightarrow> server" where
  "initialize_components cfg opened opened_auth =
     \<lparr>storage = opened, auth = opened_auth, usage_tracker = new_tracker (cfg_user_limits cfg),
      config = cfg, queue = new_queue (cfg_article_queue_capacity cfg)\<rparr>"

definition initialize_peer_db :: "config \<Rightarrow> (peer_db, unit) action" where
  "initialize_peer_db cfg = sync_config (map rule_sitename (cfg_peers cfg))"

text \<open>A listener hands every connection it accepts to \<open>handle_client\<close> in a task of its own, with the flag that says
  whether it is encrypted; a failed accept or handshake is logged. The listener for TLS keeps the acceptor it
  was started with.\<close>

fun tcp_connections :: "'c result list \<Rightarrow> ('c \<times> bool) list" where
  "tcp_connections [] = []"
| "tcp_connections (Inl e # accepted) = tcp_connections accepted"
| "tcp_connections (Inr socket # accepted) = (socket, False) # tcp_connections accepted"

fun tls_connections :: "('tls \<Rightarrow> 'c \<Rightarrow> 'd option) \<Rightarrow> 'tls \<Rightarrow> 'c result list \<Rightarrow> ('d \<times> bool) list" where
  "tls_connections handshake acceptor [] = []"
| "tls_connections handshake acceptor (Inl e # accepted) = tls_connections handshake acceptor accepted"
| "tls_connections handshake acceptor (Inr socket # accepted) =
     (case handshake acceptor socket of
        None \<Rightarrow> tls_connections handshake acceptor accepted
      | Some stream \<Rightarrow> (stream, True) # tls_connections handshake acceptor accepted)"

subsection \<open>Periodic tasks\<close>

definition retention_round :: "ext \<Rightarrow> 'z server_scheme \<Rightarrow> 'z server_scheme" where
  "retention_round X w = snd (on_storage (cleanup_expired_articles X (config w)) w)"

definition usage_persistence_round :: "ext \<Rightarrow> 'z server_scheme \<Rightarrow> 'z server_scheme" where
  "usage_persistence_round X w = snd (persist X w)"

subsection \<open>Jobs of peers\<close>

record job =
  job_peer :: peer_config
  job_cron :: string
  job_site :: string

record manager =
  manager_db :: peer_db
  scheduled :: "(nat \<times> job) list"
  peer_jobs :: "(string \<times> nat) list"
  added :: "nat option list"

record scheduler =
  cron_valid :: "string \<Rightarrow> bool"
  removes :: "nat \<Rightarrow> bool"

definition add_peer_job ::
  "scheduler \<Rightarrow> peer_config \<Rightarrow> string \<Rightarrow> string \<Rightarrow> (manager, nat) action" where
  "add_peer_job S peer default_schedule site_name m =
     (let schedule = job_schedule peer default_schedule
      in if \<not> cron_valid S schedule then (Inl (Anyhow ''invalid schedule''), m)
         else case added m of
                [] \<Rightarrow> (Inl (Anyhow ''scheduler''), m)
              | None # rest \<Rightarrow> (Inl (Anyhow ''scheduler''), m\<lparr>added := rest\<rparr>)
              | Some uuid # rest \<Rightarrow>
                  (Inr uuid, m\<lparr>added := rest,
                     scheduled := scheduled m @
                       [(uuid, \<lparr>job_peer = peer, job_cron = schedule, job_site = site_name\<rparr>)]\<rparr>))"

definition start_peer_job :: "scheduler \<Rightarrow> config \<Rightarrow> peer_rule \<Rightarrow> manager \<Rightarrow> manager" where
  "start_peer_job S cfg peer m =
     (case add_peer_job S (peer_config_of peer) (cfg_peer_sync_schedule cfg) (cfg_site_name cfg) m of
        (Inr uuid, m') \<Rightarrow> m'\<lparr>peer_jobs := AList.update (rule_sitename peer) uuid (peer_jobs m')\<rparr>
      | (Inl e, m') \<Rightarrow> m')"

definition start_peer_tasks :: "scheduler \<Rightarrow> config \<Rightarrow> manager \<Rightarrow> manager" where
  "start_peer_tasks S cfg m = fold (start_peer_job S cfg) (cfg_peers cfg) m"

definition start_new_peer_job :: "scheduler \<Rightarrow> config \<Rightarrow> peer_rule \<Rightarrow> manager \<Rightarrow> manager" where
  "start_new_peer_job S new_cfg peer m =
     (if map_of (peer_jobs m) (rule_sitename peer) = None then start_peer_job S new_cfg peer m else m)"

definition remove_peer_job :: "scheduler \<Rightarrow> string \<Rightarrow> manager \<Rightarrow> manager" where
  "remove_peer_job S name m =
     (case map_of (peer_jobs m) name of
        None \<Rightarrow> m
      | Some uuid \<Rightarrow>
          m\<lparr>peer_jobs := AList.delete name (peer_jobs m),
            scheduled := (if removes S uuid then filter (\<lambda>(u, _). u \<noteq> uuid) (scheduled m) else scheduled m)\<rparr>)"

definition on_manager_db :: "(peer_db, 'a) action \<Rightarrow> (manager, 'a) action" where
  "on_manager_db f m = (case f (manager_db m) of (r, d) \<Rightarrow> (r, m\<lparr>manager_db := d\<rparr>))"

definition update_tasks :: "scheduler \<Rightarrow> config \<Rightarrow> (manager, unit) action" where
  "update_tasks S new_cfg =
     bind_res (on_manager_db (sync_config (map rule_sitename (cfg_peers new_cfg)))) (\<lambda>_ m.
       let m = fold (start_new_peer_job S new_cfg) (cfg_peers new_cfg) m;
           to_remove = filter (\<lambda>name. \<not> list_ex (\<lambda>p. rule_sitename p = name) (cfg_peers new_cfg))
                         (map fst (peer_jobs m))
       in (Inr (), fold (remove_peer_job S) to_remove m))"

subsection \<open>Reload\<close>

record 'tls running =
  run_server :: server
  run_manager :: manager
  tls_acceptor :: "'tls option"
  listener_acceptor :: "'tls option"

text \<open>The listener for TLS is started when its address, a certificate and a key are configured; the socket is bound
  before the certificate is read. The result is the listener.\<close>

definition start_tls_listener ::
  "'l network \<Rightarrow> (string \<Rightarrow> string \<Rightarrow> 'tls result) \<Rightarrow> 'tls running \<Rightarrow> 'l option result \<times> 'tls running" where
  "start_tls_listener N load_tls r =
     (let cfg = config (run_server r)
      in case (cfg_tls_addr cfg, cfg_tls_cert cfg, cfg_tls_key cfg) of
           (Some tls_addr_raw, Some cert, Some key) \<Rightarrow>
             (case get_listener N tls_addr_raw of
                Inl e \<Rightarrow> (Inl e, r)
              | Inr tls_listener \<Rightarrow>
                  (case load_tls cert key of
                     Inl e \<Rightarrow> (Inl e, r)
                   | Inr acceptor \<Rightarrow>
                       (Inr (Some tls_listener),
                        r\<lparr>tls_acceptor := Some acceptor, listener_acceptor := Some acceptor\<rparr>)))
         | _ \<Rightarrow> (Inr None, r))"

definition reload :: "(string \<Rightarrow> string \<Rightarrow> 'tls result) \<Rightarrow> config result \<Rightarrow> ('tls running, unit) action" where
  "reload load_tls from_file r =
     (case from_file of
        Inl e \<Rightarrow> (Inl e, r)
      | Inr new_cfg \<Rightarrow>
          let r = (case (cfg_tls_cert new_cfg, cfg_tls_key new_cfg) of
                     (Some cert, Some key) \<Rightarrow>
                       (case load_tls cert key of
                          Inl e \<Rightarrow> r
                        | Inr acceptor \<Rightarrow> r\<lparr>tls_acceptor := Some acceptor\<rparr>)
                   | _ \<Rightarrow> r)
          in (Inr (), r\<lparr>run_server := (run_server r)
                \<lparr>config := update_runtime (config (run_server r)) new_cfg\<rparr>\<rparr>))"

text \<open>The file is read twice, so that it may have changed in between.\<close>

definition handle_config_reload_with_managers ::
  "scheduler \<Rightarrow> (string \<Rightarrow> string \<Rightarrow> 'tls result) \<Rightarrow> config result \<Rightarrow> config result \<Rightarrow> ('tls running, unit) action" where
  "handle_config_reload_with_managers S load_tls first_read second_read r =
     (case first_read of
        Inl e \<Rightarrow> (Inl e, r)
      | Inr new_cfg \<Rightarrow>
          bind_res (reload load_tls second_read) (\<lambda>_ r.
            case update_tasks S new_cfg (run_manager r) of
              (res, m) \<Rightarrow> (res, r\<lparr>run_manager := m\<rparr>)) r)"

subsection \<open>Shutdown\<close>

text \<open>Both phases of the shutdown poll: \<open>settled k\<close> is what the poll number \<open>k\<close> sees, \<open>elapsed k\<close> the milliseconds since
  the phase began. The result says whether the phase ended because everything had settled, and at which poll.\<close>

partial_function (option) poll_until ::
  "(nat \<Rightarrow> bool) \<Rightarrow> (nat \<Rightarrow> nat) \<Rightarrow> nat \<Rightarrow> nat \<Rightarrow> (bool \<times> nat) option" where
  "poll_until settled elapsed timeout k =
     (if settled k then Some (True, k)
      else if elapsed k > timeout then Some (False, k)
      else poll_until settled elapsed timeout (k + 1))"

declare poll_until.simps [code]

text \<open>The part of \<^verbatim>\<open>Server::run\<close> after the interrupt. Its tracker of connections is a local value that no listener is
  given.\<close>

definition shutdown_phases ::
  "(nat \<Rightarrow> article_queue) \<Rightarrow> (nat \<Rightarrow> nat) \<Rightarrow> (nat \<Rightarrow> nat) \<Rightarrow> ((bool \<times> nat) \<times> (bool \<times> nat)) option" where
  "shutdown_phases queues drain_elapsed conn_elapsed =
     (let tracker = signal_shutdown new_connection_tracker
      in Option.bind (poll_until (\<lambda>k. queue_is_empty (queues k)) drain_elapsed 30000 0) (\<lambda>drained.
         Option.bind (poll_until (\<lambda>k. \<not> active_connections tracker > 0) conn_elapsed 30000 0) (\<lambda>closed.
         Some (drained, closed))))"

end
