(* ===== verification/Lifecycle_Properties.thy ===== *)
theory Lifecycle_Properties
  imports Lifecycle Peer_Properties
begin

text \<open>
  The jobs of peers after a reload of the configuration, and the end of the server. What the scheduler runs is
  abstracted to a map from the names of peers to jobs.
\<close>

subsection \<open>Scheduled jobs\<close>

definition job_of :: "manager \<Rightarrow> string \<Rightarrow> job option" where
  "job_of m name = Option.bind (map_of (peer_jobs m) name) (map_of (scheduled m))"

definition job_for :: "config \<Rightarrow> peer_rule \<Rightarrow> job" where
  "job_for cfg p = \<lparr>job_peer = peer_config_of p,
     job_cron = job_schedule (peer_config_of p) (cfg_peer_sync_schedule cfg), job_site = cfg_site_name cfg\<rparr>"

definition rule_named :: "peer_rule list \<Rightarrow> string \<Rightarrow> peer_rule option" where
  "rule_named ps name = List.find (\<lambda>p. rule_sitename p = name) ps"

text \<open>The names and the identifiers of jobs are unique, every scheduled job is known by the name of a peer, and the
  identifiers to come are new.\<close>

definition manager_ok :: "manager \<Rightarrow> bool" where
  "manager_ok m \<longleftrightarrow>
     distinct (map fst (peer_jobs m)) \<and> distinct (map snd (peer_jobs m)) \<and> distinct (map fst (scheduled m)) \<and>
     fst ` set (scheduled m) = snd ` set (peer_jobs m) \<and>
     distinct (added m) \<and> (\<forall>u \<in> snd ` set (peer_jobs m). Some u \<notin> set (added m))"

lemma update_new_key: "k \<notin> fst ` set al \<Longrightarrow> AList.update k v al = al @ [(k, v)]"
  by (induction al) auto

lemma job_of_None: "manager_ok m \<Longrightarrow> job_of m n = None \<longleftrightarrow> n \<notin> fst ` set (peer_jobs m)"
proof -
  assume m: "manager_ok m"
  have "map_of (scheduled m) u \<noteq> None" if "map_of (peer_jobs m) n = Some u" for u
    using m that by (auto simp: manager_ok_def map_of_eq_None_iff dest!: map_of_SomeD) force
  then show ?thesis by (auto simp: job_of_def bind_eq_None_conv map_of_eq_None_iff)
qed

lemma start_job:
  assumes "manager_ok m" and "rule_sitename p \<notin> fst ` set (peer_jobs m)" and "added m = Some u # us"
    and "cron_valid S (job_cron (job_for cfg p))"
  shows "\<exists>m'. start_peer_job S cfg p m = m' \<and> manager_ok m' \<and> added m' = us \<and>
     manager_db m' = manager_db m \<and> job_of m' = (job_of m)(rule_sitename p \<mapsto> job_for cfg p)"
proof -
  have u: "u \<notin> fst ` set (scheduled m)" "u \<notin> snd ` set (peer_jobs m)"
    using assms(1,3) unfolding manager_ok_def by (metis list.set_intros(1))+
  have "start_peer_job S cfg p m = m\<lparr>added := us, scheduled := scheduled m @ [(u, job_for cfg p)],
      peer_jobs := peer_jobs m @ [(rule_sitename p, u)]\<rparr>" (is "_ = ?m'")
    using assms(2-4) by (simp add: start_peer_job_def add_peer_job_def job_for_def update_new_key Let_def)
  moreover have "manager_ok ?m'" using assms(1-3) u by (auto simp: manager_ok_def)
  moreover have "job_of ?m' n = ((job_of m)(rule_sitename p \<mapsto> job_for cfg p)) n" for n
  proof (cases "map_of (peer_jobs m) n")
    case None
    have "map_of (peer_jobs m) (rule_sitename p) = None" "map_of (scheduled m) u = None"
      using assms(2) u(1) by (simp_all add: map_of_eq_None_iff)
    with None show ?thesis by (simp add: job_of_def map_add_def)
  next
    case (Some v)
    then have "v \<noteq> u" "n \<noteq> rule_sitename p" using u(2) assms(2) by (auto dest!: map_of_SomeD simp: image_iff)
    with Some show ?thesis by (simp add: job_of_def map_add_def split: option.splits)
  qed
  ultimately show ?thesis by auto
qed

lemma start_new_jobs:
  assumes "manager_ok m" and "None \<notin> set (added m)" and "length ps \<le> length (added m)"
    and "distinct (map rule_sitename ps)" and "\<forall>p \<in> set ps. cron_valid S (job_cron (job_for cfg p))"
  shows "\<exists>m'. fold (start_new_peer_job S cfg) ps m = m' \<and> manager_ok m' \<and> manager_db m' = manager_db m \<and>
     job_of m' = (\<lambda>n. case job_of m n of None \<Rightarrow> map_option (job_for cfg) (rule_named ps n) | Some j \<Rightarrow> Some j)"
  using assms
proof (induction ps arbitrary: m)
  case Nil
  then show ?case by (auto simp: rule_named_def fun_eq_iff split: option.splits)
next
  case (Cons p ps)
  show ?case
  proof (cases "job_of m (rule_sitename p) = None")
    case False
    then have "start_new_peer_job S cfg p m = m"
      using job_of_None [OF Cons.prems(1)] by (auto simp: start_new_peer_job_def map_of_eq_None_iff)
    moreover have "(\<lambda>n. case job_of m n of None \<Rightarrow> map_option (job_for cfg) (rule_named ps n) | Some j \<Rightarrow> Some j) =
        (\<lambda>n. case job_of m n of None \<Rightarrow> map_option (job_for cfg) (rule_named (p # ps) n) | Some j \<Rightarrow> Some j)"
      using False by (auto simp: rule_named_def fun_eq_iff split: option.splits)
    ultimately show ?thesis using Cons.IH [of m] Cons.prems by auto
  next
    case True
    from Cons.prems(2,3) obtain u us where us: "added m = Some u # us" 
      by (cases "added m"; cases "hd (added m)") auto
    have new: "rule_sitename p \<notin> fst ` set (peer_jobs m)" using True job_of_None [OF Cons.prems(1)] by blast
    then have "start_new_peer_job S cfg p m = start_peer_job S cfg p m"
      by (auto simp: start_new_peer_job_def map_of_eq_None_iff)
    with start_job [OF Cons.prems(1) new us, of S cfg] Cons.prems(5) obtain m1 where
      m1: "start_new_peer_job S cfg p m = m1" "manager_ok m1" "added m1 = us" "manager_db m1 = manager_db m"
      "job_of m1 = (job_of m)(rule_sitename p \<mapsto> job_for cfg p)" by auto
    from Cons.IH [OF m1(2)] Cons.prems us m1(3) obtain m' where
      m': "fold (start_new_peer_job S cfg) ps m1 = m'" "manager_ok m'" "manager_db m' = manager_db m1"
      "job_of m' = (\<lambda>n. case job_of m1 n of None \<Rightarrow> map_option (job_for cfg) (rule_named ps n) | Some j \<Rightarrow> Some j)"
      by auto
    then show ?thesis using m1 True by (auto simp: rule_named_def fun_eq_iff split: option.splits)
  qed
qed

lemma remove_job:
  assumes "manager_ok m" and "\<forall>u. removes S u"
  shows "manager_ok (remove_peer_job S n m) \<and> job_of (remove_peer_job S n m) = (job_of m)(n := None) \<and>
     manager_db (remove_peer_job S n m) = manager_db m"
proof (cases "map_of (peer_jobs m) n")
  case None
  then show ?thesis using assms(1) by (auto simp: remove_peer_job_def job_of_def fun_eq_iff)
next
  case (Some u)
  let ?m' = "remove_peer_job S n m"
  have pj: "peer_jobs ?m' = filter (\<lambda>e. fst e \<noteq> n) (peer_jobs m)"
    and sc: "scheduled ?m' = filter (\<lambda>e. fst e \<noteq> u) (scheduled m)" and ad: "added ?m' = added m"
    using Some assms(2) by (auto simp: remove_peer_job_def AList.delete_eq intro!: filter_cong)
  have mem: "(n, u) \<in> set (peer_jobs m)" using Some by (rule map_of_SomeD)
  have one: "e \<in> set (peer_jobs m) \<Longrightarrow> fst e = n \<longleftrightarrow> snd e = u" for e
    using assms(1) mem unfolding manager_ok_def distinct_map inj_on_def
    by (metis fst_conv snd_conv)
  have "fst ` set (scheduled ?m') = fst ` set (scheduled m) - {u}" by (auto simp: sc)
  moreover have "snd ` set (peer_jobs ?m') = snd ` set (peer_jobs m) - {u}" using one by (auto simp: pj)
  ultimately have "manager_ok ?m'"
    using assms(1) by (auto simp: manager_ok_def pj sc ad distinct_map_filter)
  moreover have "job_of ?m' k = ((job_of m)(n := None)) k" for k
  proof (cases "k = n")
    case False
    have "map_of (filter (\<lambda>e. fst e \<noteq> n) al) k = map_of al k" for al :: "(string \<times> nat) list"
      using False by (induction al) auto
    moreover have "v \<noteq> u" if "map_of (peer_jobs m) k = Some v" for v
      using one [OF map_of_SomeD [OF that]] False by auto
    moreover have "map_of (filter (\<lambda>e. fst e \<noteq> u) al) v = map_of al v" if "v \<noteq> u" for v and al :: "(nat \<times> job) list"
      using that by (induction al) auto
    ultimately show ?thesis using False by (cases "map_of (peer_jobs m) k") (auto simp: job_of_def pj sc)
  next
    case True
    have "map_of (filter (\<lambda>e. fst e \<noteq> n) al) n = None" for al :: "(string \<times> nat) list"
      by (induction al) auto
    with True show ?thesis by (simp add: job_of_def pj)
  qed
  ultimately show ?thesis using Some by (auto simp: remove_peer_job_def)
qed

lemma remove_jobs:
  "manager_ok m \<Longrightarrow> \<forall>u. removes S u \<Longrightarrow>
     manager_ok (fold (remove_peer_job S) ns m) \<and>
     job_of (fold (remove_peer_job S) ns m) = (\<lambda>n. if n \<in> set ns then None else job_of m n) \<and>
     manager_db (fold (remove_peer_job S) ns m) = manager_db m"
proof (induction ns arbitrary: m)
  case (Cons n ns)
  from remove_job [OF Cons.prems, of n] Cons.IH [of "remove_peer_job S n m"] Cons.prems(2)
  show ?case by (auto simp: fun_eq_iff)
qed simp

subsection \<open>Polling\<close>

lemma poll_until_ends:
  assumes "\<forall>k. 100 * k \<le> elapsed k" and "n = Suc timeout div 100 + 1 - k"
  shows "\<exists>d j. poll_until settled elapsed timeout k = Some (d, j) \<and> k \<le> j \<and> j \<le> max k (Suc timeout div 100 + 1) \<and>
     d = settled j \<and> (\<forall>i. k \<le> i \<and> i < j \<longrightarrow> \<not> settled i) \<and> (d \<or> timeout < elapsed j)"
  using assms(2)
proof (induction n arbitrary: k)
  case 0
  then have "timeout < 100 * k" by linarith
  also have "\<dots> \<le> elapsed k" using assms(1) by blast
  finally show ?case by (subst poll_until.simps) auto
next
  case (Suc n)
  show ?case
  proof (cases "settled k \<or> timeout < elapsed k")
    case True
    then show ?thesis by (subst poll_until.simps) auto
  next
    case False
    have "n = Suc timeout div 100 + 1 - Suc k" using Suc.prems by linarith
    from Suc.IH [OF this] obtain d j where
      *: "poll_until settled elapsed timeout (Suc k) = Some (d, j)" "Suc k \<le> j"
      "j \<le> max (Suc k) (Suc timeout div 100 + 1)" "d = settled j" "\<forall>i. Suc k \<le> i \<and> i < j \<longrightarrow> \<not> settled i"
      "d \<or> timeout < elapsed j" by blast
    have "\<forall>i. k \<le> i \<and> i < j \<longrightarrow> \<not> settled i"
      using *(5) False by (metis Suc_leI le_neq_implies_less)
    moreover have "j \<le> max k (Suc timeout div 100 + 1)" using *(3) Suc.prems by linarith
    ultimately show ?thesis using * False by (subst poll_until.simps) auto
  qed
qed

subsection \<open>Properties\<close>

text \<open>C27: after a reload the scheduler runs one job for each configured peer and no other: a peer that is no longer
  configured has no job, a new one has the job its rule and the new configuration describe, and one that was
  there already keeps the job it had, whatever its new rule says. This needs schedules that are valid, a
  scheduler that neither fails to add nor to remove, and peers with different names.\<close>

theorem reload_schedules_configured_peers:
  assumes "manager_ok m" and "faults (manager_db m) = []" and "\<forall>u. removes S u"
    and "None \<notin> set (added m)" "length (cfg_peers cfg) \<le> length (added m)"
    and "distinct (map rule_sitename (cfg_peers cfg))"
    and "\<forall>p \<in> set (cfg_peers cfg). cron_valid S (job_cron (job_for cfg p))"
  shows "\<exists>m'. update_tasks S cfg m = (Inr (), m') \<and> manager_ok m' \<and>
     (\<forall>n. job_of m' n = (case rule_named (cfg_peers cfg) n of
        None \<Rightarrow> None
      | Some p \<Rightarrow> (case job_of m n of None \<Rightarrow> Some (job_for cfg p) | Some j \<Rightarrow> Some j)))"
proof -
  let ?ps = "cfg_peers cfg"
  obtain d where "sync_config (map rule_sitename ?ps) (manager_db m) = (Inr (), d)"
    using sync_config_ok [OF assms(2,6)] by blast
  then have db: "on_manager_db (sync_config (map rule_sitename ?ps)) m = (Inr (), m\<lparr>manager_db := d\<rparr>)"
    by (simp add: on_manager_db_def)
  let ?m = "m\<lparr>manager_db := d\<rparr>"
  have ok: "manager_ok ?m" and same: "job_of ?m = job_of m"
    using assms(1) by (simp_all add: manager_ok_def job_of_def fun_eq_iff)
  from start_new_jobs [OF ok, of ?ps S cfg] assms(4-7) obtain m1 where
    m1: "fold (start_new_peer_job S cfg) ?ps ?m = m1" "manager_ok m1"
    "job_of m1 = (\<lambda>n. case job_of m n of None \<Rightarrow> map_option (job_for cfg) (rule_named ?ps n) | Some j \<Rightarrow> Some j)"
    by (auto simp: same)
  let ?gone = "filter (\<lambda>name. \<not> list_ex (\<lambda>p. rule_sitename p = name) ?ps) (map fst (peer_jobs m1))"
  have gone: "n \<in> set ?gone \<longleftrightarrow> job_of m1 n \<noteq> None \<and> rule_named ?ps n = None" for n
    using job_of_None [OF m1(2), of n] by (auto simp: rule_named_def find_None_iff list_ex_iff)
  from remove_jobs [OF m1(2) assms(3), of ?gone] have "manager_ok (fold (remove_peer_job S) ?gone m1)"
    "\<And>n. job_of (fold (remove_peer_job S) ?gone m1) n =
       (if job_of m1 n \<noteq> None \<and> rule_named ?ps n = None then None else job_of m1 n)"
    by (auto simp only: gone if_True if_False split: if_splits)
  then show ?thesis
    by (auto simp: update_tasks_def bind_res_def db m1(1,3) Let_def split: option.splits)
qed

definition sample_scheduler :: scheduler where
  "sample_scheduler = \<lparr>cron_valid = (\<lambda>_. True), removes = (\<lambda>_. True)\<rparr>"

definition sample_manager :: manager where
  "sample_manager =
     \<lparr>manager_db = \<lparr>faults = [], peers = [\<lparr>peer_sitename = ''old'', peer_last_sync = 0\<rparr>]\<rparr>,
      scheduled = [(7, \<lparr>job_peer = sample_peer, job_cron = ''c'', job_site = ''s''\<rparr>)],
      peer_jobs = [(''old'', 7)], added = [Some 8]\<rparr>"

definition sample_rule :: peer_rule where
  "sample_rule = \<lparr>rule_sitename = ''new'', rule_patterns = [''*''], rule_sync_schedule = None\<rparr>"

theorem reload_schedules_configured_peers_witness:
  "\<exists>m'. update_tasks sample_scheduler (sample_config\<lparr>cfg_peers := [sample_rule]\<rparr>) sample_manager = (Inr (), m') \<and>
     job_of m' ''old'' = None \<and>
     job_of m' ''new'' = Some (job_for (sample_config\<lparr>cfg_peers := [sample_rule]\<rparr>) sample_rule)"
proof -
  let ?cfg = "sample_config\<lparr>cfg_peers := [sample_rule]\<rparr>"
  have "manager_ok sample_manager" by (simp add: manager_ok_def sample_manager_def)
  moreover have "faults (manager_db sample_manager) = []" "None \<notin> set (added sample_manager)"
    "length (cfg_peers ?cfg) \<le> length (added sample_manager)" by (simp_all add: sample_manager_def)
  moreover have "job_of sample_manager ''new'' = None" "rule_named (cfg_peers ?cfg) ''old'' = None"
    "rule_named (cfg_peers ?cfg) ''new'' = Some sample_rule"
    by (simp_all add: job_of_def sample_manager_def rule_named_def sample_rule_def)
  ultimately show ?thesis
    using reload_schedules_configured_peers [of sample_manager sample_scheduler ?cfg]
    by (auto simp: sample_scheduler_def)
qed

text \<open>C28: the shutdown ends. However long articles stay in the queue, the first phase ends after at most 302 polls,
  at the first poll that finds the queue empty or after 30 seconds; the second phase never waits, whatever
  connections are open, because nothing counts them. A pause between two polls takes at least its 100
  milliseconds.\<close>

theorem shutdown_ends:
  assumes "\<forall>k. 100 * k \<le> drain_elapsed k"
  shows "\<exists>drained k. shutdown_phases queues drain_elapsed conn_elapsed = Some ((drained, k), (True, 0)) \<and>
     k \<le> 301 \<and> drained = queue_is_empty (queues k) \<and> (\<forall>i < k. \<not> queue_is_empty (queues i)) \<and>
     (drained \<or> 30000 < drain_elapsed k)"
proof -
  let ?settled = "\<lambda>k. queue_is_empty (queues k)"
  from poll_until_ends [OF assms refl, of ?settled 30000 0] obtain d k where
    "poll_until ?settled drain_elapsed 30000 0 = Some (d, k)" "k \<le> 301" "d = ?settled k" "\<forall>i < k. \<not> ?settled i"
    "d \<or> 30000 < drain_elapsed k" by auto
  moreover have "poll_until (\<lambda>k. \<not> active_connections (signal_shutdown new_connection_tracker) > 0) conn_elapsed
      30000 0 = Some (True, 0)"
    by (subst poll_until.simps) (simp add: active_connections_def signal_shutdown_def new_connection_tracker_def)
  ultimately show ?thesis by (simp add: shutdown_phases_def Let_def)
qed

theorem shutdown_ends_witness:
  "\<exists>drained k. shutdown_phases (\<lambda>k. \<lparr>queue_items = [], queue_capacity = 1\<rparr>) (\<lambda>k. 101 * k) (\<lambda>k. 0) =
     Some ((drained, k), (True, 0)) \<and> k \<le> 301"
  using shutdown_ends [of "\<lambda>k. 101 * k" "\<lambda>k. \<lparr>queue_items = [], queue_capacity = 1\<rparr>" "\<lambda>k. 0"] by auto

end
