(* ===== verification/Config_File.thy ===== *)
theory Config_File
  imports Config
begin

text \<open>
  Reading the configuration file, \<^verbatim>\<open>Config::from_file\<close> and \<^verbatim>\<open>expand_placeholders\<close> of \<^verbatim>\<open>src/src/config.rs\<close>. The file
  system, the environment, the regular expressions and the TOML parser are parameters: \<open>captures\<close> gives the
  start and the end of each match and the text of its group, \<open>toml\<close> the configuration a text describes.
\<close>

record outside =
  read_file :: "string \<Rightarrow> string option"
  env_var :: "string \<Rightarrow> string option"
  captures :: "string \<Rightarrow> string \<Rightarrow> (nat \<times> nat \<times> string) list"
  toml :: "string \<Rightarrow> config option"

definition ENV_RE :: string where
  "ENV_RE = [CHR 0x5C] @ ''$ENV'' @ [CHR 0x5C] @ ''{([^}]+)'' @ [CHR 0x5C] @ ''}''"

definition FILE_RE :: string where
  "FILE_RE = [CHR 0x5C] @ ''$FILE'' @ [CHR 0x5C] @ ''{([^}]+)'' @ [CHR 0x5C] @ ''}''"

text \<open>The loop over the matches: \<open>from\<close> is where the copied text ends.\<close>

fun replace_matches ::
  "(string \<Rightarrow> string option) \<Rightarrow> string \<Rightarrow> (nat \<times> nat \<times> string) list \<Rightarrow> nat \<Rightarrow> string option" where
  "replace_matches value input [] from = Some (drop from input)"
| "replace_matches value input ((start, stop, name) # ms) from =
     (case value name of
        None \<Rightarrow> None
      | Some v \<Rightarrow>
          map_option (\<lambda>rest. take (start - from) (drop from input) @ v @ rest)
            (replace_matches value input ms stop))"

definition expand_placeholders :: "outside \<Rightarrow> string \<Rightarrow> string option" where
  "expand_placeholders W input =
     (case replace_matches (env_var W) input (captures W ENV_RE input) 0 of
        None \<Rightarrow> None
      | Some expanded \<Rightarrow> replace_matches (read_file W) expanded (captures W FILE_RE expanded) 0)"

definition config_from_file :: "outside \<Rightarrow> string \<Rightarrow> config result" where
  "config_from_file W path =
     (case read_file W path of
        None \<Rightarrow> Inl (Anyhow ''Failed to read configuration file'')
      | Some input \<Rightarrow>
          (case expand_placeholders W input of
             None \<Rightarrow> Inl (Anyhow ''Failed to process configuration placeholders'')
           | Some expanded \<Rightarrow>
               (case toml W expanded of
                  None \<Rightarrow> Inl (Anyhow ''Failed to parse configuration file'')
                | Some cfg \<Rightarrow> Inr (finish_config cfg))))"

end
