(* ===== verification/Limits_Properties.thy ===== *)
theory Limits_Properties
  imports Connections Config_File
begin

text \<open>
  Numbers and rules of the configuration, and the limit on bandwidth: sizes are parsed exactly or not at all,
  the most specific rule decides, and the recorded usage stays within the limit.
\<close>

subsection \<open>Sizes\<close>

lemma digit_not_space: "is_ascii_digit c \<Longrightarrow> \<not> is_whitespace c"
  by (auto simp: is_ascii_digit_def is_whitespace_def)

lemma show_nat_ends: "is_ascii_digit (hd (show_nat n)) \<and> is_ascii_digit (last (show_nat n))"
  by (meson show_nat_digits hd_in_set last_in_set show_nat_ne)

lemma str_trim_show_nat: "str_trim (show_nat n) = show_nat n"
  using show_nat_ends [of n] by (simp add: str_trim_def trim_matches_id digit_not_space)

lemma str_trim_show_nat_unit: "\<not> is_whitespace u \<Longrightarrow> str_trim (show_nat n @ [u]) = show_nat n @ [u]"
  using show_nat_ends [of n] by (simp add: str_trim_def trim_matches_id digit_not_space)

definition unit_of :: "string \<Rightarrow> nat option" where
  "unit_of u = map_of [([], 1), (''K'', 2 ^ 10), (''k'', 2 ^ 10), (''M'', 2 ^ 20), (''m'', 2 ^ 20),
     (''G'', 2 ^ 30), (''g'', 2 ^ 30)] u"

lemma size_unit_printed:
  assumes "unit_of u = Some f"
  shows "size_unit (show_nat v @ u) = Some (show_nat v, of_nat f) \<and> f < 2 ^ 64 \<and> str_trim (show_nat v @ u) = show_nat v @ u"
proof -
  have d: "is_ascii_digit (last (show_nat v))" using show_nat_ends by blast
  have n: "\<not> is_ascii_digit (CHR ''K'')" "\<not> is_ascii_digit (CHR ''k'')" "\<not> is_ascii_digit (CHR ''M'')"
    "\<not> is_ascii_digit (CHR ''m'')" "\<not> is_ascii_digit (CHR ''G'')" "\<not> is_ascii_digit (CHR ''g'')" by code_simp+
  have w: "\<not> is_whitespace (CHR ''K'')" "\<not> is_whitespace (CHR ''k'')" "\<not> is_whitespace (CHR ''M'')"
    "\<not> is_whitespace (CHR ''m'')" "\<not> is_whitespace (CHR ''G'')" "\<not> is_whitespace (CHR ''g'')" by code_simp+
  from assms d n w show ?thesis
    by (auto simp: unit_of_def size_unit_def Let_def str_trim_show_nat str_trim_show_nat_unit split: if_splits)
qed

lemma parse_uint_show_nat: "parse_uint w (show_nat n) = (if n < 2 ^ w then Some n else None)"
  using show_nat_digits [of _ n] by (simp add: parse_uint_def show_nat_no_plus list_all_iff)

subsection \<open>Rules\<close>

lemma sort_key_hd:
  assumes "sort_key k xs = r # rs"
  shows "r \<in> set xs \<and> (\<forall>x \<in> set xs. k r \<le> k x)"
proof -
  have "sorted (map k (r # rs))" by (metis assms sorted_sort_key)
  moreover have "set xs = set (r # rs)" by (metis assms set_sort)
  ultimately show ?thesis by auto
qed

lemma sort_key_hd_first:
  "sort_key k xs = r # rs \<Longrightarrow> List.find (\<lambda>x. k x = k r) xs = Some r"
proof -
  assume h: "sort_key k xs = r # rs"
  have "filter (\<lambda>x. k x = k r) xs = filter (\<lambda>x. k x = k r) (sort_key k xs)" by (simp add: sort_key_stable)
  then have "filter (\<lambda>x. k x = k r) xs = r # filter (\<lambda>x. k x = k r) rs" using h by simp
  then show ?thesis by (induction xs) (auto split: if_splits)
qed

definition size_rules :: "ext \<Rightarrow> config \<Rightarrow> string \<Rightarrow> group_rule list" where
  "size_rules X c grp =
     filter (\<lambda>r. rule_max_article_bytes r \<noteq> None) (filter (pattern_matches X grp) (cfg_group_settings c))"

subsection \<open>Bandwidth\<close>

text \<open>\<open>transfer_run name w w'\<close>: transfers of the user \<open>name\<close>, one after the other, each checked and then recorded;
  refused ones are not recorded. Other users may transfer in between, the usage of a user may be reset, and the
  clock moves.\<close>

inductive transfer_run :: "string \<Rightarrow> server \<Rightarrow> server \<Rightarrow> bool" for name w where
  start: "transfer_run name w w"
| transferred: "transfer_run name w w1 \<Longrightarrow> check_bandwidth X name bytes w1 = (Inr Allowed, w2) \<Longrightarrow>
    transfer_run name w (record_bandwidth Y name bytes is_upload w2)"
| refused: "transfer_run name w w1 \<Longrightarrow> check_bandwidth X name bytes w1 = (Inr BandwidthExceeded, w2) \<Longrightarrow>
    transfer_run name w w2"
| other: "transfer_run name w w1 \<Longrightarrow> other \<noteq> name \<Longrightarrow>
    transfer_run name w (record_bandwidth X other bytes is_upload w1)"
| reset: "transfer_run name w w1 \<Longrightarrow> transfer_run name w (snd (reset_usage X who w1))"

definition total_usage :: "server \<Rightarrow> string \<Rightarrow> nat" where
  "total_usage w name =
     (let u = get_usage (usage_tracker w) name in unat (usage_bytes_uploaded u) + unat (usage_bytes_downloaded u))"

definition cached_bandwidth :: "string \<Rightarrow> u64 \<Rightarrow> server \<Rightarrow> bool" where
  "cached_bandwidth name limit w \<longleftrightarrow>
     (\<exists>l. limits_cache (usage_tracker w) name = Some l \<and> limit_bandwidth l = Some limit)"

lemma total_usage_put [simp]:
  "total_usage (put_bandwidth n s w) name =
     (if n = name then unat (bytes_uploaded s) + unat (bytes_downloaded s) else total_usage w name)"
  by (simp add: total_usage_def put_bandwidth_def set_tracker_def get_usage_def usage_of_state_def update_conv')

lemma cached_bandwidth_put [simp]: "cached_bandwidth name limit (put_bandwidth n s w) = cached_bandwidth name limit w"
  by (simp add: cached_bandwidth_def put_bandwidth_def set_tracker_def)

lemma total_usage_entry:
  "unat (bytes_uploaded (bandwidth_entry X (usage_tracker w) n)) + unat (bytes_downloaded (bandwidth_entry X (usage_tracker w) n)) =
     total_usage w n"
  by (simp add: total_usage_def bandwidth_entry_def get_usage_def usage_of_state_def default_user_usage_def
      default_bandwidth_state_def split: option.splits)

lemma checked_bandwidth:
  assumes "check_bandwidth X name bytes w = (Inr r, w')" and "cached_bandwidth name limit w"
    and "unat limit < 2 ^ 64 - 1" and "total_usage w name \<le> unat limit"
  shows "cached_bandwidth name limit w' \<and> total_usage w' name \<le> unat limit \<and>
     (r = Allowed \<longrightarrow> total_usage w' name + unat bytes \<le> unat limit)"
proof -
  let ?s = "bandwidth_entry X (usage_tracker w) name"
  from assms(2) obtain l where l: "limits_cache (usage_tracker w) name = Some l" "limit_bandwidth l = Some limit"
    by (auto simp: cached_bandwidth_def)
  from assms(1) l obtain expired s' where s': "s' = (if expired
        then \<lparr>bytes_uploaded = 0, bytes_downloaded = 0, window_start = utc_now X\<rparr> else ?s)"
    and r: "r = (if saturating_add (saturating_add (bytes_uploaded s') (bytes_downloaded s')) bytes > limit
        then BandwidthExceeded else Allowed)" and w': "w' = put_bandwidth name s' w"
    by (auto simp: check_bandwidth_def bind_res_def effective_cached Let_def split: sum.splits)
  have bound: "unat (bytes_uploaded s') + unat (bytes_downloaded s') \<le> unat limit"
    using assms(4) total_usage_entry [of X w name] by (simp add: s')
  moreover have "unat (bytes_uploaded s') + unat (bytes_downloaded s') + unat bytes \<le> unat limit" if "r = Allowed"
  proof -
    have "unat (saturating_add (saturating_add (bytes_uploaded s') (bytes_downloaded s')) bytes) \<le> unat limit"
      using that by (auto simp: r word_less_nat_alt not_less split: if_splits)
    then show ?thesis using assms(3) bound by (simp add: unat_saturating_add min_def split: if_splits)
  qed
  ultimately show ?thesis using assms(2) by (simp add: w')
qed

lemma recorded_bandwidth:
  assumes "total_usage w name + unat bytes \<le> unat limit"
  shows "total_usage (record_bandwidth X name bytes is_upload w) name \<le> unat limit"
  using assms total_usage_entry [of X w name]
  by (simp add: record_bandwidth_def Let_def unat_saturating_add min_def)

lemma reset_bandwidth:
  "total_usage (snd (reset_usage X who w)) name \<le> total_usage w name \<and>
     cached_bandwidth name limit (snd (reset_usage X who w)) = cached_bandwidth name limit w"
  by (auto simp: reset_usage_def on_auth_def total_usage_def cached_bandwidth_def put_bandwidth_def set_tracker_def
      get_usage_def usage_of_state_def update_conv' Let_def split: option.splits prod.splits)

subsection \<open>Properties\<close>

text \<open>C31: a size is parsed exactly or refused. For a decimal number followed by one of the units of the
  configuration, the parser returns the product when it fits 64 bits and nothing when it does not: no size
  is ever wrapped around.\<close>

theorem parse_size_exact:
  assumes "unit_of u = Some f"
  shows "parse_size (show_nat v @ u) = (if v * f < 2 ^ 64 then Some (of_nat (v * f)) else None)"
proof -
  have small: "unat (of_nat k :: u64) = k" if "k < 2 ^ 64" for k
    using that by (simp add: unat_of_nat)
  have "f < 2 ^ 64" using size_unit_printed [OF assms] by blast
  then have f: "unat (of_nat f :: u64) = f" by (rule small)
  have pos: "f \<noteq> 0" using assms by (auto simp: unit_of_def split: if_splits)
  have mul: "checked_mul (of_nat v) (of_nat f) = (if v * f < 2 ^ 64 then Some (of_nat (v * f)) else None)" if "v < 2 ^ 64"
    unfolding checked_mul_def f small [OF that] of_nat_mult by (rule refl)
  have "v \<le> v * f" using pos by simp
  then have big: "\<not> v * f < 2 ^ 64" if "\<not> v < 2 ^ 64" using that by linarith
  from size_unit_printed [OF assms, of v] show ?thesis
    using mul big by (simp add: parse_size_def Let_def parse_u64_def str_trim_show_nat parse_uint_show_nat)
qed

theorem parse_size_exact_witness: "parse_size ''3k'' = Some 3072"
proof -
  have "show_nat 3 = ''3''" by code_simp
  moreover have "unit_of ''k'' = Some (2 ^ 10)" by (simp add: unit_of_def)
  ultimately show ?thesis using parse_size_exact [of "''k''" "2 ^ 10" 3] by simp
qed

text \<open>C30: the limit on bandwidth holds. As long as the transfers of a user are each checked and recorded one after
  the other, the usage recorded for the user is never more than the limit, whatever the sizes of the
  transfers are: the sums of 64-bit counters do not wrap around, and neither windows that expire, resets nor
  other users change that.\<close>

theorem bandwidth_limit_respected:
  assumes "transfer_run name w w'" and "cached_bandwidth name limit w" and "unat limit < 2 ^ 64 - 1"
    and "total_usage w name \<le> unat limit"
  shows "total_usage w' name \<le> unat limit"
proof -
  have "total_usage w' name \<le> unat limit \<and> cached_bandwidth name limit w'"
    using assms(1)
  proof (induction rule: transfer_run.induct)
    case start
    then show ?case using assms by simp
  next
    case (transferred w1 X bytes w2 Y is_upload)
    with checked_bandwidth [OF _ _ assms(3)] have
      "total_usage w2 name + unat bytes \<le> unat limit" "cached_bandwidth name limit w2" by blast+
    with recorded_bandwidth [of w2 name bytes limit] show ?case by (simp add: record_bandwidth_def Let_def)
  next
    case (refused w1 X bytes w2)
    with checked_bandwidth [OF _ _ assms(3)] show ?case by blast
  next
    case (other w1 other X bytes is_upload)
    then show ?case by (simp add: record_bandwidth_def Let_def)
  next
    case (reset w1 X who)
    with reset_bandwidth [of X who w1 name limit] show ?case by linarith
  qed
  then show ?thesis by blast
qed

theorem bandwidth_limit_respected_witness:
  "total_usage (record_bandwidth sample_ext ''u'' 90 True
     (snd (check_bandwidth sample_ext ''u'' 90 limited_server))) ''u'' \<le> 100"
proof -
  let ?w = "snd (check_bandwidth sample_ext ''u'' 90 limited_server)"
  have c: "cached_bandwidth ''u'' 100 limited_server" "total_usage limited_server ''u'' \<le> unat (100 :: u64)"
    by (simp_all add: cached_bandwidth_def limited_server_def set_tracker_def one_connection_def sample_server_def
        new_tracker_def total_usage_def get_usage_def default_user_usage_def)
  have "fst (check_bandwidth sample_ext ''u'' 90 limited_server) = Inr Allowed"
    by (simp add: check_bandwidth_def bind_res_def get_effective_limits_def limited_server_def set_tracker_def
        one_connection_def sample_server_def new_tracker_def window_expired_def bandwidth_entry_def
        default_bandwidth_state_def saturating_add_def)
  then have "check_bandwidth sample_ext ''u'' 90 limited_server = (Inr Allowed, ?w)" by (metis prod.collapse)
  then have "transfer_run ''u'' limited_server (record_bandwidth sample_ext ''u'' 90 True ?w)"
    by (rule transfer_run.transferred [OF transfer_run.start])
  from bandwidth_limit_respected [OF this c(1) _ c(2)] show ?thesis by simp
qed

text \<open>The size limit of a group is the one of its own rule, or else of the most specific rule whose pattern
  matches: among the matching rules with a limit there is none with fewer wildcards, nor one with as many
  and a longer pattern, and of equally specific rules the first in the file counts. Without a matching
  rule there is no limit.\<close>

theorem most_specific_rule_decides:
  assumes "Option.bind (List.find (\<lambda>r. rule_group r = Some grp) (cfg_group_settings c)) rule_max_article_bytes = None"
  shows "size_rules X c grp = [] \<and> max_size_for_group X c grp = None \<or>
     (\<exists>r n. List.find (\<lambda>r'. pattern_key r' = pattern_key r) (size_rules X c grp) = Some r \<and>
        rule_max_article_bytes r = Some n \<and> max_size_for_group X c grp = Some n \<and>
        (\<forall>r' \<in> set (size_rules X c grp). pattern_key r \<le> pattern_key r'))"
proof (cases "sort_key pattern_key (size_rules X c grp)")
  case Nil
  then have "size_rules X c grp = []" by (metis length_0_conv length_sort)
  with assms show ?thesis by (simp add: max_size_for_group_def size_rules_def)
next
  case (Cons r rs)
  from sort_key_hd [OF this] have "rule_max_article_bytes r \<noteq> None" by (simp add: size_rules_def)
  with Cons sort_key_hd [OF Cons] sort_key_hd_first [OF Cons] assms show ?thesis
    by (auto simp: max_size_for_group_def size_rules_def)
qed

definition any_rule :: group_rule where
  "any_rule = \<lparr>rule_group = None, rule_pattern = Some ''*'', rule_retention_days = None, rule_max_article_bytes = Some 100\<rparr>"

definition misc_rule :: group_rule where
  "misc_rule = \<lparr>rule_group = None, rule_pattern = Some ''misc.*'', rule_retention_days = None, rule_max_article_bytes = Some 7\<rparr>"

theorem most_specific_rule_decides_witness:
  "max_size_for_group sample_ext (sample_config\<lparr>cfg_group_settings := [any_rule, misc_rule]\<rparr>) ''misc.test'' = Some 7"
proof -
  let ?c = "sample_config\<lparr>cfg_group_settings := [any_rule, misc_rule]\<rparr>"
  have "wildmat sample_ext ''*'' ''misc.test''" "wildmat sample_ext ''misc.*'' ''misc.test''" by code_simp+
  then have rules: "size_rules sample_ext ?c ''misc.test'' = [any_rule, misc_rule]"
    by (simp add: size_rules_def pattern_matches_def any_rule_def misc_rule_def)
  have key: "\<not> pattern_key any_rule \<le> pattern_key misc_rule" by code_simp
  have "Option.bind (List.find (\<lambda>r. rule_group r = Some ''misc.test'') (cfg_group_settings ?c)) rule_max_article_bytes = None"
    by (simp add: any_rule_def misc_rule_def)
  from most_specific_rule_decides [OF this, of sample_ext, unfolded rules] obtain r n where
    r: "List.find (\<lambda>r'. pattern_key r' = pattern_key r) [any_rule, misc_rule] = Some r"
    "rule_max_article_bytes r = Some n" "max_size_for_group sample_ext ?c ''misc.test'' = Some n"
    "pattern_key r \<le> pattern_key misc_rule" by (meson list.simps(3) list.set_intros)
  have "r \<noteq> any_rule" using r(4) key by auto
  then have "r = misc_rule" using find_SomeD [OF r(1)] by simp
  with r show ?thesis by (simp add: misc_rule_def)
qed

end
