(* ===== verification/Bridge.thy ===== *)
theory Bridge
  imports Context
begin

text \<open>
  The WebSocket bridge, \<^verbatim>\<open>src/src/ws.rs\<close>: it copies what a WebSocket client sends to a connection with the news
  server, and what the server sends to the client. The WebSocket protocol is a library: a client is the list
  of the messages that are read from it, up to the end of the stream. \<open>reads\<close> is what the reads from the news
  server return, each at most 1024 bytes, an empty one at the end of the stream; when the list is used up
  the bridge waits, which is the value \<open>None\<close>.
\<close>

definition port_from_addr :: "string \<Rightarrow> nat \<Rightarrow> nat" where
  "port_from_addr addr default_port =
     (case Option.bind (strip_prefix addr ''['') (split_once CHR '']'') of
        Some (_, rest) \<Rightarrow>
          (case Option.bind (strip_prefix rest '':'') (parse_uint 16) of
             Some port \<Rightarrow> port
           | None \<Rightarrow> default_port)
      | None \<Rightarrow>
          (case rsplit_once CHR '':'' addr of
             Some (_, p) \<Rightarrow>
               if list_all is_ascii_digit p
               then (case parse_uint 16 p of Some port \<Rightarrow> port | None \<Rightarrow> default_port)
               else default_port
           | None \<Rightarrow> default_port))"

datatype ws_message = WsText string | WsBinary string | WsClose | WsOther

record nntp_side =
  nntp_writer :: writer
  nntp_shut :: bool

definition nntp_write_all :: "string \<Rightarrow> (nntp_side, unit) action" where
  "nntp_write_all bytes s =
     (case takes (nntp_writer s) of
        None \<Rightarrow> (Inr (), s\<lparr>nntp_writer := (nntp_writer s)\<lparr>sent := sent (nntp_writer s) @ bytes\<rparr>\<rparr>)
      | Some n \<Rightarrow>
          (if length bytes \<le> n then Inr () else Inl Io,
           s\<lparr>nntp_writer := \<lparr>sent = sent (nntp_writer s) @ take n bytes, takes = Some (n - length bytes)\<rparr>\<rparr>))"

definition shutdown_write :: "(nntp_side, unit) action" where
  "shutdown_write s = (Inr (), s\<lparr>nntp_shut := True\<rparr>)"

fun to_nntp :: "ws_message result list \<Rightarrow> (nntp_side, unit) action" where
  "to_nntp [] = shutdown_write"
| "to_nntp (Inl e # msgs) = throw e"
| "to_nntp (Inr (WsText t) # msgs) = bind_res (nntp_write_all t) (\<lambda>_. to_nntp msgs)"
| "to_nntp (Inr (WsBinary b) # msgs) = bind_res (nntp_write_all b) (\<lambda>_. to_nntp msgs)"
| "to_nntp (Inr WsClose # msgs) = shutdown_write"
| "to_nntp (Inr WsOther # msgs) = to_nntp msgs"

record ws_side =
  ws_sent :: "ws_message list"
  ws_takes :: "nat option"

definition ws_send :: "ws_message \<Rightarrow> (ws_side, unit) action" where
  "ws_send msg s =
     (case ws_takes s of
        None \<Rightarrow> (Inr (), s\<lparr>ws_sent := ws_sent s @ [msg]\<rparr>)
      | Some 0 \<Rightarrow> (Inl Io, s)
      | Some (Suc n) \<Rightarrow> (Inr (), \<lparr>ws_sent = ws_sent s @ [msg], ws_takes = Some n\<rparr>))"

fun from_nntp :: "string result list \<Rightarrow> ws_side \<Rightarrow> (unit result \<times> ws_side) option" where
  "from_nntp [] s = None"
| "from_nntp (Inl e # reads) s = Some (Inl e, s)"
| "from_nntp (Inr buf # reads) s =
     (if buf = [] then Some (Inr (), s)
      else case ws_send (WsBinary buf) s of
             (Inl e, s') \<Rightarrow> Some (Inl e, s')
           | (Inr _, s') \<Rightarrow> from_nntp reads s')"

text \<open>\<^verbatim>\<open>handle_client\<close>: the copying towards the server is a task of its own, whose outcome is ignored.\<close>

definition ws_handle_client ::
  "ws_message result list \<Rightarrow> string result list \<Rightarrow> ws_side \<Rightarrow> nntp_side \<Rightarrow> (unit result \<times> ws_side \<times> nntp_side) option" where
  "ws_handle_client msgs reads client server =
     (let server' = snd (to_nntp msgs server)
      in case from_nntp reads client of
           None \<Rightarrow> None
         | Some (Inl e, client') \<Rightarrow> Some (Inl e, client', server')
         | Some (Inr _, client') \<Rightarrow>
             (case ws_send WsClose client' of (r, client'') \<Rightarrow> Some (r, client'', server')))"

subsection \<open>Properties\<close>

fun payload :: "ws_message \<Rightarrow> string" where
  "payload (WsText t) = t"
| "payload (WsBinary b) = b"
| "payload _ = []"

lemma to_nntp_open:
  "takes (nntp_writer s) = None \<Longrightarrow>
     to_nntp (map Inr msgs) s = (Inr (), s\<lparr>nntp_writer := (nntp_writer s)
       \<lparr>sent := sent (nntp_writer s) @ concat (map payload (takeWhile (\<lambda>m. m \<noteq> WsClose) msgs))\<rparr>, nntp_shut := True\<rparr>)"
proof (induction msgs arbitrary: s)
  case Nil
  then show ?case by (simp add: shutdown_write_def)
next
  case (Cons m msgs)
  then show ?case by (cases m) (simp_all add: bind_res_def nntp_write_all_def shutdown_write_def)
qed

lemma from_nntp_open:
  "ws_takes s = None \<Longrightarrow> [] \<notin> set bufs \<Longrightarrow>
     from_nntp (map Inr bufs @ Inr [] # later) s = Some (Inr (), s\<lparr>ws_sent := ws_sent s @ map WsBinary bufs\<rparr>)"
  by (induction bufs arbitrary: s) (auto simp: ws_send_def)

text \<open>C32: the bridge is transparent. While both connections work, the news server receives exactly the text and
  binary payloads the client sent before it closed, in order, and then the end of the stream; and the client
  receives exactly the bytes the server sent up to its end of the stream, followed by the closing message.\<close>

theorem bridge_is_transparent:
  assumes "takes (nntp_writer server) = None" and "ws_takes client = None" and "[] \<notin> set bufs"
  shows "\<exists>client' server'.
     ws_handle_client (map Inr msgs) (map Inr bufs @ Inr [] # later) client server = Some (Inr (), client', server') \<and>
     sent (nntp_writer server') = sent (nntp_writer server) @
       concat (map payload (takeWhile (\<lambda>m. m \<noteq> WsClose) msgs)) \<and> nntp_shut server' \<and>
     (\<exists>new. ws_sent client' = ws_sent client @ new @ [WsClose] \<and> concat (map payload new) = concat bufs)"
proof -
  have "concat (map payload (map WsBinary bufs)) = concat bufs" by (simp add: comp_def)
  then show ?thesis
    using to_nntp_open [OF assms(1)] from_nntp_open [OF assms(2,3)] assms(2)
    by (simp add: ws_handle_client_def ws_send_def)
qed

theorem bridge_is_transparent_witness:
  "\<exists>client' server'. ws_handle_client [Inr (WsText ''QUIT''), Inr WsClose, Inr (WsText ''no'')] [Inr ''205'', Inr []]
       \<lparr>ws_sent = [], ws_takes = None\<rparr> \<lparr>nntp_writer = \<lparr>sent = [], takes = None\<rparr>, nntp_shut = False\<rparr> =
       Some (Inr (), client', server') \<and> sent (nntp_writer server') = ''QUIT''"
  using bridge_is_transparent [of "\<lparr>nntp_writer = \<lparr>sent = [], takes = None\<rparr>, nntp_shut = False\<rparr>"
      "\<lparr>ws_sent = [], ws_takes = None\<rparr>" "[''205'']" "[WsText ''QUIT'', WsClose, WsText ''no'']" "[]"]
  by auto

end
