(* ===== verification/Response_Format.thy ===== *)
theory Response_Format
  imports Handler_Invariants Sample_Server
begin

text \<open>
  The form of responses. \<open>quiet\<close> operations write nothing, \<open>says Q m\<close> bounds what \<open>m\<close> writes to a connection that does not
  break when it succeeds; their rules follow the structure of the handlers, so that each handler is shown to
  answer with a response: a status line with a three-digit code, and whole lines up to the end.
\<close>

named_theorems quiet_intros "operations that write nothing"
named_theorems says_intros "what operations write"

subsection \<open>Texts\<close>

text \<open>Text made of lines that are ended:\<close>

definition whole_lines :: "string \<Rightarrow> bool" where
  "whole_lines t \<longleftrightarrow> t = [] \<or> ends_with t CRLF"

definition status_digits :: "string \<Rightarrow> bool" where
  "status_digits t = (case t of
     a # b # c # sp # _ \<Rightarrow> a \<in> set ''12345'' \<and> is_ascii_digit b \<and> is_ascii_digit c \<and> sp = CHR '' ''
   | _ \<Rightarrow> False)"

definition is_response :: "string \<Rightarrow> bool" where
  "is_response t \<longleftrightarrow> status_digits t \<and> ends_with t CRLF"

lemma whole_lines_Nil [simp]: "whole_lines []"
  by (simp add: whole_lines_def)

lemma ends_with_iff: "ends_with t p \<longleftrightarrow> (\<exists>r. t = r @ p)"
  by (metis append_take_drop_id ends_with_append ends_with_def)

lemma whole_lines_append [intro]: "whole_lines a \<Longrightarrow> whole_lines b \<Longrightarrow> whole_lines (a @ b)"
  unfolding whole_lines_def ends_with_iff by (metis append.assoc append_Nil2)

lemma is_response_lines: "is_response t \<Longrightarrow> whole_lines t"
  by (simp add: is_response_def whole_lines_def)

lemma status_digits_append: "status_digits a \<Longrightarrow> status_digits (a @ b)"
  by (auto simp: status_digits_def split: list.splits)

lemma is_response_append [intro]: "is_response a \<Longrightarrow> whole_lines b \<Longrightarrow> is_response (a @ b)"
  using whole_lines_append [OF is_response_lines] status_digits_append
  by (fastforce simp: is_response_def whole_lines_def)

lemma is_responseI: "status_digits a \<Longrightarrow> is_response (a @ b @ CRLF)"
  using status_digits_append [of a "b @ CRLF"] ends_with_append [of "a @ b" CRLF] by (simp add: is_response_def)

lemma whole_linesI: "whole_lines (a @ CRLF)"
  by (simp add: whole_lines_def)

subsection \<open>Operations that write nothing\<close>

definition quiet :: "('e, ctx, 'a) fallible \<Rightarrow> bool" where
  "quiet m \<longleftrightarrow> (\<forall>w. keeps (\<lambda>c. writer c = w) m)"

lemma quietI: "(\<And>w. keeps (\<lambda>c. writer c = w) m) \<Longrightarrow> quiet m"
  by (simp add: quiet_def)

lemma quietD: "quiet m \<Longrightarrow> m c = (r, c') \<Longrightarrow> writer c' = writer c"
  using keepsD' [of "\<lambda>c'. writer c' = writer c" m c r c'] by (simp add: quiet_def)

lemma quiet_parts [quiet_intros]:
  "quiet (on_storage m)" "quiet (on_auth n)" "quiet get_session" "quiet (set_session f)" "quiet (ret x)"
  "quiet (throw e)"
  by (auto simp: quiet_def keeps_def on_storage_def on_auth_def get_session_def set_session_def split: prod.splits)

lemma quiet_bind [quiet_intros]: "quiet m \<Longrightarrow> (\<And>x. quiet (k x)) \<Longrightarrow> quiet (bind_res m k)"
  unfolding quiet_def by (blast intro: keeps_bind)

lemma quiet_if [quiet_intros]: "quiet m \<Longrightarrow> quiet n \<Longrightarrow> quiet (if b then m else n)"
  by simp

lemma quiet_option [quiet_intros]:
  "quiet m \<Longrightarrow> (\<And>x. quiet (f x)) \<Longrightarrow> quiet (case v of None \<Rightarrow> m | Some x \<Rightarrow> f x)"
  by (cases v) auto

lemma quiet_prod [quiet_intros]: "(\<And>x y. quiet (f x y)) \<Longrightarrow> quiet (case v of (x, y) \<Rightarrow> f x y)"
  by (cases v) auto

lemma quiet_wrapped [quiet_intros]:
  "quiet m \<Longrightarrow> quiet (map_err e m)" "quiet m \<Longrightarrow> quiet (ok_of m)" "quiet n \<Longrightarrow> quiet (succeeds n)"
  unfolding quiet_def by (blast intro: keeps_map_err keeps_ok_of succeeds_keeps)+

lemma quiet_limits [quiet_intros]: "quiet (get_effective_limits u)"
  by (auto simp: quiet_def keeps_def get_effective_limits_def on_auth_def set_tracker_def
      split: option.splits prod.splits sum.splits)

lemma quiet_tracker [quiet_intros]:
  "quiet (try_connect u)" "quiet (check_bandwidth Y u n)" "quiet (tracker_can_post u)" "quiet (load_user Y u)"
  "quiet (record_bandwidth_usage Y k b)"
proof -
  show "quiet (try_connect u)"
    unfolding try_connect_def
    by (intro quiet_intros) (auto simp: quiet_def keeps_def Let_def set_tracker_def split: option.splits)
  show "quiet (check_bandwidth Y u n)"
    unfolding check_bandwidth_def
    by (intro quiet_intros)
       (auto simp: quiet_def keeps_def Let_def put_bandwidth_def set_tracker_def split: option.splits sum.splits)
  show "quiet (tracker_can_post u)"
    unfolding tracker_can_post_def by (intro quiet_intros)
  show "quiet (load_user Y u)"
    by (auto simp: quiet_def keeps_def load_user_def on_auth_def put_bandwidth_def set_tracker_def
        split: option.splits prod.splits sum.splits)
  show "quiet (record_bandwidth_usage Y k b)"
    by (auto simp: quiet_def keeps_def record_bandwidth_usage_def record_bandwidth_def Let_def put_bandwidth_def
        set_tracker_def split: option.splits)
qed

lemma worker_stable_writer: "worker_stable X (\<lambda>c :: ctx. writer c = w)"
proof -
  have "only_keys X ks c c' \<Longrightarrow> writer c' = writer c" for ks and c c' :: ctx
    by (cases c; cases c') (simp add: only_keys_def)
  then show ?thesis
    unfolding worker_stable_def by (auto intro!: keeps_on_storage_frame keeps_on_auth_frame)
qed

lemma quiet_validation [quiet_intros]:
  "quiet (comprehensive_validate_article X cfg a sz)" "quiet (handle_control X msg cfg)"
  unfolding quiet_def
  using worker_stable_parts(1) [OF worker_stable_writer moves_validate_article]
    Queue_Properties.keeps_handle_control [OF worker_stable_writer]
  by (simp_all add: validate_article_def [abs_def])

subsection \<open>What operations write\<close>

definition says :: "('a \<Rightarrow> string \<Rightarrow> bool) \<Rightarrow> 'a waiting \<Rightarrow> bool" where
  "says Q m \<longleftrightarrow> (\<forall>c r c'. takes (writer c) = None \<longrightarrow> m c = Some (r, c') \<longrightarrow>
     takes (writer c') = None \<and>
     (\<exists>t. sent (writer c') = sent (writer c) @ t \<and> (\<forall>x. r = Inr x \<longrightarrow> Q x t)))"

abbreviation answers :: "'a waiting \<Rightarrow> bool" where
  "answers \<equiv> says (\<lambda>_. is_response)"

abbreviation adds_lines :: "'a waiting \<Rightarrow> bool" where
  "adds_lines \<equiv> says (\<lambda>_. whole_lines)"

lemma saysD:
  assumes "says Q m" and "takes (writer c) = None" and "m c = Some (r, c')"
  obtains t where "takes (writer c') = None" "sent (writer c') = sent (writer c) @ t" "\<And>x. r = Inr x \<Longrightarrow> Q x t"
proof -
  from assms have "takes (writer c') = None \<and>
      (\<exists>t. sent (writer c') = sent (writer c) @ t \<and> (\<forall>x. r = Inr x \<longrightarrow> Q x t))"
    by (simp add: says_def)
  with that show thesis by blast
qed

lemma says_weaken: "says R m \<Longrightarrow> (\<And>x t. R x t \<Longrightarrow> Q x t) \<Longrightarrow> says Q m"
  unfolding says_def by metis

lemma says_quiet: "quiet m \<Longrightarrow> says (\<lambda>_ t. t = []) (now m)"
  by (auto simp: says_def now_def dest: quietD)

lemma says_write_all: "says (\<lambda>_ s. s = t) (now (write_all t))"
  by (auto simp: says_def now_def write_all_def)

lemma says_bind:
  assumes "says R m" and "\<And>x. says (Q' x) (k x)"
    and "\<And>x y t u. R x t \<Longrightarrow> Q' x y u \<Longrightarrow> Q y (t @ u)"
  shows "says Q (bind_wait m k)"
  unfolding says_def
proof (intro allI impI)
  fix c r c' assume c: "takes (writer c) = None" and run: "bind_wait m k c = Some (r, c')"
  then obtain r1 c1 where m: "m c = Some (r1, c1)" by (auto simp: bind_wait_def split: option.splits)
  obtain t where 1: "takes (writer c1) = None" "sent (writer c1) = sent (writer c) @ t" "\<And>x. r1 = Inr x \<Longrightarrow> R x t"
    using saysD [OF assms(1) c m] by blast
  show "takes (writer c') = None \<and> (\<exists>t. sent (writer c') = sent (writer c) @ t \<and> (\<forall>x. r = Inr x \<longrightarrow> Q x t))"
  proof (cases r1)
    case (Inl e)
    with run m 1 show ?thesis by (auto simp: bind_wait_def)
  next
    case (Inr x)
    with run m have k: "k x c1 = Some (r, c')" by (simp add: bind_wait_def)
    obtain u where "takes (writer c') = None" "sent (writer c') = sent (writer c1) @ u" "\<And>y. r = Inr y \<Longrightarrow> Q' x y u"
      using saysD [OF assms(2) 1(1) k] by blast
    with 1 Inr assms(3) show ?thesis by auto
  qed
qed

lemma now_bind: "now (bind_res m k) = bind_wait (now m) (\<lambda>x. now (k x))"
  by (auto simp: fun_eq_iff now_def bind_res_def bind_wait_def split: prod.splits sum.splits)

lemma says_if [says_intros]: "says Q m \<Longrightarrow> says Q n \<Longrightarrow> says Q (if b then m else n)"
  by simp

lemma says_now_if [says_intros]: "says Q (now m) \<Longrightarrow> says Q (now n) \<Longrightarrow> says Q (now (if b then m else n))"
  by simp

lemma says_cases [says_intros]:
  "says Q m \<Longrightarrow> (\<And>x. says Q (f x)) \<Longrightarrow> says Q (case v of None \<Rightarrow> m | Some x \<Rightarrow> f x)"
  "(\<And>x y. says Q (g x y)) \<Longrightarrow> says Q (case p of (x, y) \<Rightarrow> g x y)"
  "says Q m \<Longrightarrow> (\<And>x xs. says Q (h x xs)) \<Longrightarrow> says Q (case l of [] \<Rightarrow> m | x # xs \<Rightarrow> h x xs)"
  by (cases v; cases p; cases l; simp)+

lemma says_now_cases [says_intros]:
  "says Q (now m) \<Longrightarrow> (\<And>x. says Q (now (f x))) \<Longrightarrow> says Q (now (case v of None \<Rightarrow> m | Some x \<Rightarrow> f x))"
  "(\<And>x y. says Q (now (g x y))) \<Longrightarrow> says Q (now (case p of (x, y) \<Rightarrow> g x y))"
  "says Q (now m) \<Longrightarrow> (\<And>x xs. says Q (now (h x xs))) \<Longrightarrow> says Q (now (case l of [] \<Rightarrow> m | x # xs \<Rightarrow> h x xs))"
  "(\<And>x. says Q (now (a x))) \<Longrightarrow> (\<And>x. says Q (now (b x))) \<Longrightarrow> says Q (now (case s of Inl x \<Rightarrow> a x | Inr x \<Rightarrow> b x))"
  by (cases v; cases p; cases l; cases s; simp)+

text \<open>Writing nothing first, a response and then lines, lines and then lines:\<close>

lemma quiet_then:
  "quiet m \<Longrightarrow> (\<And>x. says Q (k x)) \<Longrightarrow> says Q (bind_wait (now m) k)"
  by (rule says_bind [OF says_quiet]) auto

lemma quiet_then_now:
  "quiet m \<Longrightarrow> (\<And>x. says Q (now (k x))) \<Longrightarrow> says Q (now (bind_res m k))"
  unfolding now_bind by (rule quiet_then)

lemma answer_then: "answers m \<Longrightarrow> (\<And>x. adds_lines (k x)) \<Longrightarrow> answers (bind_wait m k)"
  by (rule says_bind [where R = "\<lambda>_. is_response" and Q' = "\<lambda>_ _. whole_lines"]) (auto intro: is_response_append)

lemma answer_then_now: "answers (now m) \<Longrightarrow> (\<And>x. adds_lines (now (k x))) \<Longrightarrow> answers (now (bind_res m k))"
  unfolding now_bind by (rule answer_then)

lemma lines_then: "adds_lines (now m) \<Longrightarrow> (\<And>x. adds_lines (now (k x))) \<Longrightarrow> adds_lines (now (bind_res m k))"
  unfolding now_bind
  by (rule says_bind [where R = "\<lambda>_. whole_lines" and Q' = "\<lambda>_ _. whole_lines"]) (auto intro: whole_lines_append)

lemma answers_write: "is_response t \<Longrightarrow> answers (now (write_all t))" "is_response t \<Longrightarrow> answers (now (write_simple t))"
  unfolding write_simple_def by (rule says_weaken [OF says_write_all], simp)+

lemma lines_write: "whole_lines t \<Longrightarrow> adds_lines (now (write_all t))" "whole_lines t \<Longrightarrow> adds_lines (now (write_simple t))"
  unfolding write_simple_def by (rule says_weaken [OF says_write_all], simp)+

lemma lines_quiet: "quiet m \<Longrightarrow> adds_lines (now m)"
  by (rule says_weaken [OF says_quiet]) auto

lemma lines_for_each: "(\<And>x. adds_lines (now (f x))) \<Longrightarrow> adds_lines (now (for_each f xs))"
proof (induction xs)
  case Nil
  have "for_each f [] = ret ()" by (simp add: fun_eq_iff)
  show ?case unfolding \<open>for_each f [] = ret ()\<close> by (intro lines_quiet quiet_intros)
next
  case (Cons x xs)
  have "for_each f (x # xs) = bind_res (f x) (\<lambda>_. for_each f xs)" by (simp add: fun_eq_iff)
  with Cons show ?case by (simp add: lines_then)
qed

lemma says_match_query:
  assumes "quiet q" and "\<And>e. says Q (now (h e))" and "\<And>c c' x. q c = (Inr x, c') \<Longrightarrow> says Q (now (k x))"
  shows "says Q (now (match_query q h k))"
  unfolding says_def
proof (intro allI impI)
  fix c r c' assume c: "takes (writer c) = None" and run: "now (match_query q h k) c = Some (r, c')"
  obtain r1 c1 where q: "q c = (r1, c1)" by fastforce
  with assms(1) have w: "writer c1 = writer c" by (rule quietD)
  obtain m where m: "says Q (now m)" "now m c1 = Some (r, c')"
  proof (cases r1)
    case (Inl e)
    with q run that [OF assms(2) [of e]] show ?thesis by (simp add: match_query_def now_def)
  next
    case (Inr x)
    with q run that [OF assms(3) [of c x c1]] show ?thesis by (simp add: match_query_def now_def)
  qed
  from saysD [OF this(1) _ this(2)] c w
  show "takes (writer c') = None \<and> (\<exists>t. sent (writer c') = sent (writer c) @ t \<and> (\<forall>x. r = Inr x \<longrightarrow> Q x t))"
    by (metis)
qed

subsection \<open>The texts of the responses\<close>

named_theorems response_texts "texts that are responses"

lemma response_constants [response_texts]:
  "is_response RESP_200_READY" "is_response RESP_201_READY_NO_POST" "is_response RESP_200_POSTING_ALLOWED"
  "is_response RESP_201_POSTING_PROHIBITED" "is_response RESP_203_STREAMING" "is_response RESP_205_CLOSING"
  "is_response RESP_224_OVERVIEW" "is_response RESP_225_HEADERS" "is_response RESP_211_LISTGROUP"
  "is_response RESP_215_LIST_FOLLOWS" "is_response RESP_215_DESCRIPTIONS" "is_response RESP_215_INFO_FOLLOWS"
  "is_response RESP_215_OVERVIEW_FMT" "is_response RESP_215_METADATA" "is_response RESP_221_HEADER_FOLLOWS"
  "is_response RESP_230_NEWNEWS" "is_response RESP_231_NEWGROUPS" "is_response RESP_235_TRANSFER_OK"
  "is_response RESP_240_ARTICLE_RECEIVED" "is_response RESP_281_AUTH_OK" "is_response RESP_290_PASSWORD_OK"
  "is_response RESP_340_SEND_ARTICLE" "is_response RESP_335_SEND_IT" "is_response RESP_381_PASSWORD_REQ"
  "is_response RESP_403_BANDWIDTH_EXCEEDED" "is_response RESP_411_NO_SUCH_GROUP" "is_response RESP_412_NO_GROUP"
  "is_response RESP_420_NO_CURRENT" "is_response RESP_421_NO_NEXT" "is_response RESP_422_NO_PREV"
  "is_response RESP_423_RANGE_EMPTY" "is_response RESP_423_NO_ARTICLE_NUM" "is_response RESP_430_NO_ARTICLE"
  "is_response RESP_435_NOT_WANTED" "is_response RESP_437_REJECTED" "is_response RESP_440_POST_PROHIBITED"
  "is_response RESP_441_POSTING_FAILED" "is_response RESP_480_AUTH_REQUIRED"
  "is_response RESP_481_AUTH_REJECTED" "is_response RESP_481_CONN_LIMIT" "is_response RESP_483_SECURE_REQ"
  "is_response RESP_500_SYNTAX" "is_response RESP_500_UNKNOWN_CMD" "is_response RESP_501_SYNTAX"
  "is_response RESP_501_INVALID_ID" "is_response RESP_501_INVALID_ARG" "is_response RESP_501_INVALID_DATE"
  "is_response RESP_501_MSGID_REQUIRED" "is_response RESP_501_NOT_ENOUGH" "is_response RESP_501_UNKNOWN_KEYWORD"
  "is_response RESP_501_UNKNOWN_MODE" "is_response RESP_501_MISSING_MODE" "is_response RESP_503_NOT_SUPPORTED"
  "is_response RESP_101_CAPABILITIES" "is_response RESP_100_HELP_FOLLOWS"
  by code_simp+

lemma printed_responses [response_texts]:
  "is_response (''211 '' @ show_nat i @ '' '' @ show_nat j @ '' '' @ show_nat k @ '' '' @ g @ CRLF)"
  "is_response (''223 '' @ show_nat i @ '' '' @ g @ '' article exists'' @ CRLF)"
  "is_response (''111 '' @ g @ CRLF)" "is_response (to_response e)"
  "code \<in> {238, 239, 438, 439} \<Longrightarrow> is_response (streaming_response code g)"
  "is_response (article_response_line op i a)"
proof -
  have code: "is_response (show_nat code @ '' '' @ t @ CRLF)" if "status_digits (show_nat code @ '' '')" for code t
    using is_responseI [OF that, of t] by simp
  have group: "status_digits ''211 ''" "status_digits ''223 ''" "status_digits ''111 ''" by code_simp+
  show "is_response (''211 '' @ show_nat i @ '' '' @ show_nat j @ '' '' @ show_nat k @ '' '' @ g @ CRLF)"
    using is_responseI [OF group(1), of "show_nat i @ '' '' @ show_nat j @ '' '' @ show_nat k @ '' '' @ g"] by simp
  show "is_response (''223 '' @ show_nat i @ '' '' @ g @ '' article exists'' @ CRLF)"
    using is_responseI [OF group(2), of "show_nat i @ '' '' @ g @ '' article exists''"] by simp
  show "is_response (''111 '' @ g @ CRLF)" using is_responseI [OF group(3)] by simp
  have codes: "response_code e \<in> {430, 411, 403, 441, 480, 481, 440, 500}"
    by (induction e rule: response_code.induct) simp_all
  have digits: "status_digits (show_nat n @ '' '')"
    if "n \<in> {430, 411, 403, 441, 480, 481, 440, 500, 238, 239, 438, 439, 220, 221, 222, 223}" for n
  proof -
    have "\<forall>n \<in> set [430, 411, 403, 441, 480, 481, 440, 500, 238, 239, 438, 439, 220, 221, 222, 223].
        status_digits (show_nat n @ '' '')" by code_simp
    with that show ?thesis by auto
  qed
  show "is_response (to_response e)"
    unfolding to_response_def using codes by (intro code digits) auto
  show "is_response (streaming_response code g)" if "code \<in> {238, 239, 438, 439}"
    unfolding streaming_response_def using that by (intro code digits) auto
  have "operation_response_code op \<in> {220, 221, 222, 223}" by (cases op) simp_all
  then have "is_response (show_nat (operation_response_code op) @ '' '' @
      (show_nat i @ '' '' @ unwrap_or_default (extract_message_id a) @ '' '' @ response_suffix op) @ CRLF)"
    by (intro code digits) auto
  then show "is_response (article_response_line op i a)" by (simp add: article_response_line_def)
qed

lemma navigation_responses [response_texts]: "is_response (error_response d)"
  by (cases d) (simp_all add: response_texts)

text \<open>Lines that follow a response:\<close>

lemma line_texts:
  "whole_lines RESP_DOT_CRLF" "whole_lines (article_content op a)" "whole_lines (value_line v)"
  "whole_lines (a1 @ CRLF)" "whole_lines (a1 @ a2 @ CRLF)" "whole_lines (a1 @ a2 @ a3 @ CRLF)"
  "whole_lines (a1 @ a2 @ a3 @ a4 @ CRLF)" "whole_lines (a1 @ a2 @ a3 @ a4 @ a5 @ CRLF)"
  "whole_lines (a1 @ a2 @ a3 @ a4 @ a5 @ a6 @ CRLF)"
proof -
  have "whole_lines (t @ RESP_DOT_CRLF)" for t
    by (simp add: RESP_DOT_CRLF_def whole_lines_def ends_with_iff)
  from this [of "send_headers a @ RESP_CRLF @ send_body (body a)"] this [of "send_headers a"]
    this [of "send_body (body a)"] this [of "[]"]
  show "whole_lines RESP_DOT_CRLF" "whole_lines (article_content op a)" by (cases op; simp)+
  show "whole_lines (value_line v)"
    by (auto simp: value_line_def whole_lines_def ends_with_iff split: prod.splits option.splits)
qed (simp_all add: whole_lines_def ends_with_iff)

subsection \<open>Commands that do not wait\<close>

text \<open>The rules by the first operation of a sequence:\<close>

lemmas quiet_first [says_intros] = quiet_parts(1-4) [THEN quiet_then_now] quiet_parts(1-4) [THEN quiet_then]

lemma write_first [says_intros]:
  "is_response t \<Longrightarrow> (\<And>x. adds_lines (now (k x))) \<Longrightarrow> answers (now (bind_res (write_all t) k))"
  "is_response t \<Longrightarrow> (\<And>x. adds_lines (now (k x))) \<Longrightarrow> answers (now (bind_res (write_simple t) k))"
  by (intro answer_then_now answers_write; assumption)+

lemma lines_first:
  "whole_lines t \<Longrightarrow> (\<And>x. adds_lines (now (k x))) \<Longrightarrow> adds_lines (now (bind_res (write_all t) k))"
  "(\<And>x. adds_lines (now (f x))) \<Longrightarrow> (\<And>x. adds_lines (now (k x))) \<Longrightarrow> adds_lines (now (bind_res (for_each f xs) k))"
  "adds_lines (now (ret y))"
proof -
  show "whole_lines t \<Longrightarrow> (\<And>x. adds_lines (now (k x))) \<Longrightarrow> adds_lines (now (bind_res (write_all t) k))"
    by (rule lines_then [OF lines_write(1)])
  show "(\<And>x. adds_lines (now (f x))) \<Longrightarrow> (\<And>x. adds_lines (now (k x))) \<Longrightarrow>
      adds_lines (now (bind_res (for_each f xs) k))"
    by (rule lines_then [OF lines_for_each])
  show "adds_lines (now (ret y))" by (rule lines_quiet [OF quiet_parts(5)])
qed

lemmas ending_lines = lines_first lines_for_each lines_write line_texts says_now_if says_now_cases quiet_first

lemma error_answers [says_intros]: "answers (now (handle_article_error e))"
  unfolding handle_article_error_def by (cases e) (simp_all add: answers_write response_texts)

lemma resolve_numbers_quiet: "quiet (resolve_numbers X g ns)"
proof (induction ns)
  case Nil
  then show ?case by (simp add: quiet_def keeps_def)
next
  case (Cons n ns)
  have eq: "resolve_numbers X g (n # ns) =
     bind_res (map_err NotFoundByNumber (on_storage (get_article_by_number X g n))) (\<lambda>found.
       case found of
         Some article \<Rightarrow>
           bind_res (set_session (set_current_article n)) (\<lambda>_.
             bind_res (resolve_numbers X g ns) (\<lambda>rest. ret ((n, article) # rest)))
       | None \<Rightarrow> resolve_numbers X g ns)" by (simp add: fun_eq_iff)
  show ?case unfolding eq by (intro quiet_intros Cons)
qed

lemma resolve_articles_quiet [quiet_intros]: "quiet (resolve_articles X arg)"
  unfolding resolve_articles_def by (intro quiet_intros resolve_numbers_quiet)

lemma resolve_articles_found: "resolve_articles X arg c = (Inr found, c') \<Longrightarrow> found \<noteq> []"
  by (auto simp: resolve_articles_def bind_res_def get_session_def split: option.splits if_splits prod.splits sum.splits)

lemma send_articles_lines: "adds_lines (now (send_articles X op u as))"
  and send_articles_answers: "as \<noteq> [] \<Longrightarrow> answers (now (send_articles X op u as))"
proof (induction as)
  case Nil
  { case 1
    have "send_articles X op u [] = ret ()" by (simp add: fun_eq_iff)
    then show ?case using lines_quiet [OF quiet_parts(5)] by metis
  next
    case 2
    then show ?case by simp }
next
  case (Cons a as)
  obtain n art where a: "a = (n, art)" by fastforce
  let ?next = "\<lambda>c. send_articles X op u as
    (case u of Some name \<Rightarrow> if 0 < article_size op art
       then record_bandwidth X name (article_size op art) False c else c | None \<Rightarrow> c)"
  let ?check = "case u of
          Some name \<Rightarrow>
            if 0 < article_size op art then check_bandwidth X name (article_size op art) else ret Allowed
        | None \<Rightarrow> ret Allowed"
  have eq: "send_articles X op u (a # as) = bind_res ?check
       (\<lambda>result.
          if result = BandwidthExceeded then write_simple RESP_403_BANDWIDTH_EXCEEDED
          else bind_res (write_all (article_response_line op n art)) (\<lambda>_.
               bind_res (write_all (article_content op art)) (\<lambda>_. ?next)))"
    by (simp add: fun_eq_iff a)
  have "?next = bind_res (\<lambda>c. (Inr (), case u of Some name \<Rightarrow> if 0 < article_size op art
       then record_bandwidth X name (article_size op art) False c else c | None \<Rightarrow> c)) (\<lambda>_. send_articles X op u as)"
    by (simp add: fun_eq_iff bind_res_def)
  moreover have "quiet (\<lambda>c. (Inr (), case u of Some name \<Rightarrow> if 0 < article_size op art
       then record_bandwidth X name (article_size op art) False c else c | None \<Rightarrow> c) :: unit result \<times> ctx)"
    by (auto simp: quiet_def keeps_def record_bandwidth_def Let_def put_bandwidth_def set_tracker_def
        split: option.splits)
  ultimately have "adds_lines (now ?next)" using Cons(1) by (simp add: quiet_then_now)
  then have "answers (now (if result = BandwidthExceeded then write_simple RESP_403_BANDWIDTH_EXCEEDED
          else bind_res (write_all (article_response_line op n art)) (\<lambda>_.
               bind_res (write_all (article_content op art)) (\<lambda>_. ?next))))" for result
    by (intro says_now_if write_first answers_write response_texts lines_first line_texts)
  moreover have "quiet ?check" by (intro quiet_intros)
  ultimately have "answers (now (send_articles X op u (a # as)))" unfolding eq by (intro quiet_then_now)
  then show "adds_lines (now (send_articles X op u (a # as)))" "answers (now (send_articles X op u (a # as)))"
    by (auto intro: says_weaken is_response_lines)
qed

lemma article_answers [says_intros]: "answers (now (article_handler X op args))"
  unfolding article_handler_def handle_article_operation_def
  by (intro quiet_first says_match_query quiet_intros error_answers send_articles_answers) (rule resolve_articles_found)

lemma field_quiet [quiet_intros]: "quiet (get_field_value a f)"
  unfolding get_field_value_def metadata_value_def by (intro quiet_intros)

lemma collect_numbers_quiet: "quiet (collect_numbers X g f ns)"
proof (induction ns)
  case Nil
  then show ?case by (simp add: quiet_def keeps_def)
next
  case (Cons n ns)
  have eq: "collect_numbers X g f (n # ns) =
     bind_res (map_err NotFoundByNumber (on_storage (get_article_by_number X g n))) (\<lambda>found.
       case found of
         Some article \<Rightarrow>
           bind_res (get_field_value article f) (\<lambda>val.
             bind_res (collect_numbers X g f ns) (\<lambda>rest. ret ((n, val) # rest)))
       | None \<Rightarrow> collect_numbers X g f ns)" by (simp add: fun_eq_iff)
  show ?case unfolding eq by (intro quiet_intros Cons)
qed

lemma collect_values_quiet [quiet_intros]: "quiet (collect_header_values X f r)"
  unfolding collect_header_values_def by (intro quiet_intros collect_numbers_quiet)

lemma header_answers [says_intros]:
  "answers (now (hdr_handler X args))" "answers (now (xpat_handler X args))" "answers (now (over_handler X args))"
  unfolding hdr_handler_def xpat_handler_def over_handler_def handle_all_headers_def write_response_with_values_def
  by (intro says_now_cases says_now_if says_match_query quiet_intros error_answers answers_write write_first
      response_texts ending_lines)+

lemma list_answers:
  "answers (now (handle_list_active X p))" "answers (now handle_list_newsgroups)"
  "answers (now handle_list_active_times)" "answers (now handle_list_overview_fmt)" "answers (now handle_list_headers)"
proof -
  show "answers (now (handle_list_active X p))" "answers (now handle_list_newsgroups)"
    "answers (now handle_list_active_times)"
    unfolding handle_list_active_def handle_list_newsgroups_def handle_list_active_times_def
    by (intro write_first response_texts ending_lines)+
  have "is_response (concat [RESP_215_METADATA, RESP_COLON, RESP_LINES, RESP_BYTES, RESP_DOT_CRLF])"
    "is_response (RESP_215_OVERVIEW_FMT @ concat get_overview_format_lines @ RESP_DOT_CRLF)" by code_simp+
  then show "answers (now handle_list_headers)" "answers (now handle_list_overview_fmt)"
    using for_each_write_all [of id] 
    by (simp_all add: handle_list_headers_def handle_list_overview_fmt_def write_lines_def write_all_append answers_write
        id_def)
qed

lemma group_answers [says_intros]:
  "answers (now (group_handler args))" "answers (now (list_handler X args))" "answers (now (listgroup_handler args))"
  "answers (now (next_handler X args))" "answers (now (last_handler X args))"
  "answers (now (newgroups_handler X args))" "answers (now (newnews_handler X args))"
proof -
  have nav: "answers (now (navigate_article X d))" for d
    unfolding navigate_article_def Let_def
    by (intro quiet_first says_now_cases says_now_if answers_write response_texts)
  show "answers (now (next_handler X args))" "answers (now (last_handler X args))"
    unfolding next_handler_def last_handler_def by (rule nav)+
  show "answers (now (group_handler args))" "answers (now (list_handler X args))" "answers (now (listgroup_handler args))"
    unfolding group_handler_def list_handler_def listgroup_handler_def
    by (intro says_now_cases says_now_if quiet_first answers_write write_first list_answers response_texts ending_lines)+
  have since: "answers (now (case new_since X d tm z of Inl t \<Rightarrow> write_simple t | Inr x \<Rightarrow> f x))"
    if "\<And>x. answers (now (f x))" for d tm z f
  proof (cases "new_since X d tm z")
    case (Inl t)
    then have "t \<in> {RESP_501_INVALID_ARG, RESP_501_INVALID_DATE}"
      by (auto simp: new_since_def split: option.splits if_splits)
         (metis map_sum.simps sum.exhaust sum.inject(1) sum.distinct(1))+
    with Inl show ?thesis by (auto intro: answers_write response_texts)
  qed (simp add: that)
  show "answers (now (newgroups_handler X args))" "answers (now (newnews_handler X args))"
    unfolding newgroups_handler_def newnews_handler_def
    by (intro since says_now_cases(3) answers_write write_first response_texts ending_lines)+
qed

lemma admit_user_answers: "answers (now (admit_user X u))"
  unfolding admit_user_def Let_def
  by (intro quiet_then_now [OF quiet_wrapped(2) [OF quiet_parts(2)]] quiet_then_now says_now_if answers_write
      response_texts quiet_intros) 

lemma authinfo_answers [says_intros]: "answers (now (authinfo_handler X args))"
  unfolding authinfo_handler_def authinfo_pass_def
  by (intro quiet_first says_now_cases says_now_if answers_write response_texts admit_user_answers)

lemma lines_answer: "is_response t \<Longrightarrow> \<forall>l \<in> set ls. whole_lines l \<Longrightarrow> answers (now (write_lines (t # ls)))"
proof -
  assume "is_response t" and "\<forall>l \<in> set ls. whole_lines l"
  then have "is_response (t @ concat ls)" by (induction ls rule: rev_induct) (auto simp flip: append_assoc)
  moreover have "write_lines (t # ls) = write_all (t @ concat ls)"
    using for_each_write_all [of id "t # ls"] by (simp add: write_lines_def id_def)
  ultimately show ?thesis by (simp add: answers_write)
qed

lemma session_answers [says_intros]:
  "answers (now (date_handler X args))" "answers (now (help_handler args))" "answers (now (mode_handler args))"
  "answers (now (quit_handler args))" "answers (now (check_handler X args))" "answers (now (capabilities_handler args))"
proof -
  have more_lines: "\<forall>l \<in> set [RESP_HELP_TEXT, RESP_DOT_CRLF, RESP_CAP_VERSION, RESP_CAP_IMPLEMENTATION, RESP_CAP_READER,
      RESP_CAP_POST, RESP_CAP_AUTHINFO, RESP_CAP_NEWNEWS, RESP_CAP_IHAVE, RESP_CAP_STREAMING, RESP_CAP_OVER,
      RESP_CAP_HDR, RESP_CAP_LIST]. whole_lines l" by code_simp
  show "answers (now (help_handler args))"
    unfolding help_handler_def using more_lines by (intro lines_answer response_texts) simp
  show "answers (now (capabilities_handler args))"
    unfolding capabilities_handler_def append_Cons append_Nil
    using more_lines by (intro quiet_first lines_answer response_texts) auto
  show "answers (now (date_handler X args))"
    unfolding date_handler_def by (intro answers_write response_texts)
  show "answers (now (mode_handler args))"
    unfolding mode_handler_def
    by (intro quiet_first says_now_cases says_now_if answers_write) (simp_all add: response_texts)
  show "answers (now (quit_handler args))"
    unfolding quit_handler_def by (intro write_first response_texts lines_quiet quiet_parts)
  show "answers (now (check_handler X args))"
    unfolding check_handler_def
    by (intro says_now_cases quiet_first answers_write response_texts) simp
qed

subsection \<open>Commands that wait\<close>

lemma silent_waits:
  "says (\<lambda>_ t. t = []) read_article" "says (\<lambda>_ t. t = []) (enqueue q)"
  by (auto simp: says_def read_article_def enqueue_def submit_def split: option.splits if_splits)

lemma silent_then [says_intros]:
  "(\<And>x. says Q (k x)) \<Longrightarrow> says Q (bind_wait read_article k)"
  "(\<And>x. says Q (k' x)) \<Longrightarrow> says Q (bind_wait (enqueue q) k')"
  by (rule says_bind [OF silent_waits(1)] says_bind [OF silent_waits(2)]; auto)+

text \<open>A request for an article, and the response to the article, are a response and a whole line.\<close>

lemma request_then [says_intros]:
  "is_response t \<Longrightarrow> answers (k ()) \<Longrightarrow> answers (bind_wait (now (write_simple t)) k)"
  by (rule answer_then [OF answers_write(2)]) (auto intro: says_weaken is_response_lines)

lemma bandwidth_then [says_intros]:
  assumes "answers (k False)" and "k True = now (ret ())"
  shows "answers (bind_wait (now (check_bandwidth_rejected X sz)) k)"
proof -
  let ?R = "\<lambda>over t. if over then is_response t else t = []"
  have false: "says ?R (now (ret False))" by (simp add: says_def now_def)
  have true: "says ?R (now (bind_res (write_simple RESP_403_BANDWIDTH_EXCEEDED) (\<lambda>_. ret True)))"
    by (auto simp: says_def now_def bind_res_def write_simple_def write_all_def response_texts)
  have "says ?R (now (check_bandwidth_rejected X sz))"
    unfolding check_bandwidth_rejected_def
    by (intro quiet_first says_now_cases says_now_if false true quiet_then_now quiet_intros)
  moreover have "says (\<lambda>_. if x then (\<lambda>t. t = []) else is_response) (k x)" for x
    using assms says_quiet [OF quiet_parts(5), of "()"] by (cases x) simp_all
  ultimately show ?thesis by (rule says_bind) (auto split: if_splits)
qed

lemma says_diagonal: "(\<And>c0. says Q (m c0)) \<Longrightarrow> says Q (\<lambda>c. m c c)"
  by (simp add: says_def)

lemma post_article_answers [says_intros]: "answers (post_article X msg a)"
proof -
  have "answers
     (bind_wait (now (check_bandwidth_rejected X sz)) (\<lambda>rejected.
         if rejected then now (ret ())
         else bind_wait (now (succeeds (comprehensive_validate_article X cfg m sz))) (\<lambda>valid.
         if \<not> valid then now (write_simple RESP_441_POSTING_FAILED)
         else bind_wait (enqueue q) (\<lambda>queued.
         if \<not> queued then now (write_simple RESP_441_POSTING_FAILED)
         else bind_wait (now (record_bandwidth_usage X sz True)) (\<lambda>_.
         now (write_simple RESP_240_ARTICLE_RECEIVED))))))" for sz cfg m q
    by (rule bandwidth_then, simp only: if_False)
       (intro quiet_then quiet_intros silent_then says_if answers_write response_texts, simp)
  then show ?thesis unfolding post_article_def [abs_def] Let_def by (rule says_diagonal)
qed

lemma transfer_article_answers:
  assumes acc: "is_response acc" and rej: "is_response rej"
  shows "answers (transfer_article X acc rej msg a)"
proof -
  have "answers
     (if is_control_message a
      then bind_wait (now (handle_control X m cfg)) (\<lambda>handled.
             now (write_simple (if handled then acc else rej)))
      else bind_wait (now (check_bandwidth_rejected X sz)) (\<lambda>over_limit.
           if over_limit then now (ret ())
           else bind_wait (now (succeeds (comprehensive_validate_article X cfg m sz))) (\<lambda>valid.
           if \<not> valid then now (write_simple rej)
           else bind_wait (now (succeeds (on_storage (store_article X m)))) (\<lambda>stored.
           if \<not> stored then now (write_simple rej)
           else bind_wait (enqueue q) (\<lambda>_.
                bind_wait (now (record_bandwidth_usage X sz True)) (\<lambda>_.
                now (write_simple acc)))))))" for sz cfg m q
  proof (rule says_if)
    show "answers (bind_wait (now (handle_control X m cfg)) (\<lambda>handled. now (write_simple (if handled then acc else rej))))"
      using acc rej by (intro quiet_then quiet_intros answers_write) simp
    show "answers (bind_wait (now (check_bandwidth_rejected X sz)) (\<lambda>over_limit.
           if over_limit then now (ret ())
           else bind_wait (now (succeeds (comprehensive_validate_article X cfg m sz))) (\<lambda>valid.
           if \<not> valid then now (write_simple rej)
           else bind_wait (now (succeeds (on_storage (store_article X m)))) (\<lambda>stored.
           if \<not> stored then now (write_simple rej)
           else bind_wait (enqueue q) (\<lambda>_.
                bind_wait (now (record_bandwidth_usage X sz True)) (\<lambda>_.
                now (write_simple acc)))))))"
      by (rule bandwidth_then, simp only: if_False)
         (intro quiet_then quiet_intros silent_then says_if answers_write acc rej, simp)
  qed
  then show ?thesis unfolding transfer_article_def [abs_def] Let_def by (rule says_diagonal)
qed

lemma posting_quiet [quiet_intros]: "quiet posting_disabled"
  unfolding posting_disabled_def by (intro quiet_intros)

lemma posting_answers [says_intros]:
  "answers (post_handler X args)" "answers (ihave_handler X args)" "answers (takethis_handler X args)"
proof -
  have secure: "is_response (if b then RESP_483_SECURE_REQ else to_response e)" for b e
    by (simp add: response_texts)
  have codes: "is_response (streaming_response 239 i)" "is_response (streaming_response 439 i)" for i
    by (simp_all add: response_texts)
  show "answers (post_handler X args)"
    unfolding post_handler_def
    by (intro quiet_first quiet_then [OF posting_quiet] says_if request_then silent_then says_cases answers_write
        post_article_answers secure response_texts)
  show "answers (ihave_handler X args)"
    unfolding ihave_handler_def
    by (intro quiet_first says_if request_then silent_then says_cases answers_write transfer_article_answers response_texts)
  show "answers (takethis_handler X args)"
    unfolding takethis_handler_def
    by (intro quiet_first says_if silent_then says_cases answers_write transfer_article_answers codes response_constants)
qed

subsection \<open>Properties\<close>

text \<open>C10: every command that succeeds is answered in the form of the protocol. On a connection that does not
  break, whatever the command and its arguments and whatever the state of the server, what it has written when it
  returns without an error begins with a three-digit code and a space, the first digit from 1 to 5, and ends at
  the end of a line; and nothing that was written before is changed.\<close>

theorem successful_commands_answer:
  assumes "dispatch_command X cmd c = Some (Inr (), c')" and "takes (writer c) = None"
  shows "\<exists>t. sent (writer c') = sent (writer c) @ t \<and> is_response t"
proof -
  have "answers (dispatch_command X cmd)"
    unfolding dispatch_command_def Let_def
    by (intro says_if article_answers group_answers header_answers posting_answers session_answers authinfo_answers
        answers_write response_texts)
  from saysD [OF this assms(2,1)] show ?thesis by blast
qed

definition greeted_client :: ctx where
  "greeted_client = server.extend sample_server (ctx.fields \<lparr>pending = [], stream_end = Eof\<rparr>
     \<lparr>sent = RESP_200_READY, takes = None\<rparr> (new_session True False True))"

theorem successful_commands_answer_witness:
  "\<exists>c' t. dispatch_command sample_ext \<lparr>cmd_name = ''list'', cmd_args = [''NEWSGROUPS'']\<rparr> greeted_client = Some (Inr (), c') \<and>
     sent (writer c') = RESP_200_READY @ t \<and> is_response t"
proof -
  let ?run = "dispatch_command sample_ext \<lparr>cmd_name = ''list'', cmd_args = [''NEWSGROUPS'']\<rparr> greeted_client"
  have "map_option fst ?run = Some (Inr ())" "takes (writer greeted_client) = None"
    "sent (writer greeted_client) = RESP_200_READY" by code_simp+
  then obtain c' where run: "?run = Some (Inr (), c')" by auto
  from successful_commands_answer [OF this \<open>takes (writer greeted_client) = None\<close>] run
    \<open>sent (writer greeted_client) = RESP_200_READY\<close>
  show ?thesis by metis
qed

end
