(* ===== verification/System.thy ===== *)
theory System
  imports Client Lifecycle Admin
begin

text \<open>
  The server as a whole: its shared state, the database of its peers and its connections, and everything
  that changes them, as one step relation. A step is what one task does between two waits of its loop: a connection
  handles one line of its client (\<open>client_turn\<close>), a worker one article, a periodic task one round, a peer's job
  one run; a signal reloads the configuration, and an administrator's command, which is another process,
  works on the two databases. What a step does is atomic here; the statements of an operation on the storage
  interleave in theory \<open>Storage_Invariant\<close>, the accesses to the tracker in theory \<open>Connections\<close>.

  A connection ends when its loop does, with the user disconnected, or breaks off when the loop returns an
  error (\<^verbatim>\<open>handle_client\<close> of \<^verbatim>\<open>src/src/lib.rs\<close> then returns before it disconnects the user) or a handler panics.
\<close>

datatype connection_state = Open | Ended | Broken

record connection =
  conn_input :: reader
  conn_output :: writer
  conn_session :: session
  conn_state :: connection_state

record system =
  sys_server :: server
  sys_peers :: peer_db
  sys_connections :: "connection list"

text \<open>The context of a connection, as \<open>handle_client\<close> has it, and what is left of it after a step.\<close>

definition conn_ctx :: "server \<Rightarrow> connection \<Rightarrow> ctx" where
  "conn_ctx w k = server.extend w (ctx.fields (conn_input k) (conn_output k) (conn_session k))"

definition server_of :: "ctx \<Rightarrow> server" where
  "server_of c = server.truncate c"

definition connection_of :: "connection_state \<Rightarrow> ctx \<Rightarrow> connection" where
  "connection_of st c =
     \<lparr>conn_input = reader c, conn_output = writer c, conn_session = session c, conn_state = st\<rparr>"

text \<open>A new connection is greeted.\<close>

definition greet :: "ctx \<Rightarrow> unit result \<times> ctx" where
  "greet c = write_all (if can_post (session c) then RESP_200_READY else RESP_201_READY_NO_POST) c"

definition accept :: "bool \<Rightarrow> reader \<Rightarrow> writer \<Rightarrow> server \<Rightarrow> connection" where
  "accept tls r wr w =
     (case greet (start_ctx w tls r wr) of
        (Inl _, c) \<Rightarrow> connection_of Broken c
      | (Inr _, c) \<Rightarrow> connection_of Open c)"

text \<open>A turn of the loop and, after the last one, the end of the session.\<close>

definition serve :: "ext \<Rightarrow> ctx \<Rightarrow> (connection_state \<times> ctx) option" where
  "serve X c =
     (case client_turn X c of
        None \<Rightarrow> None
      | Some (Inl _, c') \<Rightarrow> Some (Broken, c')
      | Some (Inr Continue, c') \<Rightarrow> Some (Open, c')
      | Some (Inr Break, c') \<Rightarrow> Some (Ended, end_session c'))"

text \<open>\<open>sys_step X allowed s s'\<close>: one step of the system, where connections act only in contexts that are \<open>allowed\<close>.\<close>

inductive sys_step :: "ext \<Rightarrow> (ctx \<Rightarrow> bool) \<Rightarrow> system \<Rightarrow> system \<Rightarrow> bool" for X allowed where
  connect: "sys_step X allowed s
     (s\<lparr>sys_connections := sys_connections s @ [accept tls r wr (sys_server s)]\<rparr>)"
| client: "i < length (sys_connections s) \<Longrightarrow> conn_state (sys_connections s ! i) = Open \<Longrightarrow>
     allowed (conn_ctx (sys_server s) (sys_connections s ! i)) \<Longrightarrow>
     serve X (conn_ctx (sys_server s) (sys_connections s ! i)) = Some (st, c) \<Longrightarrow>
     sys_step X allowed s
       (s\<lparr>sys_server := server_of c, sys_connections := (sys_connections s)[i := connection_of st c]\<rparr>)"
| worker: "worker_step X (sys_server s) = Some w \<Longrightarrow> sys_step X allowed s (s\<lparr>sys_server := w\<rparr>)"
| retention: "sys_step X allowed s (s\<lparr>sys_server := retention_round X (sys_server s)\<rparr>)"
| usage: "sys_step X allowed s (s\<lparr>sys_server := usage_persistence_round X (sys_server s)\<rparr>)"
| reloaded: "sys_step X allowed s
     (s\<lparr>sys_server := (sys_server s)\<lparr>config := update_runtime (config (sys_server s)) new_cfg\<rparr>\<rparr>)"
| peer: "peer_job X p site finished
       (server.extend (sys_server s) (peering.fields (sys_peers s) ds ts)) = Some v \<Longrightarrow>
     sys_step X allowed s (s\<lparr>sys_server := server.truncate v, sys_peers := peer_database v\<rparr>)"
| admin: "run_admin X files cmd (server.extend (sys_server s) (console.fields out)) = (r, v) \<Longrightarrow>
     sys_step X allowed s
       (s\<lparr>sys_server := (sys_server s)\<lparr>storage := storage v, auth := auth v\<rparr>\<rparr>)"

inductive_cases sys_stepE: "sys_step X allowed s s'"

text \<open>A context in which a logged-in client sends AUTHINFO again:\<close>

definition repeats_login :: "ext \<Rightarrow> ctx \<Rightarrow> bool" where
  "repeats_login X c \<longleftrightarrow> authenticated (session c) \<and>
     (case read_line (reader c) of
        Some (Inr line, _) \<Rightarrow>
          (case parse_command X (trim_end_matches (\<lambda>ch. ch = CR \<or> ch = LF) line) of
             Some (_, cmd) \<Rightarrow> to_ascii_uppercase (cmd_name cmd) = ''AUTHINFO''
           | None \<Rightarrow> False)
      | _ \<Rightarrow> False)"

text \<open>The connections that count for a user: those logged in as that user that are open or broken off.\<close>

definition counts_for :: "string \<Rightarrow> connection \<Rightarrow> bool" where
  "counts_for u k \<longleftrightarrow> conn_state k \<noteq> Ended \<and> tracked_user (conn_session k) = Some u"

definition counted :: "string \<Rightarrow> system \<Rightarrow> nat" where
  "counted u s = length (filter (counts_for u) (sys_connections s))"

definition logged_in :: "string \<Rightarrow> system \<Rightarrow> nat" where
  "logged_in u s = length (filter (\<lambda>k. conn_state k = Open \<and> tracked_user (conn_session k) = Some u)
     (sys_connections s))"

end
