(* ===== verification/System_Properties.thy ===== *)
theory System_Properties
  imports System Client_Properties Admin_Properties Retention_Properties Connections
begin

text \<open>
  What holds of the server as a whole, whatever its tasks do and in whatever order: the invariants of the
  databases, the queue and the sessions (\<open>sys_ok\<close>), and what the connection counters of the tracker count. The
  counters count the connections of a user exactly as long as no logged-in client sends AUTHINFO again; what
  that command does then is shown too.
\<close>

subsection \<open>Contexts\<close>

lemma conn_ctx_sel [simp]:
  "storage (conn_ctx w k) = storage w" "auth (conn_ctx w k) = auth w"
  "usage_tracker (conn_ctx w k) = usage_tracker w" "config (conn_ctx w k) = config w"
  "queue (conn_ctx w k) = queue w" "session (conn_ctx w k) = conn_session k"
  by (simp_all add: conn_ctx_def server.defs ctx.defs)

lemma server_of_sel [simp]:
  "storage (server_of c) = storage c" "auth (server_of c) = auth c"
  "usage_tracker (server_of c) = usage_tracker c" "config (server_of c) = config c"
  "queue (server_of c) = queue c"
  by (simp_all add: server_of_def server.defs)

lemma connection_of_sel [simp]:
  "conn_session (connection_of st c) = session c" "conn_state (connection_of st c) = st"
  by (simp_all add: connection_of_def)

lemma accept_session:
  "conn_session (accept tls r wr w) = new_session tls (cfg_allow_auth_insecure_connections (config w))
     (cfg_allow_anonymous_posting (config w))"
proof -
  obtain x c where g: "greet (start_ctx w tls r wr) = (x, c)" by fastforce
  then have "session c = session (start_ctx w tls r wr)"
    by (auto simp: greet_def write_all_def split: option.splits)
  with g show ?thesis by (cases x) (simp_all add: accept_def)
qed

subsection \<open>The invariant\<close>

definition server_ok :: "ext \<Rightarrow> server \<Rightarrow> bool" where
  "server_ok X w \<longleftrightarrow>
     storage_ok X (storage w) \<and> adb_ok (auth w) \<and> queue_len (queue w) \<le> queue_capacity (queue w)"

definition secure_session :: "session \<Rightarrow> bool" where
  "secure_session s \<longleftrightarrow> session_ok s \<and> (authenticated s \<longrightarrow> can_authenticate s)"

definition sys_ok :: "ext \<Rightarrow> system \<Rightarrow> bool" where
  "sys_ok X s \<longleftrightarrow>
     server_ok X (sys_server s) \<and> (\<forall>k \<in> set (sys_connections s). secure_session (conn_session k))"

lemma serve_keeps:
  assumes "serve X (conn_ctx w k) = Some (st, c)" and "server_ok X w" and "secure_session (conn_session k)"
  shows "server_ok X (server_of c) \<and> secure_session (session c)"
proof -
  let ?c0 = "conn_ctx w k"
  from assms(1) obtain r c1 where turn: "client_turn X ?c0 = Some (r, c1)" and c: "c = c1 \<or> c = end_session c1"
    by (auto simp: serve_def split: option.splits sum.splits turn.splits prod.splits)
  have "ctx_ok X ?c0 ?c0" using assms(2,3) by (simp add: ctx_ok_def server_ok_def secure_session_def)
  with keeps_waitD [OF ctx.client_turn_keeps turn] have "ctx_ok X ?c0 c1" .
  with c end_session_keeps have "ctx_ok X ?c0 c" by blast
  then show ?thesis by (simp add: ctx_ok_def server_ok_def secure_session_def)
qed

lemma worker_stable_auth: "worker_stable X (\<lambda>w. adb_ok (auth w))"
  unfolding worker_stable_def
proof (intro conjI allI impI)
  fix ks and w w' :: "'a server_scheme"
  assume "only_keys X ks w w'" "adb_ok (auth w)"
  then show "adb_ok (auth w')" using adb_ok_rows unfolding only_keys_def by blast
next
  show "keeps (\<lambda>w. adb_ok (auth w)) (on_auth (auth_is_admin u))" for u
    by (intro keeps_on_auth auth_reads_ok)
qed (auto intro: keeps_on_storage_frame)

lemma worker_step_ok:
  assumes "worker_step X w = Some w'" and "server_ok X w"
  shows "server_ok X w'"
proof -
  from assms(1) obtain q qs where q: "queue_items (queue w) = q # qs"
    by (auto simp: worker_step_def split: list.splits)
  let ?w = "w\<lparr>queue := (queue w)\<lparr>queue_items := qs\<rparr>\<rparr>"
  have "w' = snd (process_article X q ?w)" using assms(1) worker_step_Cons [OF q] by simp
  moreover have "adb_ok (auth ?w)" using assms(2) by (simp add: server_ok_def)
  ultimately have "adb_ok (auth w')" using keepsD [OF keeps_process_article [OF worker_stable_auth]] by blast
  moreover have "pool_ok X w'" using pool_ok_worker [OF _ assms(1)] assms(2) by (simp add: pool_ok_def server_ok_def)
  ultimately show ?thesis by (simp add: server_ok_def pool_ok_def)
qed

lemma persist_frame:
  fixes w :: server
  shows "storage (usage_persistence_round X w) = storage w \<and> queue (usage_persistence_round X w) = queue w \<and>
    config (usage_persistence_round X w) = config w \<and> usage_tracker (usage_persistence_round X w) = usage_tracker w \<and>
    (adb_ok (auth w) \<longrightarrow> adb_ok (auth (usage_persistence_round X w)))"
proof -
  let ?save = "\<lambda>(name, s) w. snd (on_auth (set_user_usage X name (usage_of_state s)) w)"
  have "storage (fold ?save bs w) = storage w \<and> queue (fold ?save bs w) = queue w \<and>
      config (fold ?save bs w) = config w \<and> usage_tracker (fold ?save bs w) = usage_tracker w \<and>
      (adb_ok (auth w) \<longrightarrow> adb_ok (auth (fold ?save bs w)))" for bs and w :: server
  proof (induction bs arbitrary: w)
    case (Cons b bs)
    obtain n s where b: "b = (n, s)" by fastforce
    have "keeps adb_ok (set_user_usage X n (usage_of_state s))" by (rule auth_ops_ok)
    then have "adb_ok (auth w) \<longrightarrow> adb_ok (auth (?save b w))"
      by (simp add: b on_auth_def keeps_def split_beta)
    moreover have "storage (?save b w) = storage w \<and> queue (?save b w) = queue w \<and>
        config (?save b w) = config w \<and> usage_tracker (?save b w) = usage_tracker w"
      by (simp add: b on_auth_def split_beta)
    ultimately show ?case using Cons [of "?save b w"] by simp
  qed simp
  then show ?thesis by (simp add: usage_persistence_round_def persist_def)
qed

lemma retention_ok:
  fixes w :: server
  assumes "server_ok X w"
  shows "server_ok X (retention_round X w)"
  using assms keepsD [OF keeps_cleanup [of X "config w"], of "storage w"]
  by (simp add: server_ok_def retention_round_def on_storage_def split_beta)

text \<open>A job of a peer reads the storage and changes nothing else of the shared state.\<close>

definition peer_reads :: "ext \<Rightarrow> peering \<Rightarrow> peering \<Rightarrow> bool" where
  "peer_reads X v w \<longleftrightarrow>
     (storage_ok X (storage v) \<longrightarrow> storage_ok X (storage w)) \<and> auth w = auth v \<and> usage_tracker w = usage_tracker v \<and>
     queue w = queue v \<and> config w = config v"

lemma peer_reads_storage:
  "keeps (storage_ok X) m \<Longrightarrow> on_storage m w = (r, w') \<Longrightarrow> peer_reads X v w \<Longrightarrow> peer_reads X v w'"
  by (auto simp: peer_reads_def on_storage_def keeps_def split: prod.splits)

lemma peer_reads_peers: "on_peers m w = (r, w') \<Longrightarrow> peer_reads X v w \<Longrightarrow> peer_reads X v w'"
  by (auto simp: peer_reads_def on_peers_def split: prod.splits)

lemma process_articles_reads:
  "process_articles Y peer site items st w = Some (r, w') \<Longrightarrow> peer_reads X v w \<Longrightarrow> peer_reads X v w'"
proof (induction Y peer site items st w rule: process_articles.induct)
  case (3 Y peer site i a items st w)
  have fr: "peer_reads X v w1" if "process_fetched_article Y peer site a w = Some (x, w1)" for x w1
    using that 3(5) by (auto simp: process_fetched_article_def bind_wait_def now_def send_article_to_peer_def peer_reads_def
        split: if_splits option.splits prod.splits sum.splits dest!: establish_frame)
  from 3 fr show ?case
    by (auto split: option.splits prod.splits sum.splits article_process_result.splits)
qed auto

lemma peer_queries_ok:
  "keeps (storage_ok X) (article_ids_to_sync g ls)" "keeps (storage_ok X) (get_articles_by_ids X ids)"
  unfolding article_ids_to_sync_def list_article_ids_def get_articles_by_ids_def
  by (intro keeps_intros storage_keeps; simp)+

lemma sync_groups_reads:
  "sync_groups X peer site ls gs st w = Some (r, w') \<Longrightarrow> peer_reads X v w \<Longrightarrow> peer_reads X v w'"
proof (induction X peer site ls gs st w arbitrary: r rule: sync_groups.induct)
  case (2 X peer site ls g gs st w)
  show ?case
  proof (cases "list_ex (\<lambda>p. wildmat X p g) (pc_patterns peer)")
    case False
    with 2 show ?thesis by simp
  next
    case True
    obtain x w1 where ids: "on_storage (article_ids_to_sync g ls) w = (x, w1)" by fastforce
    from peer_reads_storage [OF peer_queries_ok(1) this 2(4)] have 1: "peer_reads X v w1" .
    have grp: "peer_reads X v w2" if "process_group_articles X peer site is w1 = Some (y, w2)" for "is" y w2
      using that 1 by (auto simp: process_group_articles_def bind_wait_def now_def fetch_items_def
          split: if_splits prod.splits sum.splits option.splits
          dest: peer_reads_storage [OF peer_queries_ok(2)] process_articles_reads)
    show ?thesis
      using 2 True ids 1 by (auto simp: bind_wait_def now_def split: option.splits prod.splits sum.splits dest!: grp)
  qed
qed auto

lemma peer_job_reads:
  assumes "peer_job X p site finished w = Some w'"
  shows "peer_reads X w w'"
proof -
  from assms obtain r w1 where run: "sync_peer_once X p site w = Some (r, w1)"
    and w': "w' = snd (on_peers (update_last_sync (pc_sitename p) finished) w1)"
    by (auto simp: peer_job_def split: option.splits prod.splits)
  have 0: "peer_reads X w w" by (simp add: peer_reads_def)
  obtain x u where last: "on_peers (get_last_sync X (pc_sitename p)) w = (x, u)" by fastforce
  then have 1: "peer_reads X w u" using peer_reads_peers 0 by blast
  obtain y u' where names: "on_storage list_groups u = (y, u')" by fastforce
  then have 2: "peer_reads X w u'" using peer_reads_storage [OF storage_reads(4)] 1 by blast
  have "peer_reads X w w1"
    using run last names 1 2
    by (auto simp: sync_peer_once_def bind_wait_def now_def split: sum.splits dest: sync_groups_reads)
  then show ?thesis unfolding w' by (metis peer_reads_peers prod.collapse)
qed

lemma sys_step_ok:
  assumes "sys_step X allowed s s'" and "sys_ok X s"
  shows "sys_ok X s'"
  using assms
proof (induction rule: sys_step.induct)
  case (connect s tls r wr)
  then show ?case by (auto simp: sys_ok_def accept_session secure_session_def new_session_def session_ok_def)
next
  case (client i s st c)
  then have "secure_session (conn_session (sys_connections s ! i))" by (simp add: sys_ok_def)
  with client serve_keeps show ?case
    by (fastforce simp: sys_ok_def dest: set_update_subset_insert [THEN subsetD])
next
  case (worker s w)
  then show ?case using worker_step_ok by (simp add: sys_ok_def)
next
  case (retention s)
  then show ?case using retention_ok by (simp add: sys_ok_def)
next
  case (usage s)
  then show ?case using persist_frame [of X "sys_server s"] by (simp add: sys_ok_def server_ok_def)
next
  case (reloaded s new_cfg)
  then show ?case by (simp add: sys_ok_def server_ok_def)
next
  case (peer p site finished s ds ts v)
  then show ?case
    using peer_job_reads [OF peer(1)]
    by (simp add: sys_ok_def server_ok_def peer_reads_def server.defs)
next
  case (admin files cmd s out r v)
  then have "databases_ok X v"
    using keepsD' [OF run_admin_keeps admin(1)] by (simp add: databases_ok_def sys_ok_def server_ok_def server.defs)
  with admin show ?case by (simp add: databases_ok_def sys_ok_def server_ok_def)
qed

text \<open>The server keeps its state in order whatever its tasks do, in whatever order: connections that come,
  send any lines, end and break off, workers, retention, the writing of usage, reloads of the configuration, the
  jobs of peers and administration commands, with any statements failing.\<close>

lemma sys_steps_ok: "(sys_step X allowed)\<^sup>*\<^sup>* s s' \<Longrightarrow> sys_ok X s \<Longrightarrow> sys_ok X s'"
  by (induction rule: rtranclp_induct) (auto intro: sys_step_ok)

subsection \<open>What the counters count\<close>

definition max_of :: "tracker \<Rightarrow> string \<Rightarrow> u32 option" where
  "max_of t u = Option.bind (limits_cache t u) limit_max_connections"

lemma max_of_mono: "limits_cache t \<subseteq>\<^sub>m limits_cache t' \<Longrightarrow> max_of t u = Some m \<Longrightarrow> max_of t' u = Some m"
  by (auto simp: max_of_def map_le_def dom_def split: bind_splits)

text \<open>Every command but AUTHINFO leaves the user and the counters as they are and forgets no cached limit.\<close>

definition same_count :: "ctx \<Rightarrow> ctx \<Rightarrow> bool" where
  "same_count c0 c \<longleftrightarrow> same_user (session c0) c \<and>
     connections (usage_tracker c) = connections (usage_tracker c0) \<and>
     limits_cache (usage_tracker c0) \<subseteq>\<^sub>m limits_cache (usage_tracker c)"

interpretation count: command_invariant X "same_count c0" for X c0
  by unfold_locales (auto simp: same_count_def same_user_def session_defs intro: map_le_trans)

text \<open>What a turn of a connection may do to the user and the counters, when it does not log in again: nothing, or
  log a user in, who is then counted and was below the limit.\<close>

definition counts_login :: "ctx \<Rightarrow> ctx \<Rightarrow> bool" where
  "counts_login c c' \<longleftrightarrow>
     limits_cache (usage_tracker c) \<subseteq>\<^sub>m limits_cache (usage_tracker c') \<and>
     (tracked_user (session c') = tracked_user (session c) \<and>
        connection_count (usage_tracker c') = connection_count (usage_tracker c) \<or>
      (\<exists>u. tracked_user (session c) = None \<and> tracked_user (session c') = Some u \<and>
        connection_count (usage_tracker c') =
          (connection_count (usage_tracker c))(u := connection_count (usage_tracker c) u + 1) \<and>
        (\<forall>m. max_of (usage_tracker c) u = Some m \<longrightarrow>
           unat (connection_count (usage_tracker c) u) < unat m)))"

lemma try_connect_effect:
  assumes "try_connect u w = (r, w')"
  shows "limits_cache (usage_tracker w) \<subseteq>\<^sub>m limits_cache (usage_tracker w') \<and>
    (r = Inr ConnectionLimitExceeded \<and> connection_count (usage_tracker w') = connection_count (usage_tracker w) \<or>
     r = Inr Allowed \<and>
       connection_count (usage_tracker w') =
         (connection_count (usage_tracker w))(u := connection_count (usage_tracker w) u + 1) \<and>
       (\<forall>m. max_of (usage_tracker w) u = Some m \<longrightarrow> unat (connection_count (usage_tracker w) u) < unat m))"
proof -
  have "\<exists>l w1. get_effective_limits u w = (Inr l, w1)"
    by (auto simp: get_effective_limits_def split: option.splits prod.splits sum.splits)
  then obtain l w1 where lim: "get_effective_limits u w = (Inr l, w1)" by blast
  have 1: "connections (usage_tracker w1) = connections (usage_tracker w)"
    "limits_cache (usage_tracker w) \<subseteq>\<^sub>m limits_cache (usage_tracker w1)"
    "\<forall>m. max_of (usage_tracker w) u = Some m \<longrightarrow> limit_max_connections l = Some m"
    using lim by (auto simp: get_effective_limits_def on_auth_def set_tracker_def max_of_def map_le_def
        split: option.splits prod.splits sum.splits)
  then have cnt: "connection_count (usage_tracker w1) = connection_count (usage_tracker w)"
    by (simp add: connection_count_def fun_eq_iff)
  have set: "connection_count (usage_tracker (set_tracker (\<lambda>t. t\<lparr>connections := (connections t)(u \<mapsto> c)\<rparr>) w1)) =
      (connection_count (usage_tracker w))(u := c)" for c
    using 1(1) by (auto simp: connection_count_def set_tracker_def fun_eq_iff)
  show ?thesis
    using assms lim 1(2,3) cnt set
    by (auto simp: try_connect_def bind_res_def Let_def set_tracker_def fun_upd_idem
        split: option.splits if_splits)
qed

lemma write_same: "write_simple t c = (r, c') \<Longrightarrow> session c' = session c \<and> usage_tracker c' = usage_tracker c"
  by (auto simp: write_simple_def write_all_def split: option.splits)

lemma counts_login_refl: "counts_login c c"
  by (simp add: counts_login_def)

lemma counts_login_cong:
  "session c1 = session c \<Longrightarrow> usage_tracker c1 = usage_tracker c \<Longrightarrow> counts_login c1 c' = counts_login c c'"
  "session c1 = session c \<Longrightarrow> usage_tracker c1 = usage_tracker c \<Longrightarrow> counts_login c' c1 = counts_login c' c"
  by (simp_all add: counts_login_def)

lemma admit_user_counts:
  assumes "admit_user X u c = (r, c')" and "tracked_user (session c) = None"
  shows "counts_login c c'"
proof -
  obtain ra c1 where adm: "(ok_of (on_auth (auth_is_admin u)) :: bool option handler) c = (Inr ra, c1)"
    by (fastforce simp: ok_of_def split: prod.splits sum.splits)
  then have c1: "session c1 = session c" "usage_tracker c1 = usage_tracker c"
    by (auto simp: ok_of_def on_auth_def split: prod.splits sum.splits)
  show ?thesis
  proof (cases "ra = Some True")
    case True
    with assms(1) adm c1 have "session c' = authenticate_with_admin u True (session c)"
      "usage_tracker c' = usage_tracker c"
      by (auto simp: admit_user_def bind_res_def Let_def set_session_def dest!: write_same)
    then show ?thesis
      using assms(2) by (simp add: counts_login_def tracked_user_def authenticate_with_admin_def)
  next
    case False
    obtain rc c2 where conn: "try_connect u c1 = (rc, c2)" by fastforce
    then have s2: "session c2 = session c"
      using c1 keepsD' [OF session_unchanged(6) [of "\<lambda>s. s = session c"]] by blast
    note eff = try_connect_effect [OF conn, unfolded c1]
    show ?thesis
    proof (cases "rc = Inr Allowed")
      case False
      with eff have "rc = Inr ConnectionLimitExceeded" by blast
      with assms(1) adm conn \<open>ra \<noteq> Some True\<close> s2 have "session c' = session c" "usage_tracker c' = usage_tracker c2"
        by (auto simp: admit_user_def bind_res_def Let_def dest!: write_same)
      with eff False show ?thesis by (auto simp: counts_login_def)
    next
      case True
      obtain rl c3 where load: "(ok_of (load_user X u) :: unit option handler) c2 = (Inr rl, c3)"
        by (fastforce simp: ok_of_def split: prod.splits sum.splits)
      have c3: "session c3 = session c2" "connections (usage_tracker c3) = connections (usage_tracker c2)"
        "limits_cache (usage_tracker c3) = limits_cache (usage_tracker c2)"
        using load by (auto simp: ok_of_def load_user_def on_auth_def put_bandwidth_def set_tracker_def
            split: prod.splits sum.splits)
      from assms(1) adm conn load True \<open>ra \<noteq> Some True\<close> s2 c3
      have c': "session c' = authenticate_with_admin u False (session c)" "usage_tracker c' = usage_tracker c3"
        by (auto simp: admit_user_def bind_res_def Let_def set_session_def dest!: write_same)
      have "connection_count (usage_tracker c3) = connection_count (usage_tracker c2)"
        using c3(2) by (simp add: connection_count_def fun_eq_iff)
      with eff True c' c3(3) assms(2) show ?thesis
        by (auto simp: counts_login_def tracked_user_def authenticate_with_admin_def)
    qed
  qed
qed

text \<open>A login loads the usage of the user from the database.\<close>

lemma verify_user_quiet:
  "faults (auth c) = [] \<Longrightarrow> \<exists>b. on_auth (verify_user X u pw) c = (b, c)"
  by (auto simp: on_auth_def verify_user_def bind_res_def select_ok split: option.splits prod.splits)

lemma load_user_usage:
  assumes "faults (auth c) = []" and "fst (get_user_usage X u (auth c)) = Inr stored"
  shows "\<exists>c'. (ok_of (load_user X u) :: unit option handler) c = (Inr (Some ()), c') \<and> session c' = session c \<and>
     usage_bytes_uploaded (get_usage (usage_tracker c') u) = usage_bytes_uploaded stored \<and>
     usage_bytes_downloaded (get_usage (usage_tracker c') u) = usage_bytes_downloaded stored"
proof -
  have "on_auth (get_user_usage X u) c = (Inr stored, c)"
    using assms by (simp add: on_auth_def get_user_usage_def select_ok)
  then show ?thesis
    by (simp add: ok_of_def load_user_def put_bandwidth_def set_tracker_def get_usage_def usage_of_state_def update_conv')
qed

lemma try_connect_auth: "faults (auth c) = [] \<Longrightarrow> try_connect u c = (r, c') \<Longrightarrow> auth c' = auth c"
  by (auto simp: try_connect_def bind_res_def get_effective_limits_def on_auth_def get_user_limits_def select_ok
      set_tracker_def Let_def split: option.splits if_splits sum.splits prod.splits)

lemma admit_user_usage:
  assumes "admit_user X v c = (r, c')" and "tracked_user (session c) = None"
    and "tracked_user (session c') = Some u" and "faults (auth c) = []"
    and "fst (get_user_usage X u (auth c)) = Inr stored"
  shows "usage_bytes_uploaded (get_usage (usage_tracker c') u) = usage_bytes_uploaded stored \<and>
     usage_bytes_downloaded (get_usage (usage_tracker c') u) = usage_bytes_downloaded stored"
proof -
  have adm: "(ok_of (on_auth (auth_is_admin v)) :: bool option handler) c = (Inr (Some (v \<in> set (admins (auth c)))), c)"
    using assms(4) by (simp add: ok_of_def on_auth_def auth_is_admin_def select_ok)
  obtain rc c2 where conn: "try_connect v c = (rc, c2)" by fastforce
  then have s2: "session c2 = session c"
    using keepsD' [OF session_unchanged(6) [of "\<lambda>s. s = session c"]] by blast
  have 1: "v \<notin> set (admins (auth c))" "rc = Inr Allowed"
    using assms(1-3) adm conn s2 try_connect_effect [OF conn]
    by (auto simp: admit_user_def bind_res_def Let_def set_session_def tracked_user_def authenticate_with_admin_def
        dest!: write_same split: if_splits)
  obtain rl c3 where load: "(ok_of (load_user X v) :: unit option handler) c2 = (Inr rl, c3)"
    by (fastforce simp: ok_of_def split: prod.splits sum.splits)
  with assms(1) adm conn 1 have
    c': "session c' = authenticate_with_admin v False (session c3)" "usage_tracker c' = usage_tracker c3"
    by (auto simp: admit_user_def bind_res_def Let_def set_session_def dest!: write_same)
  with assms(3) have "u = v" by (simp add: tracked_user_def authenticate_with_admin_def)
  with load_user_usage [of c2 X u stored] try_connect_auth [OF assms(4) conn] assms(4,5) load c' show ?thesis by auto
qed

lemma authinfo_counts:
  assumes "authinfo_handler X args c = (r, c')" and "\<not> authenticated (session c)"
  shows "counts_login c c'"
proof -
  have none: "tracked_user (session c) = None" using assms(2) by (simp add: tracked_user_def)
  have wr: "write_simple t c = (r, c') \<Longrightarrow> counts_login c c'" for t
    using counts_login_refl counts_login_cong(2) by (metis write_same)
  have user: "bind_res (set_session (set_pending_username u)) (\<lambda>_. write_simple t) c = (r, c') \<Longrightarrow>
      counts_login c c'" for u t
    using assms(2) by (auto simp: bind_res_def set_session_def counts_login_def tracked_user_def
        set_pending_username_def dest!: write_same)
  have pass: "authinfo_pass X pw c = (r, c') \<Longrightarrow> counts_login c c'" for pw
  proof -
    assume run: "authinfo_pass X pw c = (r, c')"
    show "counts_login c c'"
    proof (cases "username (session c)")
      case None
      with run wr show ?thesis
        by (simp add: authinfo_pass_def bind_res_def get_session_def pending_username_def)
    next
      case (Some u)
      obtain rv c1 where v: "on_auth (verify_user X u pw) c = (rv, c1)" by fastforce
      then have c1: "session c1 = session c" "usage_tracker c1 = usage_tracker c"
        by (auto simp: on_auth_def split: prod.splits)
      have "counts_login c1 c'"
        using run Some v none c1 admit_user_counts [of X u c1 r c'] counts_login_refl [of c1]
          counts_login_cong(2) [of c' c1 c1]
        by (auto simp: authinfo_pass_def bind_res_def get_session_def pending_username_def
            split: sum.splits if_splits dest!: write_same)
      with c1 counts_login_cong(1) show ?thesis by blast
    qed
  qed
  show ?thesis
    using assms(1) wr user pass
    by (auto simp: authinfo_handler_def bind_res_def [of get_session] get_session_def split: list.splits if_splits)
qed

lemma same_count_login: "same_count c c' \<Longrightarrow> counts_login c c'"
  by (auto simp: same_count_def same_user_def counts_login_def tracked_user_def connection_count_def fun_eq_iff)

lemma dispatch_counts:
  assumes "dispatch_command X cmd c = Some (r, c')"
    and "authenticated (session c) \<longrightarrow> to_ascii_uppercase (cmd_name cmd) \<noteq> ''AUTHINFO''"
  shows "counts_login c c'"
proof (cases "to_ascii_uppercase (cmd_name cmd) = ''AUTHINFO''")
  case False
  have "same_count c c" by (simp add: same_count_def same_user_def)
  with count.dispatch_other_keeps [OF False] assms(1) have "same_count c c'" by (metis keeps_waitD)
  then show ?thesis by (rule same_count_login)
next
  case True
  with assms have "authinfo_handler X (cmd_args cmd) c = (r, c')" by (simp add: dispatch_authinfo now_def)
  with True assms(2) authinfo_counts show ?thesis by blast
qed

lemma turn_counts:
  assumes "client_turn X c = Some (r, c')" and "\<not> repeats_login X c"
  shows "counts_login c c'"
proof -
  have wr: "now (bind_res (write_all t) (\<lambda>_. ret x)) c1 = Some (r, c') \<Longrightarrow> counts_login c1 c'"
    for t c1 and x :: turn
    using counts_login_refl counts_login_cong(2)
    by (auto simp: now_def bind_res_def write_all_def counts_login_def split: option.splits if_splits)
  have "counts_login (c\<lparr>reader := rd\<rparr>) c'"
    if "read_line (reader c) = Some (Inr line, rd)" "run_line X line (c\<lparr>reader := rd\<rparr>) = Some (r, c')" for line rd
  proof (cases "parse_command X (trim_end_matches (\<lambda>ch. ch = CR \<or> ch = LF) line)")
    case None
    with that wr show ?thesis by (simp add: run_line_def)
  next
    case (Some p)
    obtain rest cmd where p: "p = (rest, cmd)" by fastforce
    from that(2) Some p wr show ?thesis
      using assms(2) that(1)
      by (auto simp: run_line_def repeats_login_def split: if_splits option.splits sum.splits
          intro!: dispatch_counts)
  qed
  moreover have "counts_login (c\<lparr>reader := rd\<rparr>) c' = counts_login c c'" for rd
    by (rule counts_login_cong(1)) simp_all
  ultimately show ?thesis
    using assms(1) counts_login_refl [of c]
    by (auto simp: client_turn_def counts_login_def split: option.splits sum.splits if_splits)
qed

text \<open>A turn that ends the loop ends the session too, and the counter of its user goes down.\<close>

lemma disconnect_effect:
  assumes "connection_count (usage_tracker w) u \<noteq> 0"
  shows "connection_count (usage_tracker (disconnect u w)) =
      (connection_count (usage_tracker w))(u := connection_count (usage_tracker w) u - 1)"
    and "limits_cache (usage_tracker (disconnect u w)) = limits_cache (usage_tracker w)"
  using assms by (auto simp: disconnect_def connection_count_def set_tracker_def fun_eq_iff split: option.splits)

subsection \<open>Counting in the system\<close>

text \<open>In every state the counters are the numbers of connections that count, and no cached limit is exceeded.\<close>

definition tallies :: "system \<Rightarrow> bool" where
  "tallies s \<longleftrightarrow>
     (\<forall>u. unat (connection_count (usage_tracker (sys_server s)) u) = counted u s)"

definition within_limit :: "string \<Rightarrow> u32 \<Rightarrow> system \<Rightarrow> bool" where
  "within_limit u m s \<longleftrightarrow>
     max_of (usage_tracker (sys_server s)) u = Some m \<and> counted u s \<le> unat m"

lemma filter_update:
  assumes "i < length ks"
  shows "length (filter P (ks[i := k])) + (if P (ks ! i) then 1 else 0) =
         length (filter P ks) + (if P k then 1 else 0)"
proof -
  have "ks = take i ks @ [ks ! i] @ drop (Suc i) ks" "ks[i := k] = take i ks @ [k] @ drop (Suc i) ks"
    using id_take_nth_drop [OF assms] upd_conv_take_nth_drop [OF assms] by simp_all
  then have "filter P ks = filter P (take i ks) @ filter P [ks ! i] @ filter P (drop (Suc i) ks)"
    "filter P (ks[i := k]) = filter P (take i ks) @ filter P [k] @ filter P (drop (Suc i) ks)"
    by (metis filter_append)+
  then show ?thesis by simp
qed

lemma counted_update:
  assumes "i < length (sys_connections s)"
  shows "counted u (s\<lparr>sys_server := w, sys_connections := (sys_connections s)[i := k]\<rparr>) +
           (if counts_for u (sys_connections s ! i) then 1 else 0) =
         counted u s + (if counts_for u k then 1 else 0)"
  using filter_update [OF assms, of "counts_for u" k] by (simp add: counted_def)

lemma counted_bound: "counted u s \<le> length (sys_connections s)"
  by (simp add: counted_def)

definition one_if :: "bool \<Rightarrow> nat" where
  "one_if b = (if b then 1 else 0)"

definition moves_count :: "ctx \<Rightarrow> ctx \<Rightarrow> bool \<Rightarrow> bool" where
  "moves_count c c' open \<longleftrightarrow>
     limits_cache (usage_tracker c) \<subseteq>\<^sub>m limits_cache (usage_tracker c') \<and>
     (\<forall>u. unat (connection_count (usage_tracker c') u) + one_if (tracked_user (session c) = Some u) =
          unat (connection_count (usage_tracker c) u) + one_if (open \<and> tracked_user (session c') = Some u) \<and>
          (\<forall>m. max_of (usage_tracker c) u = Some m \<longrightarrow> unat (connection_count (usage_tracker c) u) \<le> unat m \<longrightarrow>
             unat (connection_count (usage_tracker c') u) \<le> unat m))"

lemma login_moves_count:
  assumes "counts_login c c'" and "\<And>u. unat (connection_count (usage_tracker c) u) + 1 < 2 ^ 64"
  shows "moves_count c c' True"
proof -
  have inc: "unat (connection_count (usage_tracker c) u + 1) = unat (connection_count (usage_tracker c) u) + 1" for u
    using unat_inc_u64 [of "connection_count (usage_tracker c) u" "unat (connection_count (usage_tracker c) u) + 1"]
      assms(2) [of u] by simp
  from assms(1) consider
      (same) "tracked_user (session c') = tracked_user (session c)"
        "connection_count (usage_tracker c') = connection_count (usage_tracker c)"
    | (login) v where "tracked_user (session c) = None" "tracked_user (session c') = Some v"
        "connection_count (usage_tracker c') =
           (connection_count (usage_tracker c))(v := connection_count (usage_tracker c) v + 1)"
        "\<forall>m. max_of (usage_tracker c) v = Some m \<longrightarrow> unat (connection_count (usage_tracker c) v) < unat m"
    unfolding counts_login_def by blast
  then show ?thesis
  proof cases
    case same
    then show ?thesis using assms(1) by (simp add: moves_count_def counts_login_def)
  next
    case login
    then show ?thesis using assms(1) inc by (auto simp: moves_count_def counts_login_def one_if_def)
  qed
qed

lemma end_session_moves_count:
  assumes "moves_count c c1 True"
    and "\<And>u. tracked_user (session c1) = Some u \<Longrightarrow> connection_count (usage_tracker c1) u \<noteq> 0"
  shows "moves_count c (end_session c1) False"
proof (cases "tracked_user (session c1)")
  case None
  then show ?thesis using assms(1) by (simp add: moves_count_def end_session_def)
next
  case (Some u)
  note ends = disconnect_effect [OF assms(2) [OF Some]]
  have dec: "unat (connection_count (usage_tracker c1) u - 1) + 1 = unat (connection_count (usage_tracker c1) u)"
    using assms(2) [OF Some] by (metis Suc_pred' Suc_eq_plus1 unat_gt_0 unat_minus_one)
  have "end_session c1 = disconnect u c1" by (simp add: end_session_def Some)
  moreover have "session (disconnect u c1) = session c1"
    by (simp add: disconnect_def set_tracker_def split: option.splits)
  ultimately show ?thesis
    using assms(1) ends dec Some by (fastforce simp: moves_count_def one_if_def split: if_splits)
qed

lemma serve_moves_count:
  assumes "serve X c = Some (st, c')" and "\<not> repeats_login X c"
    and "\<And>u. unat (connection_count (usage_tracker c) u) + 1 < 2 ^ 64"
    and "\<And>u. tracked_user (session c) = Some u \<Longrightarrow> connection_count (usage_tracker c) u \<noteq> 0"
  shows "moves_count c c' (st \<noteq> Ended)"
proof -
  from assms(1) obtain r c1 where turn: "client_turn X c = Some (r, c1)"
    and c': "st \<noteq> Ended \<and> c' = c1 \<or> st = Ended \<and> c' = end_session c1"
    by (auto simp: serve_def split: option.splits sum.splits turn.splits prod.splits)
  note login = turn_counts [OF turn assms(2)]
  have moves: "moves_count c c1 True" by (rule login_moves_count [OF login assms(3)])
  have "connection_count (usage_tracker c1) u \<noteq> 0" if "tracked_user (session c1) = Some u" for u
  proof -
    have "unat (connection_count (usage_tracker c1) u) + one_if (tracked_user (session c) = Some u) =
        unat (connection_count (usage_tracker c) u) + 1"
      using moves that by (simp add: moves_count_def one_if_def)
    moreover have "unat (connection_count (usage_tracker c) u) \<noteq> 0" if "tracked_user (session c) = Some u"
      using assms(4) [OF that] by (simp add: unat_eq_0)
    ultimately have "unat (connection_count (usage_tracker c1) u) \<noteq> 0"
      by (auto simp: one_if_def split: if_splits)
    then show ?thesis by auto
  qed
  with c' moves end_session_moves_count show ?thesis by auto
qed

lemma worker_stable_tracker: "worker_stable X (\<lambda>w. usage_tracker w = t)"
  unfolding worker_stable_def
  by (auto simp: only_keys_def intro!: keeps_on_storage_frame keeps_on_auth_frame)

lemma worker_step_tracker:
  assumes "worker_step X w = Some w'"
  shows "usage_tracker w' = usage_tracker w"
proof -
  from assms obtain q qs where q: "queue_items (queue w) = q # qs"
    by (auto simp: worker_step_def split: list.splits)
  let ?w = "w\<lparr>queue := (queue w)\<lparr>queue_items := qs\<rparr>\<rparr>"
  have "w' = snd (process_article X q ?w)" using assms worker_step_Cons [OF q] by simp
  with keepsD [OF keeps_process_article [OF worker_stable_tracker, of "usage_tracker w" X q], of ?w] show ?thesis
    by simp
qed

lemma other_steps_tracker:
  assumes "usage_tracker (sys_server s') = usage_tracker (sys_server s)" and "\<And>u. counted u s' = counted u s"
  shows "(tallies s \<longrightarrow> tallies s') \<and> (\<forall>u m. within_limit u m s \<longrightarrow> within_limit u m s')"
  using assms by (simp add: tallies_def within_limit_def)

lemma client_step_counts:
  assumes i: "i < length (sys_connections s)" "conn_state (sys_connections s ! i) = Open"
    and polite: "\<not> repeats_login X (conn_ctx (sys_server s) (sys_connections s ! i))"
    and run: "serve X (conn_ctx (sys_server s) (sys_connections s ! i)) = Some (st, c)"
    and ok: "tallies s" and few: "length (sys_connections s) + 1 < 2 ^ 64"
  defines "s' \<equiv> s\<lparr>sys_server := server_of c, sys_connections := (sys_connections s)[i := connection_of st c]\<rparr>"
  shows "tallies s' \<and> (\<forall>u m. within_limit u m s \<longrightarrow> within_limit u m s')"
proof -
  let ?k = "sys_connections s ! i"
  let ?t = "usage_tracker (sys_server s)"
  have cnt: "unat (connection_count ?t u) = counted u s" for u using ok by (simp add: tallies_def)
  have "unat (connection_count ?t u) + 1 < 2 ^ 64" for u
    using cnt [of u] counted_bound [of u s] few by linarith
  moreover have "connection_count ?t u \<noteq> 0" if "tracked_user (conn_session ?k) = Some u" for u
  proof -
    have "?k \<in> set (filter (counts_for u) (sys_connections s))" using i that by (simp add: counts_for_def)
    then have "counted u s \<noteq> 0" unfolding counted_def by (metis length_0_conv list.set(1) empty_iff)
    with cnt [of u] show ?thesis by auto
  qed
  ultimately have "moves_count (conn_ctx (sys_server s) ?k) c (st \<noteq> Ended)"
    by (intro serve_moves_count [OF run polite]) simp_all
  then have cache: "limits_cache ?t \<subseteq>\<^sub>m limits_cache (usage_tracker c)"
    and moved: "unat (connection_count (usage_tracker c) u) + one_if (tracked_user (conn_session ?k) = Some u) =
         unat (connection_count ?t u) + one_if (st \<noteq> Ended \<and> tracked_user (session c) = Some u)"
    and limit: "max_of ?t u = Some m \<Longrightarrow> unat (connection_count ?t u) \<le> unat m \<Longrightarrow>
         unat (connection_count (usage_tracker c) u) \<le> unat m" for u m
    by (simp_all add: moves_count_def)
  have tally: "unat (connection_count (usage_tracker c) u) = counted u s'" for u
    using counted_update [OF i(1), of u "connection_of st c" "server_of c"] moved [of u] cnt [of u] i(2)
    by (simp add: s'_def counts_for_def one_if_def split: if_splits)
  then have "tallies s'" by (simp add: tallies_def s'_def)
  moreover have "within_limit u m s'" if "within_limit u m s" for u m
    using that tally [of u] cnt [of u] limit [of u m] max_of_mono [OF cache, of u m]
    by (simp add: within_limit_def s'_def)
  ultimately show ?thesis by blast
qed

lemma sys_step_counts:
  assumes "sys_step X (\<lambda>c. \<not> repeats_login X c) s s'" and "tallies s"
    and "length (sys_connections s) + 1 < 2 ^ 64"
  shows "tallies s' \<and> (\<forall>u m. within_limit u m s \<longrightarrow> within_limit u m s')"
  using assms
proof (induction rule: sys_step.induct)
  case (connect s tls r wr)
  have "tracked_user (conn_session (accept tls r wr (sys_server s))) = None"
    by (simp add: accept_session tracked_user_def new_session_def)
  with connect show ?case by (simp add: tallies_def within_limit_def counted_def counts_for_def)
next
  case (client i s st c)
  then show ?case using client_step_counts by blast
next
  case (worker s w)
  then show ?case
    using other_steps_tracker [of "s\<lparr>sys_server := w\<rparr>" s] worker_step_tracker [OF worker(1)] by (simp add: counted_def)
next
  case (retention s)
  have "usage_tracker (retention_round X (sys_server s)) = usage_tracker (sys_server s)"
    by (simp add: retention_round_def on_storage_def split_beta)
  with retention other_steps_tracker [of "s\<lparr>sys_server := retention_round X (sys_server s)\<rparr>" s]
  show ?case by (simp add: counted_def)
next
  case (usage s)
  then show ?case
    using persist_frame [of X "sys_server s"]
      other_steps_tracker [of "s\<lparr>sys_server := usage_persistence_round X (sys_server s)\<rparr>" s]
    by (simp add: counted_def)
next
  case (reloaded s new_cfg)
  then show ?case by (simp add: tallies_def within_limit_def counted_def)
next
  case (peer p site finished s ds ts v)
  then have "usage_tracker v = usage_tracker (sys_server s)"
    using peer_job_reads [OF peer(1)] by (simp add: peer_reads_def server.defs)
  with peer show ?case by (simp add: tallies_def within_limit_def counted_def server.defs)
next
  case (admin files cmd s out r v)
  then show ?case by (simp add: tallies_def within_limit_def counted_def)
qed

lemma sys_step_length: "sys_step X allowed s s' \<Longrightarrow> length (sys_connections s) \<le> length (sys_connections s')"
  by (erule sys_stepE) auto

subsection \<open>Running connections\<close>

text \<open>One turn of the connection \<open>i\<close>, and turns of the connections in a given order.\<close>

definition take_turn :: "ext \<Rightarrow> (ctx \<Rightarrow> bool) \<Rightarrow> nat \<Rightarrow> system \<Rightarrow> system option" where
  "take_turn X allowed i s =
     (if i < length (sys_connections s) \<and> conn_state (sys_connections s ! i) = Open \<and>
         allowed (conn_ctx (sys_server s) (sys_connections s ! i))
      then map_option (\<lambda>(st, c). s\<lparr>sys_server := server_of c, sys_connections := (sys_connections s)[i := connection_of st c]\<rparr>)
             (serve X (conn_ctx (sys_server s) (sys_connections s ! i)))
      else None)"

fun take_turns :: "ext \<Rightarrow> (ctx \<Rightarrow> bool) \<Rightarrow> nat list \<Rightarrow> system \<Rightarrow> system option" where
  "take_turns X allowed [] s = Some s"
| "take_turns X allowed (i # is) s = Option.bind (take_turn X allowed i s) (take_turns X allowed is)"

definition accept_all :: "(reader \<times> writer) list \<Rightarrow> system \<Rightarrow> system" where
  "accept_all rs s = fold (\<lambda>(r, wr) s. s\<lparr>sys_connections := sys_connections s @ [accept True r wr (sys_server s)]\<rparr>) rs s"

lemma accept_all_steps: "(sys_step X allowed)\<^sup>*\<^sup>* s (accept_all rs s)"
proof (induction rs arbitrary: s)
  case (Cons x rs)
  obtain r wr where x: "x = (r, wr)" by fastforce
  let ?s = "s\<lparr>sys_connections := sys_connections s @ [accept True r wr (sys_server s)]\<rparr>"
  have "sys_step X allowed s ?s" by (rule sys_step.connect)
  moreover have "accept_all (x # rs) s = accept_all rs ?s" by (simp add: accept_all_def x)
  ultimately show ?case using Cons [of ?s] by (metis converse_rtranclp_into_rtranclp)
qed (simp add: accept_all_def)

lemma take_turns_steps: "take_turns X allowed is s = Some s' \<Longrightarrow> (sys_step X allowed)\<^sup>*\<^sup>* s s'"
proof (induction "is" arbitrary: s)
  case (Cons i "is")
  then obtain s1 where 1: "take_turn X allowed i s = Some s1" "take_turns X allowed is s1 = Some s'"
    by (auto split: bind_splits)
  then have "sys_step X allowed s s1"
    by (auto simp: take_turn_def split: if_splits intro: sys_step.client)
  then show ?case using Cons.IH [OF 1(2)] by (rule converse_rtranclp_into_rtranclp)
qed simp

subsection \<open>Properties\<close>

definition busy_readers :: "(reader \<times> writer) list" where
  "busy_readers =
     [(\<lparr>pending = ''AUTHINFO USER u'' @ CRLF @ ''AUTHINFO PASS pw'' @ CRLF, stream_end = Idle\<rparr>, open_writer),
      (\<lparr>pending = ''AUTHINFO USER u'' @ CRLF @ ''AUTHINFO PASS pw'' @ CRLF, stream_end = Eof\<rparr>, open_writer)]"

definition limited_system :: system where
  "limited_system = \<lparr>sys_server = limited_server, sys_peers = \<lparr>faults = [], peers = []\<rparr>, sys_connections = []\<rparr>"

definition polite :: "ctx \<Rightarrow> bool" where
  "polite c = (\<not> repeats_login sample_ext c)"

definition after_turns :: system where
  "after_turns = the (take_turns sample_ext polite [0, 1, 0, 1] (accept_all busy_readers limited_system))"

lemma after_turns_run: "(sys_step sample_ext polite)\<^sup>*\<^sup>* limited_system after_turns"
proof -
  have "take_turns sample_ext polite [0, 1, 0, 1] (accept_all busy_readers limited_system) \<noteq> None" by code_simp
  then have "take_turns sample_ext polite [0, 1, 0, 1] (accept_all busy_readers limited_system) = Some after_turns"
    by (simp add: after_turns_def)
  from rtranclp_trans [OF accept_all_steps take_turns_steps [OF this]] show ?thesis .
qed



text \<open>C13: logging in forgets usage that is not yet in the database. When a client logs in as a user whose bandwidth
  counts and no statement fails, the bytes counted for the user are afterwards those of the database, whatever was
  counted since they were last written: a user under a bandwidth limit starts again by opening another
  connection.\<close>

theorem login_forgets_unsaved_usage:
  assumes "dispatch_command X \<lparr>cmd_name = ''AUTHINFO'', cmd_args = [''PASS'', pw]\<rparr> c = Some (r, c')"
    and "tracked_user (session c) = None" and "tracked_user (session c') = Some u" and "faults (auth c) = []"
    and "fst (get_user_usage X u (auth c)) = Inr stored"
  shows "usage_bytes_uploaded (get_usage (usage_tracker c') u) = usage_bytes_uploaded stored \<and>
     usage_bytes_downloaded (get_usage (usage_tracker c') u) = usage_bytes_downloaded stored"
proof -
  have upper: "to_ascii_uppercase ''AUTHINFO'' = ''AUTHINFO''" "to_ascii_uppercase ''PASS'' = ''PASS''" by code_simp+
  then have "authinfo_handler X [''PASS'', pw] c = (r, c')"
    using assms(1) by (simp add: dispatch_authinfo now_def)
  then have pass: "authinfo_pass X pw c = (r, c')"
    using upper assms(2,3)
    by (auto simp: authinfo_handler_def bind_res_def [of get_session] get_session_def split: if_splits dest!: write_same)
  then obtain v where "pending_username (session c) = Some v"
    using assms(2,3) by (cases "pending_username (session c)")
      (auto simp: authinfo_pass_def bind_res_def get_session_def dest!: write_same)
  moreover obtain b where "on_auth (verify_user X v pw) c = (b, c)" using verify_user_quiet [OF assms(4)] by blast
  ultimately have "admit_user X v c = (r, c')"
    using pass assms(2,3)
    by (auto simp: authinfo_pass_def bind_res_def get_session_def split: if_splits sum.splits dest!: write_same)
  from admit_user_usage [OF this assms(2-5)] show ?thesis .
qed

definition used_up :: ctx where
  "used_up = (let c = start_ctx (put_bandwidth ''u'' \<lparr>bytes_uploaded = 100, bytes_downloaded = 0, window_start = 0\<rparr>
         limited_server) True login_reader open_writer
     in c\<lparr>session := set_pending_username ''u'' (session c)\<rparr>)"

theorem login_forgets_unsaved_usage_witness:
  "\<exists>r c'. dispatch_command sample_ext \<lparr>cmd_name = ''AUTHINFO'', cmd_args = [''PASS'', ''pw'']\<rparr> used_up = Some (r, c') \<and>
     usage_bytes_uploaded (get_usage (usage_tracker used_up) ''u'') = 100 \<and>
     usage_bytes_uploaded (get_usage (usage_tracker c') ''u'') = 0"
proof -
  let ?run = "dispatch_command sample_ext \<lparr>cmd_name = ''AUTHINFO'', cmd_args = [''PASS'', ''pw'']\<rparr> used_up"
  have "?run \<noteq> None" "tracked_user (session (snd (the ?run))) = Some ''u''" by code_simp+
  then obtain r c' where run: "?run = Some (r, c')" "tracked_user (session c') = Some ''u''" by auto
  have auth: "faults (auth used_up) = []"
    "fst (get_user_usage sample_ext ''u'' (auth used_up)) = Inr default_user_usage"
    by (simp_all add: used_up_def Let_def put_bandwidth_def limited_server_def set_tracker_def
        sample_server_def sample_adb_def get_user_usage_def select_ok)
  have none: "tracked_user (session used_up) = None" by code_simp
  have "usage_bytes_uploaded (get_usage (usage_tracker used_up) ''u'') = 100" by code_simp
  with login_forgets_unsaved_usage [OF run(1) none run(2) auth] run(1) show ?thesis
    by (simp add: default_user_usage_def)
qed

text \<open>C12: a user who is logged in becomes any other user without a password. AUTHINFO USER from a logged-in
  client other than an administrator changes the name of the session and leaves it logged in, so that the
  bandwidth and posting limits and the end of the session are from then on those of the named user, whom
  nothing has counted.\<close>

theorem repeated_authinfo_takes_over_user:
  assumes "authenticated (session c)" and "\<not> is_admin (session c)" and "can_authenticate (session c)"
    and "takes (writer c) = None"
  shows "\<exists>c'. dispatch_command X \<lparr>cmd_name = ''AUTHINFO'', cmd_args = [''USER'', v]\<rparr> c = Some (Inr (), c') \<and>
     tracked_user (session c') = Some v \<and> usage_tracker c' = usage_tracker c \<and> auth c' = auth c \<and>
     usage_tracker (end_session c') = usage_tracker (disconnect v c)"
proof -
  let ?c = "c\<lparr>session := set_pending_username v (session c),
    writer := (writer c)\<lparr>sent := sent (writer c) @ RESP_381_PASSWORD_REQ\<rparr>\<rparr>"
  have "to_ascii_uppercase ''AUTHINFO'' = ''AUTHINFO''" "to_ascii_uppercase ''USER'' = ''USER''" by code_simp+
  then have "dispatch_command X \<lparr>cmd_name = ''AUTHINFO'', cmd_args = [''USER'', v]\<rparr> c = Some (Inr (), ?c)"
    using assms(3,4)
    by (simp add: dispatch_authinfo now_def authinfo_handler_def bind_res_def get_session_def set_session_def
        write_simple_def write_all_def)
  moreover have user: "tracked_user (session ?c) = Some v"
    using assms(1,2) by (simp add: tracked_user_def set_pending_username_def)
  moreover have "usage_tracker (end_session ?c) = usage_tracker (disconnect v c)"
    unfolding end_session_def user by (simp add: disconnect_def set_tracker_def split: option.splits)
  ultimately show ?thesis by (intro exI [of _ ?c]) simp
qed

definition second_user :: ctx where
  "second_user = (let c = start_ctx limited_server True login_reader open_writer
     in c\<lparr>session := authenticate_with_admin ''v'' False (session c)\<rparr>)"

theorem repeated_authinfo_takes_over_user_witness:
  "\<exists>c'. dispatch_command sample_ext \<lparr>cmd_name = ''AUTHINFO'', cmd_args = [''USER'', ''u'']\<rparr> second_user =
     Some (Inr (), c') \<and> tracked_user (session c') = Some ''u''"
proof -
  have "authenticated (session second_user)" "\<not> is_admin (session second_user)"
    "can_authenticate (session second_user)" "takes (writer second_user) = None" by code_simp+
  from repeated_authinfo_takes_over_user [OF this, of sample_ext "''u''"] show ?thesis by blast
qed

definition two_users :: system where
  "two_users = limited_system\<lparr>sys_server := limited_server\<lparr>auth := sample_adb\<lparr>users := users sample_adb @
     [\<lparr>u_username = ''v'', u_password_hash = ''saltpw'', u_key = None\<rparr>]\<rparr>\<rparr>\<rparr>"

definition lines_reader :: "string list \<Rightarrow> stream_end \<Rightarrow> reader" where
  "lines_reader ls e = \<lparr>pending = concat (map (\<lambda>l. l @ CRLF) ls), stream_end = e\<rparr>"

definition intruders :: "(reader \<times> writer) list" where
  "intruders =
     [(lines_reader [''AUTHINFO USER u'', ''AUTHINFO PASS pw''] Idle, open_writer),
      (lines_reader [''AUTHINFO USER v'', ''AUTHINFO PASS pw'', ''AUTHINFO USER u'', ''QUIT''] Idle, open_writer),
      (lines_reader [''AUTHINFO USER u'', ''AUTHINFO PASS pw''] Idle, open_writer)]"

text \<open>So a connection limit can be exceeded: with a limit of one connection for the user \<open>u\<close>, a client that logs
  in as \<open>v\<close> and then names \<open>u\<close> is a second open connection of \<open>u\<close>, while the counter stays at one; and when it ends,
  it takes the counter to zero, so that a third client is let in.\<close>

theorem renamed_user_evades_limit:
  "\<exists>s s'. (sys_step sample_ext (\<lambda>_. True))\<^sup>*\<^sup>* two_users s \<and> (sys_step sample_ext (\<lambda>_. True))\<^sup>*\<^sup>* s s' \<and>
     max_of (usage_tracker (sys_server two_users)) ''u'' = Some 1 \<and>
     logged_in ''u'' s = 2 \<and> connection_count (usage_tracker (sys_server s)) ''u'' = 1 \<and>
     conn_state (sys_connections s' ! 1) = Ended \<and> logged_in ''u'' s' = 2"
proof -
  have "case take_turns sample_ext (\<lambda>_. True) [0, 0, 1, 1, 1] (accept_all intruders two_users) of
      None \<Rightarrow> False
    | Some s \<Rightarrow> logged_in ''u'' s = 2 \<and> connection_count (usage_tracker (sys_server s)) ''u'' = 1 \<and>
        (case take_turns sample_ext (\<lambda>_. True) [1, 2, 2] s of
           None \<Rightarrow> False
         | Some s' \<Rightarrow> conn_state (sys_connections s' ! 1) = Ended \<and> logged_in ''u'' s' = 2)"
    by code_simp
  then obtain s s' where
    1: "take_turns sample_ext (\<lambda>_. True) [0, 0, 1, 1, 1] (accept_all intruders two_users) = Some s"
      "logged_in ''u'' s = 2" "connection_count (usage_tracker (sys_server s)) ''u'' = 1" and
    2: "take_turns sample_ext (\<lambda>_. True) [1, 2, 2] s = Some s'"
      "conn_state (sys_connections s' ! 1) = Ended" "logged_in ''u'' s' = 2"
    by (auto split: option.splits simp del: take_turns.simps)
  have "max_of (usage_tracker (sys_server two_users)) ''u'' = Some 1"
    by (simp add: max_of_def two_users_def limited_server_def set_tracker_def one_connection_def)
  with 1 2 take_turns_steps [OF 2(1)] rtranclp_trans [OF accept_all_steps take_turns_steps [OF 1(1)]]
  show ?thesis by blast
qed

end
