(* ===== verification/Backends.thy ===== *)
theory Backends
  imports Peers
begin

text \<open>
  Opening the databases: \<^verbatim>\<open>new\<close> of \<^verbatim>\<open>SqliteStorage\<close>, \<^verbatim>\<open>PostgresStorage\<close>, \<^verbatim>\<open>SqliteAuth\<close>, \<^verbatim>\<open>PostgresAuth\<close> and \<^verbatim>\<open>PeerDb\<close>. The library that
  connects is a parameter, the record \<open>driver\<close>: what it makes of a URI, what connecting yields, and its run of the
  migrations that the source embeds. A connection yields what the database holds, \<open>None\<close> when it has no tables yet.
  An error is the first line of its message.
\<close>

record connect_options =
  opt_uri :: string
  opt_create_if_missing :: bool

record 'p connector =
  options_from_str :: "string \<Rightarrow> string + connect_options"
  connect_with :: "nat \<Rightarrow> connect_options \<Rightarrow> string + 'p"

record 'd driver = "'d option connector" +
  run_migrations :: "string \<Rightarrow> 'd option \<Rightarrow> string + 'd"

definition quoted :: "string \<Rightarrow> string" where
  "quoted s = [CHR 0x27] @ s @ [CHR 0x27]"

definition sqlite_storage_new :: "db driver \<Rightarrow> string \<Rightarrow> string + db" where
  "sqlite_storage_new D path =
     (case options_from_str D path of
        Inl e \<Rightarrow> Inl (''Invalid SQLite connection URI '' @ quoted path @ '': '' @ e)
      | Inr options \<Rightarrow>
     (case connect_with D 5 (options\<lparr>opt_create_if_missing := True\<rparr>) of
        Inl e \<Rightarrow> Inl (''Failed to connect to SQLite database '' @ quoted path @ '': '' @ e)
      | Inr pool \<Rightarrow>
     (case run_migrations D ''src/storage/migrations/sqlite'' pool of
        Inl e \<Rightarrow> Inl (''Failed to run storage migrations for SQLite database '' @ quoted path @ '': '' @ e)
      | Inr d \<Rightarrow> Inr d)))"

definition postgres_storage_new :: "db driver \<Rightarrow> string \<Rightarrow> string + db" where
  "postgres_storage_new D uri =
     (case options_from_str D uri of
        Inl e \<Rightarrow> Inl (''Invalid PostgreSQL connection URI '' @ quoted uri @ '': '' @ e)
      | Inr opts \<Rightarrow>
     (case connect_with D 5 opts of
        Inl e \<Rightarrow> Inl (''Failed to connect to PostgreSQL database '' @ quoted uri @ '': '' @ e)
      | Inr pool \<Rightarrow>
     (case run_migrations D ''src/storage/migrations/postgres'' pool of
        Inl e \<Rightarrow> Inl (''Failed to run storage migrations for PostgreSQL database '' @ quoted uri @ '': '' @ e)
      | Inr d \<Rightarrow> Inr d)))"

definition sqlite_auth_new :: "adb driver \<Rightarrow> string \<Rightarrow> string + adb" where
  "sqlite_auth_new D path =
     (case options_from_str D path of
        Inl e \<Rightarrow> Inl (''Invalid SQLite authentication database URI '' @ quoted path @ '': '' @ e)
      | Inr options \<Rightarrow>
     (case connect_with D 5 (options\<lparr>opt_create_if_missing := True\<rparr>) of
        Inl e \<Rightarrow> Inl (''Failed to connect to SQLite authentication database '' @ quoted path @ '': '' @ e)
      | Inr pool \<Rightarrow>
     (case run_migrations D ''src/auth/migrations/sqlite'' pool of
        Inl e \<Rightarrow> Inl (''Failed to run auth migrations for SQLite database '' @ quoted path @ '': '' @ e)
      | Inr d \<Rightarrow> Inr d)))"

definition postgres_auth_new :: "adb driver \<Rightarrow> string \<Rightarrow> string + adb" where
  "postgres_auth_new D uri =
     (case options_from_str D uri of
        Inl e \<Rightarrow> Inl (''Invalid PostgreSQL authentication database URI '' @ quoted uri @ '': '' @ e)
      | Inr opts \<Rightarrow>
     (case connect_with D 5 opts of
        Inl e \<Rightarrow> Inl (''Failed to connect to PostgreSQL authentication database '' @ quoted uri @ '': '' @ e)
      | Inr pool \<Rightarrow>
     (case run_migrations D ''src/auth/migrations/postgres'' pool of
        Inl e \<Rightarrow> Inl (''Failed to run auth migrations for PostgreSQL database '' @ quoted uri @ '': '' @ e)
      | Inr d \<Rightarrow> Inr d)))"

subsection \<open>The database of peers\<close>

text \<open>It has no migrations: the statement that creates its table is part of the source.\<close>

record peer_file = sql_engine +
  peers_table :: "peer_row list option"

definition sql_create_peers :: "(peer_file, unit) action" where
  "sql_create_peers = exec (\<lambda>f.
     (Inr (), f\<lparr>peers_table := Some (case peers_table f of None \<Rightarrow> [] | Some rows \<Rightarrow> rows)\<rparr>))"

definition peer_db_new :: "peer_file connector \<Rightarrow> string \<Rightarrow> peer_db result" where
  "peer_db_new D path =
     (case options_from_str D path of
        Inl e \<Rightarrow> Inl Database
      | Inr options \<Rightarrow>
     (case connect_with D 5 (options\<lparr>opt_create_if_missing := True\<rparr>) of
        Inl e \<Rightarrow> Inl Database
      | Inr pool \<Rightarrow>
     (case sql_create_peers pool of
        (Inl e, _) \<Rightarrow> Inl e
      | (Inr _, f) \<Rightarrow> Inr \<lparr>faults = faults f, peers = (case peers_table f of None \<Rightarrow> [] | Some rows \<Rightarrow> rows)\<rparr>)))"

subsection \<open>What opening gives\<close>

text \<open>The documented behaviour of migrations: run on a database without tables they create empty ones; run on one that
  has the tables they leave its rows alone. They may fail in both cases.\<close>

definition migrates :: "'d sql_engine_scheme driver \<Rightarrow> 'd sql_engine_scheme \<Rightarrow> bool" where
  "migrates D fresh \<longleftrightarrow>
     (\<forall>m d. run_migrations D m None = Inr d \<longrightarrow> (\<exists>fs. d = fresh\<lparr>faults := fs\<rparr>)) \<and>
     (\<forall>m d d'. run_migrations D m (Some d) = Inr d' \<longrightarrow> d' = d)"

text \<open>What is found at a URI.\<close>

definition found_at :: "'d driver \<Rightarrow> string \<Rightarrow> 'd \<Rightarrow> bool" where
  "found_at D uri d \<longleftrightarrow> (\<exists>opts c. options_from_str D uri = Inr opts \<and>
     connect_with D 5 (opts\<lparr>opt_create_if_missing := c\<rparr>) = Inr (Some d))"

text \<open>An opened database is a new one or the one that was found.\<close>

lemma driver_opens:
  assumes "migrates D fresh" and "options_from_str D uri = Inr opts"
    and "connect_with D 5 (opts\<lparr>opt_create_if_missing := c\<rparr>) = Inr pool" and "run_migrations D m pool = Inr d"
  shows "(\<exists>fs. d = fresh\<lparr>faults := fs\<rparr>) \<or> found_at D uri d"
proof (cases pool)
  case (Some a)
  with assms(1,4) have "a = d" unfolding migrates_def by metis
  with Some assms(2,3) show ?thesis unfolding found_at_def by blast
qed (use assms(1,4) in \<open>auto simp: migrates_def\<close>)

lemma options_keep: "opts = opts\<lparr>opt_create_if_missing := opt_create_if_missing opts\<rparr>"
  by simp

lemma storage_new_opens:
  assumes "migrates D fresh"
  shows "sqlite_storage_new D uri = Inr d \<Longrightarrow> (\<exists>fs. d = fresh\<lparr>faults := fs\<rparr>) \<or> found_at D uri d"
    and "postgres_storage_new D uri = Inr d \<Longrightarrow> (\<exists>fs. d = fresh\<lparr>faults := fs\<rparr>) \<or> found_at D uri d"
  using driver_opens [OF assms, of uri] options_keep
  by (auto simp: sqlite_storage_new_def postgres_storage_new_def split: sum.splits) (metis options_keep)+

lemma auth_new_opens:
  assumes "migrates D fresh"
  shows "sqlite_auth_new D uri = Inr d \<Longrightarrow> (\<exists>fs. d = fresh\<lparr>faults := fs\<rparr>) \<or> found_at D uri d"
    and "postgres_auth_new D uri = Inr d \<Longrightarrow> (\<exists>fs. d = fresh\<lparr>faults := fs\<rparr>) \<or> found_at D uri d"
  using driver_opens [OF assms, of uri] options_keep
  by (auto simp: sqlite_auth_new_def postgres_auth_new_def split: sum.splits) (metis options_keep)+

end
