(* ===== verification/Startup.thy ===== *)
theory Startup
  imports Lifecycle Admin Bridge Backends
begin

text \<open>
  From the command line to a running server: the choice of the database backends (\<^verbatim>\<open>open\<close> of \<^verbatim>\<open>src/src/storage/mod.rs\<close> and
  \<^verbatim>\<open>src/src/auth/mod.rs\<close>), \<^verbatim>\<open>Server::new\<close> and \<^verbatim>\<open>Server::run\<close> of \<^verbatim>\<open>src/src/server.rs\<close>, the start of the WebSocket bridge and \<^verbatim>\<open>main\<close> of
  \<^verbatim>\<open>src/src/main.rs\<close>. What the machine and the libraries give is the record \<open>host\<close>: the drivers of the
  databases (theory \<open>Backends\<close>), whether the scheduler starts, the identifiers of its jobs, and the features of the build. Error
  messages are given by their first line.
\<close>

record ('l, 'tls) host =
  host_network :: "'l network"
  host_tls :: "'tls tls_library"
  host_scheduler :: scheduler
  host_job_ids :: "nat option list"
  scheduler_starts :: bool
  sqlite_storage :: "db driver"
  postgres_storage :: "db driver"
  sqlite_auth :: "adb driver"
  postgres_auth :: "adb driver"
  peer_store :: "peer_file connector"
  postgres_feature :: bool
  websocket_feature :: bool

subsection \<open>Backends\<close>

definition open_storage :: "('l, 'tls) host \<Rightarrow> string \<Rightarrow> db result" where
  "open_storage H uri =
     (if starts_with uri ''sqlite:''
      then (case sqlite_storage_new (sqlite_storage H) uri of
              Inr d \<Rightarrow> Inr d
            | Inl e \<Rightarrow> Inl (Anyhow (''Failed to connect to SQLite database '' @ quoted uri @ '': '' @ e)))
      else if starts_with uri ''postgres:''
      then (if postgres_feature H
            then (case postgres_storage_new (postgres_storage H) uri of
                    Inr d \<Rightarrow> Inr d
                  | Inl e \<Rightarrow> Inl (Anyhow (''Failed to connect to PostgreSQL database '' @ quoted uri @ '': '' @ e)))
            else Inl (Anyhow (''PostgreSQL backend not enabled: '' @ quoted uri)))
      else Inl (Anyhow (''Unknown storage backend: '' @ quoted uri)))"

definition open_auth :: "('l, 'tls) host \<Rightarrow> string \<Rightarrow> adb result" where
  "open_auth H uri =
     (if starts_with uri ''sqlite:''
      then (case sqlite_auth_new (sqlite_auth H) uri of
              Inr d \<Rightarrow> Inr d
            | Inl e \<Rightarrow> Inl (Anyhow (''Failed to connect to SQLite authentication database '' @ quoted uri @ '': '' @ e)))
      else if starts_with uri ''postgres:''
      then (if postgres_feature H
            then (case postgres_auth_new (postgres_auth H) uri of
                    Inr d \<Rightarrow> Inr d
                  | Inl e \<Rightarrow> Inl (Anyhow (''Failed to connect to PostgreSQL authentication database '' @ quoted uri @ '': '' @ e)))
            else Inl (Anyhow (''PostgreSQL backend not enabled: '' @ quoted uri)))
      else Inl (Anyhow (''Unknown authentication backend: '' @ quoted uri)))"

subsection \<open>A new server\<close>

definition new_manager :: "nat option list \<Rightarrow> peer_db \<Rightarrow> manager" where
  "new_manager ids d = \<lparr>manager_db = d, scheduled = [], peer_jobs = [], added = ids\<rparr>"

definition server_new :: "('l, 'tls) host \<Rightarrow> config \<Rightarrow> 'tls running result" where
  "server_new H cfg =
     (case open_storage H (cfg_db_path cfg) of
        Inl e \<Rightarrow> Inl e
      | Inr opened \<Rightarrow>
     (case open_auth H (cfg_auth_db_path cfg) of
        Inl e \<Rightarrow> Inl e
      | Inr opened_auth \<Rightarrow>
     (case peer_db_new (peer_store H) (cfg_peer_db_path cfg) of
        Inl e \<Rightarrow> Inl e
      | Inr peers_opened \<Rightarrow>
     (case initialize_peer_db cfg peers_opened of
        (Inl e, _) \<Rightarrow> Inl e
      | (Inr _, synced) \<Rightarrow>
          if \<not> scheduler_starts H then Inl (Anyhow ''scheduler'')
          else Inr \<lparr>run_server = initialize_components cfg opened opened_auth,
                    run_manager = new_manager (host_job_ids H) synced,
                    tls_acceptor = None, listener_acceptor = None\<rparr>))))"

subsection \<open>Running it\<close>

datatype 'l service =
    Worker nat
  | TcpListener 'l
  | TlsListener 'l
  | WebSocketBridge string
  | RetentionCleanup
  | ConfigReloadHandler
  | UsagePersistence

text \<open>The server and the services started so far.\<close>

type_synonym ('l, 'tls, 'a) starting = "('tls running \<times> 'l service list, 'a) action"

definition start_service :: "'l service \<Rightarrow> ('l, 'tls, unit) starting" where
  "start_service s st = (Inr (), fst st, snd st @ [s])"

definition start_workers :: "('l, 'tls, unit) starting" where
  "start_workers st =
     (Inr (), fst st, snd st @ map Worker (worker_pool_start (cfg_article_worker_count (config (run_server (fst st))))))"

definition start_peers :: "('l, 'tls) host \<Rightarrow> ('l, 'tls, unit) starting" where
  "start_peers H st =
     (Inr (), (fst st)\<lparr>run_manager := start_peer_tasks (host_scheduler H) (config (run_server (fst st)))
        (run_manager (fst st))\<rparr>, snd st)"

definition start_tcp :: "('l, 'tls) host \<Rightarrow> ('l, 'tls, unit) starting" where
  "start_tcp H st =
     (case get_listener (host_network H) (cfg_addr (config (run_server (fst st)))) of
        Inl e \<Rightarrow> (Inl e, st)
      | Inr listener \<Rightarrow> start_service (TcpListener listener) st)"

definition start_tls :: "('l, 'tls) host \<Rightarrow> ('l, 'tls, unit) starting" where
  "start_tls H st =
     (case start_tls_listener (host_network H) (load_tls_config (host_tls H)) (fst st) of
        (Inl e, r) \<Rightarrow> (Inl e, r, snd st)
      | (Inr None, r) \<Rightarrow> (Inr (), r, snd st)
      | (Inr (Some listener), r) \<Rightarrow> start_service (TlsListener listener) (r, snd st))"

definition start_websocket_bridge :: "('l, 'tls) host \<Rightarrow> ('l, 'tls, unit) starting" where
  "start_websocket_bridge H st =
     (if \<not> websocket_feature H then (Inr (), st)
      else case cfg_ws_addr (config (run_server (fst st))) of
             None \<Rightarrow> (Inr (), st)
           | Some addr_raw \<Rightarrow> start_service (WebSocketBridge addr_raw) st)"

definition start_services :: "('l, 'tls) host \<Rightarrow> ('l, 'tls, unit) starting" where
  "start_services H st =
     bind_res start_workers (\<lambda>_.
     bind_res (start_peers H) (\<lambda>_.
     bind_res (start_tcp H) (\<lambda>_.
     bind_res (start_tls H) (\<lambda>_.
     bind_res (start_websocket_bridge H) (\<lambda>_.
     bind_res (start_service RetentionCleanup) (\<lambda>_.
     bind_res (start_service ConfigReloadHandler) (\<lambda>_.
     start_service UsagePersistence))))))) st"

text \<open>\<^verbatim>\<open>run\<close>: after the start it waits for the interrupt, and then the phases of the shutdown follow (\<open>shutdown_phases\<close>).\<close>

definition server_run :: "('l, 'tls) host \<Rightarrow> config \<Rightarrow> ('tls running \<times> 'l service list) result" where
  "server_run H cfg =
     (case server_new H cfg of
        Inl e \<Rightarrow> Inl e
      | Inr r \<Rightarrow>
          (case start_services H (r, []) of
             (Inl e, _) \<Rightarrow> Inl e
           | (Inr _, st) \<Rightarrow> Inr st))"

text \<open>The task of the bridge: where it listens, and the address of the news server it connects to.\<close>

definition run_ws_bridge :: "'l network \<Rightarrow> config \<Rightarrow> ('l \<times> string) option result" where
  "run_ws_bridge N cfg =
     (case cfg_ws_addr cfg of
        None \<Rightarrow> Inr None
      | Some ws_addr_raw \<Rightarrow>
          (case tcp_bind N (ws_listen_addr ws_addr_raw) of
             None \<Rightarrow> Inl (Anyhow (''Failed to bind to WebSocket address '' @ ws_listen_addr ws_addr_raw))
           | Some listener \<Rightarrow>
               Inr (Some (listener, ''127.0.0.1:'' @ show_nat (port_from_addr (cfg_addr cfg) 119)))))"

subsection \<open>The main program\<close>

definition DEFAULT_LOG_FILTER :: string where
  "DEFAULT_LOG_FILTER = ''renews=info,sqlx=warn''"

text \<open>The filter of the log and whether it is written as JSON; \<open>rust_log\<close> is the environment variable.\<close>

definition init_tracing :: "string option \<Rightarrow> config \<Rightarrow> string \<times> bool" where
  "init_tracing rust_log cfg =
     (case log_level (cfg_logging cfg) of
        Some level \<Rightarrow> level
      | None \<Rightarrow> (case rust_log of Some level \<Rightarrow> level | None \<Rightarrow> DEFAULT_LOG_FILTER),
      log_format (cfg_logging cfg) = ''json'')"

text \<open>Which runtime is asked for: the default one, or one with a number of worker threads.\<close>

datatype runtime = DefaultRuntime | MultiThread nat

definition choose_runtime :: "nat \<Rightarrow> runtime" where
  "choose_runtime runtime_threads = (if runtime_threads = 1 then DefaultRuntime else MultiThread runtime_threads)"

record arguments =
  arg_config :: string
  arg_init :: bool
  arg_command :: "admin_command option"

definition init_databases :: "('l, 'tls) host \<Rightarrow> config \<Rightarrow> unit result" where
  "init_databases H cfg =
     (case open_storage H (cfg_db_path cfg) of
        Inl e \<Rightarrow> Inl e
      | Inr _ \<Rightarrow>
     (case open_auth H (cfg_auth_db_path cfg) of
        Inl e \<Rightarrow> Inl e
      | Inr _ \<Rightarrow>
     (case peer_db_new (peer_store H) (cfg_peer_db_path cfg) of
        Inl e \<Rightarrow> Inl e
      | Inr d \<Rightarrow> fst (run_init cfg d))))"

definition admin_program ::
  "ext \<Rightarrow> (string \<Rightarrow> string result list option) \<Rightarrow> ('l, 'tls) host \<Rightarrow> config \<Rightarrow> admin_command \<Rightarrow> console result" where
  "admin_program X files H cfg cmd =
     (case open_storage H (cfg_db_path cfg) of
        Inl e \<Rightarrow> Inl e
      | Inr opened \<Rightarrow>
     (case open_auth H (cfg_auth_db_path cfg) of
        Inl e \<Rightarrow> Inl e
      | Inr opened_auth \<Rightarrow>
     (case run_admin X files cmd (server.extend (initialize_components cfg opened opened_auth) (console.fields [])) of
        (Inl e, _) \<Rightarrow> Inl e
      | (Inr _, w) \<Rightarrow> Inr w)))"

text \<open>What the process does, and its exit code: \<open>Failed\<close> is the code 1.\<close>

datatype ('l, 'tls) outcome =
    Failed
  | Initialised
  | Administered console
  | Served "'tls running" "'l service list"

definition main_program ::
  "ext \<Rightarrow> (string \<Rightarrow> string result list option) \<Rightarrow> ('l, 'tls) host \<Rightarrow> (string \<Rightarrow> config result) \<Rightarrow> nat option \<Rightarrow>
   (runtime \<Rightarrow> bool) \<Rightarrow> arguments \<Rightarrow> ('l, 'tls) outcome" where
  "main_program X files H from_file cores builds args =
     (case from_file (arg_config args) of
        Inl e \<Rightarrow> Failed
      | Inr cfg_initial \<Rightarrow>
     (case get_runtime_threads cores cfg_initial of
        Inl e \<Rightarrow> Failed
      | Inr runtime_threads \<Rightarrow>
          if \<not> builds (choose_runtime runtime_threads) then Failed
          else if arg_init args
          then (case init_databases H cfg_initial of Inl e \<Rightarrow> Failed | Inr _ \<Rightarrow> Initialised)
          else (case arg_command args of
                  Some c \<Rightarrow>
                    (case admin_program X files H cfg_initial c of Inl e \<Rightarrow> Failed | Inr w \<Rightarrow> Administered w)
                | None \<Rightarrow>
                    (case server_run H cfg_initial of Inl e \<Rightarrow> Failed | Inr (r, ss) \<Rightarrow> Served r ss))))"

end
