(* ===== verification/Startup_Properties.thy ===== *)
theory Startup_Properties
  imports Startup System_Properties Lifecycle_Properties
begin

text \<open>
  The start of the server: when it succeeds and what then runs, and that the state it starts in is one from
  which the invariants of the whole system hold.
\<close>

lemma initialize_components_sel [simp]:
  "storage (initialize_components cfg d a) = d" "auth (initialize_components cfg d a) = a"
  "config (initialize_components cfg d a) = cfg" "queue_items (queue (initialize_components cfg d a)) = []"
  "usage_tracker (initialize_components cfg d a) = new_tracker (cfg_user_limits cfg)"
  by (simp_all add: initialize_components_def new_queue_def)

lemma server_new_okE:
  assumes "server_new H cfg = Inr r"
  obtains d a where "open_storage H (cfg_db_path cfg) = Inr d" "open_auth H (cfg_auth_db_path cfg) = Inr a"
    "run_server r = initialize_components cfg d a" "tls_acceptor r = None" "listener_acceptor r = None"
  using assms by (auto simp: server_new_def split: sum.splits option.splits prod.splits if_splits)

text \<open>Starting a service changes nothing of the server's shared state.\<close>

lemma start_services_server:
  fixes H :: "('l, 'tls) host"
  assumes "start_services H (r, ss) = (res, r', ss')"
  shows "run_server r' = run_server r"
proof -
  let ?P = "\<lambda>st :: 'tls running \<times> 'l service list. run_server (fst st) = run_server r"
  have one: "keeps ?P (start_service s)" for s by (simp add: keeps_def start_service_def)
  have workers: "keeps ?P start_workers" by (simp add: keeps_def start_workers_def)
  have "keeps ?P (start_peers H)" by (simp add: keeps_def start_peers_def)
  moreover have "keeps ?P (start_tcp H)"
    by (auto simp: keeps_def start_tcp_def start_service_def split: sum.splits)
  moreover have "keeps ?P (start_tls H)"
    by (auto simp: keeps_def start_tls_def start_tls_listener_def start_service_def Let_def
        split: sum.splits option.splits prod.splits)
  moreover have "keeps ?P (start_websocket_bridge H)"
    by (auto simp: keeps_def start_websocket_bridge_def start_service_def split: option.splits)
  ultimately have "keeps ?P (bind_res start_workers (\<lambda>_. bind_res (start_peers H) (\<lambda>_.
     bind_res (start_tcp H) (\<lambda>_. bind_res (start_tls H) (\<lambda>_. bind_res (start_websocket_bridge H) (\<lambda>_.
     bind_res (start_service RetentionCleanup) (\<lambda>_. bind_res (start_service ConfigReloadHandler) (\<lambda>_.
     start_service UsagePersistence))))))))"
    by (intro keeps_intros one workers)
  from keepsD' [OF this assms [unfolded start_services_def]] show ?thesis by simp
qed

definition started_system :: "'tls running \<Rightarrow> system" where
  "started_system r = \<lparr>sys_server = run_server r, sys_peers = manager_db (run_manager r), sys_connections = []\<rparr>"

lemma started_system_ok:
  assumes "server_run H cfg = Inr (r, ss)"
    and "\<And>d. open_storage H (cfg_db_path cfg) = Inr d \<Longrightarrow> storage_ok X d"
    and "\<And>a. open_auth H (cfg_auth_db_path cfg) = Inr a \<Longrightarrow> adb_ok a"
  shows "sys_ok X (started_system r)" and "connections (usage_tracker (run_server r)) = Map.empty"
    and "config (run_server r) = cfg"
proof -
  from assms(1) obtain r0 res where new: "server_new H cfg = Inr r0" and st: "start_services H (r0, []) = (res, r, ss)"
    by (auto simp: server_run_def split: sum.splits prod.splits)
  from server_new_okE [OF new] obtain d a where
    "open_storage H (cfg_db_path cfg) = Inr d" "open_auth H (cfg_auth_db_path cfg) = Inr a"
    "run_server r0 = initialize_components cfg d a" by metis
  with start_services_server [OF st] assms(2,3)
  show "sys_ok X (started_system r)" "connections (usage_tracker (run_server r)) = Map.empty"
    "config (run_server r) = cfg"
    by (simp_all add: started_system_def sys_ok_def server_ok_def queue_len_def new_tracker_def)
qed

subsection \<open>Restarts\<close>

text \<open>The life of an installation: steps of the running server, and starts of the program on some machine with some
  configuration on the databases as they are. What was only in memory (connections, counters, the queue) is gone.\<close>

inductive life_step ::
  "(('l, 'tls) host \<times> config) set \<Rightarrow> ext \<Rightarrow> (ctx \<Rightarrow> bool) \<Rightarrow> system \<Rightarrow> system \<Rightarrow> bool" for starts X allowed where
  running: "sys_step X allowed s s' \<Longrightarrow> life_step starts X allowed s s'"
| restart: "(H, cfg) \<in> starts \<Longrightarrow> server_run H cfg = Inr (r, ss) \<Longrightarrow>
    open_storage H (cfg_db_path cfg) = Inr ((storage (sys_server s))\<lparr>faults := fs\<rparr>) \<Longrightarrow>
    open_auth H (cfg_auth_db_path cfg) = Inr ((auth (sys_server s))\<lparr>faults := gs\<rparr>) \<Longrightarrow>
    life_step starts X allowed s (started_system r)"

inductive_cases life_stepE: "life_step starts X allowed s s'"

text \<open>What is assumed of the machine: its drivers migrate as documented, and the databases it holds are in order.\<close>

definition machine_ok :: "ext \<Rightarrow> ('l, 'tls) host \<Rightarrow> config \<Rightarrow> bool" where
  "machine_ok X H cfg \<longleftrightarrow>
     migrates (sqlite_storage H) empty_db \<and> migrates (postgres_storage H) empty_db \<and>
     migrates (sqlite_auth H) empty_adb \<and> migrates (postgres_auth H) empty_adb \<and>
     (\<forall>d. found_at (sqlite_storage H) (cfg_db_path cfg) d \<or> found_at (postgres_storage H) (cfg_db_path cfg) d \<longrightarrow>
        storage_ok X d) \<and>
     (\<forall>a. found_at (sqlite_auth H) (cfg_auth_db_path cfg) a \<or> found_at (postgres_auth H) (cfg_auth_db_path cfg) a \<longrightarrow>
        adb_ok a)"

lemma machine_opens:
  assumes "machine_ok X H cfg" and "json_ok X"
  shows "open_storage H (cfg_db_path cfg) = Inr d \<Longrightarrow> storage_ok X d"
    and "open_auth H (cfg_auth_db_path cfg) = Inr a \<Longrightarrow> adb_ok a"
proof -
  have new: "storage_ok X (empty_db\<lparr>faults := fs\<rparr>)" "adb_ok (empty_adb\<lparr>faults := fs\<rparr>)" for fs
    using assms(2) by (simp_all add: storage_ok_def rows_ok_def) (simp add: empty_db_def)
  note M = assms(1) [unfolded machine_ok_def]
  {
    assume "open_storage H (cfg_db_path cfg) = Inr d"
    then have "sqlite_storage_new (sqlite_storage H) (cfg_db_path cfg) = Inr d \<or>
        postgres_storage_new (postgres_storage H) (cfg_db_path cfg) = Inr d"
      by (auto simp: open_storage_def split: if_splits sum.splits)
    then show "storage_ok X d" using M new(1) storage_new_opens by metis
  next
    assume "open_auth H (cfg_auth_db_path cfg) = Inr a"
    then have "sqlite_auth_new (sqlite_auth H) (cfg_auth_db_path cfg) = Inr a \<or>
        postgres_auth_new (postgres_auth H) (cfg_auth_db_path cfg) = Inr a"
      by (auto simp: open_auth_def split: if_splits sum.splits)
    then show "adb_ok a" using M new(2) auth_new_opens by metis
  }
qed

lemma life_step_ok:
  assumes "life_step starts X allowed s s'" and "sys_ok X s"
  shows "sys_ok X s'"
  using assms(1)
proof (rule life_stepE)
  assume "sys_step X allowed s s'"
  then show ?thesis using sys_steps_ok [of X allowed s s'] assms(2) by blast
next
  fix H :: "('a, 'b) host" and cfg r ss fs gs
  assume s': "s' = started_system r" and run: "server_run H cfg = Inr (r, ss)"
    and "open_storage H (cfg_db_path cfg) = Inr ((storage (sys_server s))\<lparr>faults := fs\<rparr>)"
    and "open_auth H (cfg_auth_db_path cfg) = Inr ((auth (sys_server s))\<lparr>faults := gs\<rparr>)"
  moreover from assms(2) have "storage_ok X (storage (sys_server s))" "adb_ok (auth (sys_server s))"
    by (simp_all add: sys_ok_def server_ok_def)
  ultimately show ?thesis using started_system_ok(1) [OF run, of X] by simp
qed


definition sample_network :: "string network" where
  "sample_network = \<lparr>systemd_parse = (\<lambda>_. None), systemd_bind = (\<lambda>_. None), set_nonblocking = (\<lambda>_. True),
     listener_from_std = Some, tcp_bind = (\<lambda>a. if is_socket_addr a then Some a else None)\<rparr>"

definition sample_tls :: "string tls_library" where
  "sample_tls = \<lparr>file_open = (\<lambda>p. if p = ''cert.pem'' \<or> p = ''key.pem'' then Inr p else Inl NotFound),
     pem_certs = (\<lambda>f. Some [f]), pkcs8_private_keys = (\<lambda>f. if f = ''key.pem'' then Some [f] else Some []),
     with_single_cert = (\<lambda>cs k. Some k)\<rparr>"

definition parsed_options :: "string \<Rightarrow> string + connect_options" where
  "parsed_options uri = Inr \<lparr>opt_uri = uri, opt_create_if_missing = False\<rparr>"

text \<open>A driver whose only database holds the given tables, and which creates empty ones.\<close>

definition disk :: "'d option \<Rightarrow> 'd \<Rightarrow> 'd driver" where
  "disk content fresh = \<lparr>options_from_str = parsed_options, connect_with = (\<lambda>n opts. Inr content),
     run_migrations = (\<lambda>m pool. Inr (case pool of None \<Rightarrow> fresh | Some d \<Rightarrow> d))\<rparr>"

definition sample_host :: "(string, string) host" where
  "sample_host = \<lparr>host_network = sample_network, host_tls = sample_tls,
     host_scheduler = \<lparr>cron_valid = (\<lambda>_. True), removes = (\<lambda>_. True)\<rparr>, host_job_ids = [], scheduler_starts = True,
     sqlite_storage = disk (Some sample_db) empty_db, postgres_storage = disk None empty_db,
     sqlite_auth = disk (Some sample_adb) empty_adb, postgres_auth = disk None empty_adb,
     peer_store = \<lparr>options_from_str = parsed_options, connect_with = (\<lambda>n opts. Inr \<lparr>faults = [], peers_table = None\<rparr>)\<rparr>,
     postgres_feature = False, websocket_feature = True\<rparr>"

lemma sample_opens:
  "open_storage sample_host (cfg_db_path sample_config) = Inr sample_db"
  "open_auth sample_host (cfg_auth_db_path sample_config) = Inr sample_adb"
  by code_simp+

lemma sample_machine: "machine_ok sample_ext sample_host sample_config"
proof -
  have "adb_ok sample_adb" by (simp add: sample_adb_def adb_ok_def user_names_def)
  moreover have "storage_ok sample_ext sample_db" using storage_ok_sample by (simp add: sample_server_def)
  moreover have "migrates (disk content empty_db) empty_db" "migrates (disk content' empty_adb) empty_adb"
    for content content' by (auto simp: migrates_def disk_def intro: exI [of _ "[]"]) (simp_all add: empty_db_def empty_adb_def)
  ultimately show ?thesis
    by (auto simp: machine_ok_def sample_host_def found_at_def disk_def)
qed


text \<open>The format that the message about an invalid URI names is refused before such a message could be given.\<close>

theorem postgresql_uri_refused:
  "open_storage H (''postgresql:'' @ rest) =
     Inl (Anyhow (''Unknown storage backend: '' @ quoted (''postgresql:'' @ rest)))"
  by (simp add: open_storage_def starts_with_def)

subsection \<open>When the start succeeds\<close>

definition tls_configured :: "config \<Rightarrow> (string \<times> string \<times> string) option" where
  "tls_configured cfg =
     (case (cfg_tls_addr cfg, cfg_tls_cert cfg, cfg_tls_key cfg) of
        (Some a, Some c, Some k) \<Rightarrow> Some (a, c, k) | _ \<Rightarrow> None)"

definition websocket_services :: "('l, 'tls) host \<Rightarrow> config \<Rightarrow> 'l service list" where
  "websocket_services H cfg =
     (case cfg_ws_addr cfg of Some a \<Rightarrow> if websocket_feature H then [WebSocketBridge a] else [] | None \<Rightarrow> [])"

lemma server_run_eq:
  assumes "server_new H cfg = Inr r0"
  defines "r1 \<equiv> r0\<lparr>run_manager := start_peer_tasks (host_scheduler H) cfg (run_manager r0)\<rparr>"
  shows "server_run H cfg =
     (case get_listener (host_network H) (cfg_addr cfg) of
        Inl e \<Rightarrow> Inl e
      | Inr l \<Rightarrow>
          (let started = (\<lambda>r tls. Inr (r, map Worker [0..<cfg_article_worker_count cfg] @ [TcpListener l] @ tls @
                 websocket_services H cfg @ [RetentionCleanup, ConfigReloadHandler, UsagePersistence]))
           in case tls_configured cfg of
                None \<Rightarrow> started r1 []
              | Some (a, c, k) \<Rightarrow>
                  (case get_listener (host_network H) a of
                     Inl e \<Rightarrow> Inl e
                   | Inr m \<Rightarrow>
                       (case load_tls_config (host_tls H) c k of
                          Inl e \<Rightarrow> Inl e
                        | Inr t \<Rightarrow> started (r1\<lparr>tls_acceptor := Some t, listener_acceptor := Some t\<rparr>) [TlsListener m]))))"
proof -
  from server_new_okE [OF assms(1)] have cfg: "config (run_server r0) = cfg" by (metis initialize_components_sel(3))
  show ?thesis
    unfolding server_run_def assms(1) start_services_def
    by (simp add: cfg r1_def bind_res_def start_service_def start_workers_def worker_pool_start_def start_peers_def start_tcp_def start_tls_def
        start_tls_listener_def start_websocket_bridge_def tls_configured_def websocket_services_def Let_def
        split: sum.split option.split)
qed


definition tls_config :: config where
  "tls_config = sample_config\<lparr>cfg_tls_addr := Some ''[::1]:563'', cfg_tls_cert := Some ''cert.pem'',
     cfg_tls_key := Some ''key.pem''\<rparr>"


end
