(* ===== verification/Listing_Properties.thy ===== *)
theory Listing_Properties
  imports Reading_Properties
begin

text \<open>
  What the listing commands of \<^verbatim>\<open>src/src/handlers/group.rs\<close> send: LIST ACTIVE and NEWNEWS with a pattern. Both hand the name
  of the group to \<^verbatim>\<open>wildmat\<close> as the pattern and the pattern of the client as the text, so that for ordinary names
  a pattern selects the group of that name and no other.
\<close>

definition names :: "db \<Rightarrow> string list" where
  "names d = map g_name (sort_key g_name (groups d))"

definition numbers :: "db \<Rightarrow> string \<Rightarrow> nat list" where
  "numbers d g = map (\<lambda>r. nat (ga_number r)) (group_rows g d)"

definition active_line :: "db \<Rightarrow> string \<Rightarrow> string" where
  "active_line d g = g @ '' '' @ show_nat (last_or_zero (numbers d g)) @ '' '' @
     show_nat (first_or_zero (numbers d g)) @ '' y'' @ CRLF"

definition new_ids :: "db \<Rightarrow> datetime \<Rightarrow> string \<Rightarrow> string list" where
  "new_ids d since g = map ga_message_id (filter (\<lambda>r. timestamp since < ga_inserted_at r) (group_rows g d))"

text \<open>An ordinary name: at most 512 characters, none of which is special in a pattern.\<close>

definition ordinary :: "string \<Rightarrow> bool" where
  "ordinary g \<longleftrightarrow> plain_name g \<and> length g \<le> 512"

subsection \<open>Writing in a loop\<close>

lemma answered_sel [simp]:
  "storage (answered t c) = storage c" "takes (writer (answered t c)) = takes (writer c)" "answered [] c = c"
  "answered t' (answered t c) = answered (t @ t') c"
  by (simp_all add: answered_def)

lemma for_each_answers:
  assumes "\<And>x c'. x \<in> set xs \<Longrightarrow> storage c' = storage c \<Longrightarrow> takes (writer c') = None \<Longrightarrow> f x c' = (Inr (), answered (t x) c')"
    and "takes (writer c) = None"
  shows "for_each f xs c = (Inr (), answered (concat (map t xs)) c)"
  using assms
proof (induction xs arbitrary: c)
  case (Cons x xs)
  have "f x c = (Inr (), answered (t x) c)" using Cons.prems by simp
  moreover have "for_each f xs (answered (t x) c) = (Inr (), answered (concat (map t xs)) (answered (t x) c))"
    by (rule Cons.IH) (use Cons.prems in auto)
  ultimately show ?case by (simp add: bind_res_def)
qed simp

lemma on_storage_query:
  "faults (storage c) = [] \<Longrightarrow> on_storage (select q) c = (Inr (q (storage c)), c)"
  by (simp add: on_storage_def select_ok)

subsection \<open>The listings\<close>

lemma list_active_open:
  assumes "faults (storage c) = []" and "takes (writer c) = None"
  shows "handle_list_active X pattern c = (Inr (), answered (RESP_215_LIST_FOLLOWS @
     concat (map (\<lambda>g. if case pattern of None \<Rightarrow> True | Some p \<Rightarrow> wildmat X g p then active_line (storage c) g else [])
       (names (storage c))) @ RESP_DOT_CRLF) c)"
proof -
  let ?f = "\<lambda>grp. if (case pattern of None \<Rightarrow> False | Some pat \<Rightarrow> \<not> wildmat X grp pat) then ret ()
         else bind_res (on_storage (list_article_numbers grp)) (\<lambda>nums.
                write_all (grp @ '' '' @ show_nat (last_or_zero nums) @ '' '' @
                  show_nat (first_or_zero nums) @ '' y'' @ CRLF))"
  let ?c = "answered RESP_215_LIST_FOLLOWS c"
  have "for_each ?f (names (storage c)) ?c = (Inr (), answered (concat (map (\<lambda>g. if case pattern of None \<Rightarrow> True |
      Some p \<Rightarrow> wildmat X g p then active_line (storage c) g else []) (names (storage c)))) ?c)"
    by (rule for_each_answers)
       (use assms in \<open>auto simp: bind_res_def list_article_numbers_def on_storage_query write_all_open active_line_def
          numbers_def split: option.splits\<close>)
  with assms show ?thesis
    by (simp add: handle_list_active_def bind_res_def write_simple_open list_groups_def on_storage_query names_def
        write_all_open)
qed

lemma newnews_open:
  assumes "faults (storage c) = []" and "takes (writer c) = None" and "new_since X date time (first_arg rest) = Inr since"
  shows "newnews_handler X (p # date # time # rest) c = (Inr (), answered (RESP_230_NEWNEWS @
     concat (map (\<lambda>g. if wildmat X g p then concat (map (\<lambda>i. i @ CRLF) (new_ids (storage c) since g)) else [])
       (names (storage c))) @ RESP_DOT_CRLF) c)"
proof -
  let ?c = "answered RESP_230_NEWNEWS c"
  let ?f = "\<lambda>grp. if wildmat X grp p then bind_res (on_storage (list_article_ids_since grp since)) (\<lambda>ids.
      for_each (\<lambda>i. write_all (i @ CRLF)) ids) else ret ()"
  have ids: "for_each (\<lambda>i. write_all (i @ CRLF)) is c' = (Inr (), answered (concat (map (\<lambda>i. i @ CRLF) is)) c')"
    if "takes (writer c') = None" for "is" c'
    by (rule for_each_answers) (use that in \<open>simp_all add: write_all_open\<close>)
  have "for_each ?f (names (storage c)) ?c = (Inr (), answered (concat (map (\<lambda>g. if wildmat X g p
      then concat (map (\<lambda>i. i @ CRLF) (new_ids (storage c) since g)) else []) (names (storage c)))) ?c)"
    by (rule for_each_answers)
       (use assms ids in \<open>auto simp: bind_res_def list_article_ids_since_def on_storage_query new_ids_def\<close>)
  with assms show ?thesis
    by (simp add: newnews_handler_def bind_res_def write_simple_open list_groups_def on_storage_query names_def
        write_all_open)
qed

text \<open>One of distinct names at most is the pattern.\<close>

lemma concat_only:
  "distinct xs \<Longrightarrow> concat (map (\<lambda>x. if p = x then f x else []) xs) = (if p \<in> set xs then f p else [])"
  by (induction xs) auto

lemma set_names: "set (names d) = g_name ` set (groups d)"
  by (simp add: names_def)

lemma distinct_names: "db_ok d \<Longrightarrow> distinct (names d)"
  by (simp add: names_def db_ok_def distinct_map)

text \<open>C16: what LIST ACTIVE and NEWNEWS send to a client whose connection does not break, when no statement fails and the
  groups have ordinary names. LIST ACTIVE without a pattern sends a line for every group, in alphabetical
  order, with its highest and its lowest number. With a pattern it sends the line of the group that has the pattern
  for its name, if there is one, and NEWNEWS the new articles of that group: a pattern with a wildcard selects
  nothing.\<close>

theorem listings_take_patterns_literally:
  assumes "regex_ok X" and "db_ok (storage c)" and "faults (storage c) = []" and "takes (writer c) = None"
    and "\<forall>g \<in> g_name ` set (groups (storage c)). ordinary g"
  shows "list_handler X [''ACTIVE''] c = (Inr (), answered (RESP_215_LIST_FOLLOWS @
        concat (map (active_line (storage c)) (names (storage c))) @ RESP_DOT_CRLF) c) \<and>
    list_handler X [''ACTIVE'', p] c = (Inr (), answered (RESP_215_LIST_FOLLOWS @
        (if p \<in> g_name ` set (groups (storage c)) then active_line (storage c) p else []) @ RESP_DOT_CRLF) c) \<and>
    (new_since X date time (first_arg rest) = Inr since \<longrightarrow>
       newnews_handler X (p # date # time # rest) c = (Inr (), answered (RESP_230_NEWNEWS @
         (if p \<in> g_name ` set (groups (storage c))
          then concat (map (\<lambda>i. i @ CRLF) (new_ids (storage c) since p)) else []) @ RESP_DOT_CRLF) c))"
proof -
  let ?names = "names (storage c)"
  have literal: "concat (map (\<lambda>g. if wildmat X g p then f g else []) ?names) =
      (if p \<in> g_name ` set (groups (storage c)) then f p else [])" for f :: "string \<Rightarrow> string"
  proof -
    have "wildmat X g p \<longleftrightarrow> p = g" if "g \<in> set ?names" for g
      using wildmat_plain [OF assms(1), of g p] assms(5) that by (auto simp: set_names ordinary_def)
    then have "map (\<lambda>g. if wildmat X g p then f g else []) ?names = map (\<lambda>g. if p = g then f g else []) ?names" by simp
    with concat_only [OF distinct_names [OF assms(2)], of p f] show ?thesis unfolding set_names by metis
  qed
  show ?thesis
    using list_active_open [OF assms(3,4), of X] newnews_open [OF assms(3,4)]
    by (simp add: list_handler_def first_arg_def literal)
qed

definition listing_ctx :: ctx where
  "listing_ctx = reading_ctx\<lparr>storage := sample_db\<rparr>"

theorem listings_take_patterns_literally_witness:
  "''misc.test'' \<in> g_name ` set (groups (storage listing_ctx)) \<and>
   list_handler sample_ext [''ACTIVE'', ''misc.*''] listing_ctx =
     (Inr (), answered (RESP_215_LIST_FOLLOWS @ RESP_DOT_CRLF) listing_ctx)"
proof -
  have c: "storage listing_ctx = sample_db" "takes (writer listing_ctx) = None"
    by (simp_all add: listing_ctx_def reading_ctx_def Let_def open_writer_def)
  have "db_ok sample_db" "faults sample_db = []" "\<forall>g \<in> g_name ` set (groups sample_db). ordinary g"
    "''misc.*'' \<notin> g_name ` set (groups sample_db)" "''misc.test'' \<in> g_name ` set (groups sample_db)"
    by code_simp+
  with listings_take_patterns_literally [OF regex_ok_sample, of listing_ctx "''misc.*''"] c show ?thesis by simp
qed

end
