(* ===== verification/Interleaving.thy ===== *)
theory Interleaving
  imports Sql "HOL-Library.Multiset"
begin

text \<open>
  Operations on a database as their sequences of statements, so that the statements of several tasks can
  alternate. An \<open>action\<close> runs all statements of an operation at once; a \<open>task\<close> stops after each of them: it has
  finished with a result, or it is a statement that leads to a new state and to the rest of the task. What is
  computed between two statements belongs to the first. \<open>run_task\<close> runs a task alone and gives back the action;
  \<open>interleave\<close> lets any task of a pool take its next statement on the shared database.
\<close>

datatype ('d, 'a) task =
    Finished "'a result"
  | Statement "'d \<Rightarrow> ('d, 'a) task \<times> 'd"

primrec bind_task :: "('d, 'a) task \<Rightarrow> ('a \<Rightarrow> ('d, 'b) task) \<Rightarrow> ('d, 'b) task" where
  "bind_task (Finished r) f = (case r of Inl e \<Rightarrow> Finished (Inl e) | Inr x \<Rightarrow> f x)"
| "bind_task (Statement k) f = Statement (\<lambda>d. map_prod (\<lambda>t. bind_task t f) id (k d))"

primrec run_task :: "('d, 'a) task \<Rightarrow> ('d, 'a) action" where
  "run_task (Finished r) = (\<lambda>d. (r, d))"
| "run_task (Statement k) = (\<lambda>d. case map_prod run_task id (k d) of (g, d') \<Rightarrow> g d')"

definition stmt :: "('d, 'a) action \<Rightarrow> ('d, 'a) task" where
  "stmt a = Statement (\<lambda>d. map_prod Finished id (a d))"

fun each_task :: "('x \<Rightarrow> ('d, unit) task) \<Rightarrow> 'x list \<Rightarrow> ('d, unit) task" where
  "each_task f [] = Finished (Inr ())"
| "each_task f (x # xs) = bind_task (f x) (\<lambda>_. each_task f xs)"

fun result_of :: "('d, 'a) task \<Rightarrow> 'a result option" where
  "result_of (Finished r) = Some r"
| "result_of (Statement k) = None"

lemma result_of_eq [simp]: "result_of t = Some r \<longleftrightarrow> t = Finished r"
  by (cases t) auto

lemma map_result_of: "map result_of ts = map Some rs \<longleftrightarrow> ts = map Finished rs"
  by (induction ts arbitrary: rs) (auto simp: Cons_eq_map_conv)

subsection \<open>A task alone\<close>

lemma run_task_Statement: "k d = (t, d') \<Longrightarrow> run_task (Statement k) d = run_task t d'"
  by simp

lemma run_stmt [simp]: "run_task (stmt a) = a"
  by (simp add: stmt_def fun_eq_iff prod.case_eq_if)

lemma run_bind [simp]: "run_task (bind_task t f) = bind_res (run_task t) (\<lambda>x. run_task (f x))"
proof (induction t)
  case (Finished r)
  then show ?case by (cases r) (simp_all add: bind_res_def fun_eq_iff)
next
  case (Statement k)
  have "run_task (bind_task (fst (k d)) f) (snd (k d)) =
      bind_res (run_task (fst (k d))) (\<lambda>x. run_task (f x)) (snd (k d))" for d
    using Statement [of "k d" "fst (k d)"] by (simp add: prod_set_defs)
  then show ?case by (auto simp: fun_eq_iff bind_res_def prod.case_eq_if)
qed

lemma run_each [simp]: "run_task (each_task f xs) = for_each (\<lambda>x. run_task (f x)) xs"
proof (induction xs)
  case (Cons x xs)
  then show ?case by (intro ext) simp
qed (simp add: fun_eq_iff)

subsection \<open>Tasks that alternate\<close>

inductive interleave :: "('d, 'a) task list \<times> 'd \<Rightarrow> ('d, 'a) task list \<times> 'd \<Rightarrow> bool" where
  "i < length ts \<Longrightarrow> ts ! i = Statement k \<Longrightarrow> k d = (t, d') \<Longrightarrow> interleave (ts, d) (ts[i := t], d')"

inductive_cases interleaveE: "interleave (ts, d) s"

text \<open>The run that a list of task numbers asks for; the number of a finished task has no effect.\<close>

fun schedule :: "nat list \<Rightarrow> ('d, 'a) task list \<times> 'd \<Rightarrow> ('d, 'a) task list \<times> 'd" where
  "schedule [] s = s"
| "schedule (i # is) (ts, d) =
     (if i < length ts
      then (case ts ! i of
              Finished r \<Rightarrow> schedule is (ts, d)
            | Statement k \<Rightarrow> (case k d of (t, d') \<Rightarrow> schedule is (ts[i := t], d')))
      else schedule is (ts, d))"

lemma schedule_reachable: "interleave\<^sup>*\<^sup>* s (schedule is s)"
proof (induction "is" s rule: schedule.induct)
  case (2 i "is" ts d)
  show ?case
  proof (cases "i < length ts")
    case True
    show ?thesis
    proof (cases "ts ! i")
      case (Statement k)
      obtain t d' where k: "k d = (t, d')" by (cases "k d")
      with True Statement have "interleave (ts, d) (ts[i := t], d')" by (rule interleave.intros)
      with 2(2) [OF True Statement k [symmetric]] True Statement k show ?thesis
        by (simp add: converse_rtranclp_into_rtranclp)
    qed (use 2(1) True in simp)
  qed (use 2(3) in simp)
qed simp

lemma schedule_reaches: "\<exists>d. schedule is s = (ts, d) \<and> P d \<Longrightarrow> \<exists>d. interleave\<^sup>*\<^sup>* s (ts, d) \<and> P d"
  using schedule_reachable [of s "is"] by auto

text \<open>Whatever every statement keeps holds after every interleaving.\<close>

inductive task_keeps :: "('d \<Rightarrow> bool) \<Rightarrow> ('d, 'a) task \<Rightarrow> bool" for P where
  finished: "task_keeps P (Finished r)"
| statement: "(\<And>d. P d \<Longrightarrow> P (snd (k d))) \<Longrightarrow> (\<And>d. P d \<Longrightarrow> task_keeps P (fst (k d))) \<Longrightarrow> task_keeps P (Statement k)"

inductive_cases task_keeps_StatementE: "task_keeps P (Statement k)"

lemma task_keeps_stmt: "keeps P a \<Longrightarrow> task_keeps P (stmt a)"
  unfolding stmt_def by (rule task_keeps.statement) (auto simp: keeps_def prod.case_eq_if intro: task_keeps.finished)

lemma task_keeps_bind:
  "task_keeps P t \<Longrightarrow> (\<And>x. task_keeps P (f x)) \<Longrightarrow> task_keeps P (bind_task t f)"
  by (induction rule: task_keeps.induct) (auto intro: task_keeps.intros split: sum.split)

text \<open>What follows a statement may rely on its result.\<close>

lemma task_keeps_bind_stmt:
  assumes "keeps P a" and "\<And>d x d'. P d \<Longrightarrow> a d = (Inr x, d') \<Longrightarrow> task_keeps P (f x)"
  shows "task_keeps P (bind_task (stmt a) f)"
  unfolding stmt_def bind_task.simps
proof (rule task_keeps.statement)
  fix d assume "P d"
  then show "P (snd (map_prod (\<lambda>t. bind_task t f) id (map_prod Finished id (a d))))"
    using assms(1) by (auto simp: keeps_def split: prod.splits)
  show "task_keeps P (fst (map_prod (\<lambda>t. bind_task t f) id (map_prod Finished id (a d))))"
    using assms(2) [OF \<open>P d\<close>] by (cases "a d"; cases "fst (a d)") (auto intro: task_keeps.finished)
qed

lemma task_keeps_each: "(\<And>x. task_keeps P (f x)) \<Longrightarrow> task_keeps P (each_task f xs)"
  by (induction xs) (auto intro: task_keeps.finished task_keeps_bind)

lemmas task_keeps_intros = task_keeps.finished task_keeps_stmt task_keeps_bind task_keeps_each

lemma interleave_keeps:
  assumes "interleave\<^sup>*\<^sup>* (ts, d) (ts', d')" and "\<And>t. t \<in> set ts \<Longrightarrow> task_keeps P t" and "P d"
  shows "P d'"
proof -
  have "(\<forall>t \<in> set (fst s). task_keeps P t) \<and> P (snd s)" if "interleave\<^sup>*\<^sup>* (ts, d) s" for s
    using that
  proof (induction rule: rtranclp_induct)
    case (step s s')
    from step(2) obtain i us k e t e' where s: "s = (us, e)" "s' = (us[i := t], e')" "i < length us"
      "us ! i = Statement k" "k e = (t, e')" by cases auto
    then have "task_keeps P (Statement k)" using step(3) by (metis fst_conv nth_mem)
    then have "P (snd (k e))" "task_keeps P (fst (k e))" using step(3) s(1) by (auto elim: task_keeps_StatementE)
    with s step(3) show ?case by (auto dest!: set_update_subset_insert [THEN subsetD])
  qed (use assms(2,3) in simp)
  from this [OF assms(1)] show ?thesis by simp
qed

text \<open>Every interleaving ends: tasks are finite.\<close>

inductive rest_of :: "('d, 'a) task \<Rightarrow> ('d, 'a) task \<Rightarrow> bool" where
  "k d = (t, d') \<Longrightarrow> rest_of t (Statement k)"

inductive_cases rest_ofE: "rest_of u (Finished r)" "rest_of u (Statement k)"

lemma wf_rest_of: "wf {(u, t). rest_of u (t :: ('d, 'a) task)}"
proof (rule wfUNIVI)
  fix P :: "('d, 'a) task \<Rightarrow> bool" and t
  assume step: "\<forall>t. (\<forall>u. (u, t) \<in> {(u, t). rest_of u t} \<longrightarrow> P u) \<longrightarrow> P t"
  show "P t"
  proof (induction t)
    case (Finished r)
    show ?case by (rule step [rule_format]) (blast elim: rest_ofE)
  next
    case (Statement k)
    have "P u" if "rest_of u (Statement k)" for u
      using that
    proof (rule rest_ofE(2))
      fix d d' assume "k d = (u, d')"
      then have "u \<in> Basic_BNFs.fsts (k d)" by (simp add: prod_set_defs)
      with Statement rangeI show "P u" by blast
    qed
    then show ?case using step by blast
  qed
qed

lemma interleave_terminates: "wfP (\<lambda>s' s :: ('d, 'a) task list \<times> 'd. interleave s s')"
proof (rule wfp_if_convertible_to_wfp [of _ _ "\<lambda>s. mset (fst s)"])
  show "wfP (\<lambda>M N. (M, N) \<in> mult {(u, t). rest_of u t})" using wf_mult [OF wf_rest_of] by (simp add: wfp_wf_eq)
  fix s s' :: "('d, 'a) task list \<times> 'd"
  assume "interleave s' s"
  then obtain i ts k d t d' where s: "s' = (ts, d)" "s = (ts[i := t], d')" "i < length ts" "ts ! i = Statement k"
    "k d = (t, d')" by cases auto
  define M where "M = mset ts - {#Statement k#}"
  have "mset ts = add_mset (Statement k) M" using s by (simp add: M_def) (metis insert_DiffM nth_mem_mset)
  moreover have "mset (ts[i := t]) = add_mset t M" using s by (simp add: mset_update M_def)
  moreover have "rest_of t (Statement k)" using s(5) by (rule rest_of.intros)
  then have "(M + {#t#}, M + {#Statement k#}) \<in> mult {(u, t). rest_of u t}"
    by (intro one_step_implies_mult) auto
  ultimately show "(mset (fst s), mset (fst s')) \<in> mult {(u, t). rest_of u t}" using s by simp
qed

subsection \<open>Tasks that do not disturb each other\<close>

text \<open>\<open>view i\<close> is the part of the database that belongs to \<open>i\<close>. An action is confined to \<open>i\<close> when its result and what it
  makes of that part depend on that part only, and when it leaves the parts of all others that are apart from
  \<open>i\<close> as they are.\<close>

definition confined ::
  "('d \<Rightarrow> bool) \<Rightarrow> ('i \<Rightarrow> 'd \<Rightarrow> 'v) \<Rightarrow> ('i \<Rightarrow> 'i \<Rightarrow> bool) \<Rightarrow> 'i \<Rightarrow> ('d \<Rightarrow> 'r \<times> 'd) \<Rightarrow> bool" where
  "confined ok view apart i a \<longleftrightarrow>
     (\<forall>d. ok d \<longrightarrow> ok (snd (a d)) \<and> (\<forall>j. apart i j \<longrightarrow> view j (snd (a d)) = view j d)) \<and>
     (\<forall>d e. ok d \<longrightarrow> ok e \<longrightarrow> view i d = view i e \<longrightarrow>
        fst (a d) = fst (a e) \<and> view i (snd (a d)) = view i (snd (a e)))"

inductive confined_task ::
  "('d \<Rightarrow> bool) \<Rightarrow> ('i \<Rightarrow> 'd \<Rightarrow> 'v) \<Rightarrow> ('i \<Rightarrow> 'i \<Rightarrow> bool) \<Rightarrow> 'i \<Rightarrow> ('d, 'a) task \<Rightarrow> bool" for ok view apart i where
  finished: "confined_task ok view apart i (Finished r)"
| statement: "confined ok view apart i k \<Longrightarrow> (\<And>d. confined_task ok view apart i (fst (k d))) \<Longrightarrow>
    confined_task ok view apart i (Statement k)"

inductive_cases confined_StatementE: "confined_task ok view apart i (Statement k)"

lemma confinedI:
  assumes "\<And>d. ok d \<Longrightarrow> ok (snd (a d))" and "\<And>d j. ok d \<Longrightarrow> apart i j \<Longrightarrow> view j (snd (a d)) = view j d"
    and "\<And>d e. ok d \<Longrightarrow> ok e \<Longrightarrow> view i d = view i e \<Longrightarrow>
      fst (a d) = fst (a e) \<and> view i (snd (a d)) = view i (snd (a e))"
  shows "confined ok view apart i a"
  unfolding confined_def using assms by blast

lemma confinedD:
  assumes "confined ok view apart i a" and "ok d"
  shows "ok (snd (a d))" and "apart i j \<Longrightarrow> view j (snd (a d)) = view j d"
    and "ok e \<Longrightarrow> view i d = view i e \<Longrightarrow> fst (a d) = fst (a e)"
    and "ok e \<Longrightarrow> view i d = view i e \<Longrightarrow> view i (snd (a d)) = view i (snd (a e))"
  using assms unfolding confined_def by blast+

lemma confined_map: "confined ok view apart i a \<Longrightarrow> confined ok view apart i (\<lambda>d. map_prod g id (a d))"
  by (rule confinedI; unfold fst_map_prod snd_map_prod id_apply) (blast dest: confinedD arg_cong [of _ _ g])+

lemma confined_pure: "(\<And>d. snd (a d) = d) \<Longrightarrow> (\<And>d e. fst (a d) = fst (a e)) \<Longrightarrow> confined ok view apart i a"
  by (rule confinedI) auto

lemma confined_bind_res:
  assumes a: "confined ok view apart i a" and f: "\<And>x. confined ok view apart i (f x)"
  shows "confined ok view apart i (bind_res a f)"
proof (rule confinedI)
  fix d assume d: "ok d"
  show "ok (snd (bind_res a f d))"
    using confinedD(1) [OF a d] confinedD(1) [OF f] by (auto simp: bind_res_def split: prod.split sum.split)
  fix j assume j: "apart i j"
  show "view j (snd (bind_res a f d)) = view j d"
    using confinedD(1) [OF a d] confinedD(2) [OF a d j] confinedD(2) [OF f _ j]
    by (auto simp: bind_res_def split: prod.split sum.split)
next
  fix d e assume d: "ok d" and e: "ok e" and same: "view i d = view i e"
  note a' = confinedD [OF a d] and f' = confinedD [OF f]
  have "ok (snd (a d))" "ok (snd (a e))" "fst (a d) = fst (a e)" "view i (snd (a d)) = view i (snd (a e))"
    using a'(1,3,4) confinedD(1) [OF a e] e same by blast+
  moreover from this have "fst (f x (snd (a d))) = fst (f x (snd (a e)))"
    "view i (snd (f x (snd (a d)))) = view i (snd (f x (snd (a e))))" for x using f'(3,4) by blast+
  ultimately show "fst (bind_res a f d) = fst (bind_res a f e) \<and> view i (snd (bind_res a f d)) = view i (snd (bind_res a f e))"
    by (cases "fst (a e)") (simp_all add: bind_res_def split_beta)
qed

lemma confined_stmt: "confined ok view apart i a \<Longrightarrow> confined_task ok view apart i (stmt a)"
  unfolding stmt_def by (rule confined_task.statement) (auto intro: confined_map confined_task.finished)

lemma confined_bind:
  "confined_task ok view apart i t \<Longrightarrow> (\<And>x. confined_task ok view apart i (f x)) \<Longrightarrow>
     confined_task ok view apart i (bind_task t f)"
  by (induction rule: confined_task.induct) (auto intro: confined_task.intros confined_map split: sum.split)

lemma confined_each:
  "(\<And>x. x \<in> set xs \<Longrightarrow> confined_task ok view apart i (f x)) \<Longrightarrow> confined_task ok view apart i (each_task f xs)"
  by (induction xs) (auto intro: confined_task.finished confined_bind)

text \<open>A confined task does on two databases with the same view the same.\<close>

lemma run_confined:
  assumes "confined_task ok view apart i t" and "ok d" "ok e" "view i d = view i e"
  shows "fst (run_task t d) = fst (run_task t e) \<and> view i (snd (run_task t d)) = view i (snd (run_task t e))"
  using assms
proof (induction arbitrary: d e rule: confined_task.induct)
  case (statement k)
  note con = confinedD [OF statement(1)]
  have same: "fst (k d) = fst (k e)" "view i (snd (k d)) = view i (snd (k e))" and ok: "ok (snd (k d))" "ok (snd (k e))"
    using statement(4-6) by (blast intro: con)+
  from statement(3) [OF ok same(2), of d] same(1) show ?case by (simp add: prod.case_eq_if)
qed simp

text \<open>Tasks whose parts are apart get, however they alternate, the results they would get alone, and leave in
  their parts what they would leave alone.\<close>

theorem isolated_tasks:
  assumes "interleave\<^sup>*\<^sup>* (ts, d) (ts', d')" and "ok d" and "i < length ts"
    and "\<And>j. j < length ts \<Longrightarrow> confined_task ok view apart (part j) (ts ! j)"
    and "\<And>j k. j < length ts \<Longrightarrow> k < length ts \<Longrightarrow> j \<noteq> k \<Longrightarrow> apart (part j) (part k)"
    and "ts' ! i = Finished r"
  shows "r = fst (run_task (ts ! i) d) \<and> view (part i) d' = view (part i) (snd (run_task (ts ! i) d))"
proof -
  let ?left = "\<lambda>us e j. (fst (run_task (us ! j) e), view (part j) (snd (run_task (us ! j) e)))"
  have "length (fst s) = length ts \<and> ok (snd s) \<and> (\<forall>j < length ts.
      confined_task ok view apart (part j) (fst s ! j) \<and> ?left (fst s) (snd s) j = ?left ts d j)"
    if "interleave\<^sup>*\<^sup>* (ts, d) s" for s
    using that
  proof (induction rule: rtranclp_induct)
    case (step s s')
    from step(2) obtain n us k e t e' where s: "s = (us, e)" "s' = (us[n := t], e')" "n < length us"
      "us ! n = Statement k" "k e = (t, e')" by cases auto
    note IH = step(3) [unfolded s(1) fst_conv snd_conv]
    then have len: "length us = length ts" and "ok e" by simp_all
    have "confined_task ok view apart (part n) (Statement k)" using IH s(3,4) len by metis
    then have con: "confined ok view apart (part n) k" "confined_task ok view apart (part n) (fst (k e))"
      by (auto elim: confined_StatementE)
    have ok: "ok e'" and others: "apart (part n) j \<Longrightarrow> view j e' = view j e" for j
      using confinedD(1,2) [OF con(1) \<open>ok e\<close>] s(5) by simp_all
    have "confined_task ok view apart (part j) (us[n := t] ! j) \<and> ?left (us[n := t]) e' j = ?left ts d j"
      if j: "j < length ts" for j
    proof (cases "j = n")
      case True
      have "run_task (us ! n) e = run_task t e'" using s(4,5) by simp
      moreover from IH j True have "?left us e j = ?left ts d j" by blast
      ultimately have "?left (us[n := t]) e' j = ?left ts d j" using True s(3) by simp
      moreover have "confined_task ok view apart (part j) (us[n := t] ! j)" using con(2) s(3,5) True by simp
      ultimately show ?thesis by blast
    next
      case False
      with others assms(5) j s(3) len have "view (part j) e' = view (part j) e" by metis
      with IH j \<open>ok e\<close> ok run_confined [of ok view apart "part j" "us ! j" e' e] have "?left us e' j = ?left us e j" by simp
      with IH j False show ?thesis by simp
    qed
    with s len ok show ?case by simp
  qed (use assms(2,4) in simp)
  from this [OF assms(1)] assms(3) have "?left ts' d' i = ?left ts d i" by simp
  with assms(6) show ?thesis by simp
qed

end
