(* ===== verification/Concurrent_Store.thy ===== *)
theory Concurrent_Store
  imports Interleaving Queue_Properties
begin

text \<open>
  Articles that are stored at the same time. Several workers take articles from the queue
  (\<^verbatim>\<open>article_worker_count\<close>, \<^verbatim>\<open>src/src/queue.rs\<close>), and every connection stores what IHAVE and TAKETHIS bring; nothing locks
  the tables from one statement of \<^verbatim>\<open>store_article\<close> (\<^verbatim>\<open>src/src/storage/sqlite.rs\<close>) to the next, and no transaction holds
  them together. The operations are given here with their statements one by one; run alone they are those of theories
  \<open>Storage\<close> and \<open>Queue\<close>. Stores with different identifiers and different groups do not disturb each other; without
  one of the two an article can be lost or get two numbers, and the periodic removal of unreferenced messages can
  take one away that is just being stored.
\<close>

subsection \<open>The operations, statement by statement\<close>

definition store_in_group_task :: "ext \<Rightarrow> message \<Rightarrow> string \<Rightarrow> string \<Rightarrow> (db, unit) task" where
  "store_in_group_task X article msg_id grp =
     bind_task (stmt (sql_next_number grp)) (\<lambda>next.
     bind_task (stmt (sql_insert_group_article
        \<lparr>ga_group_name = grp, ga_number = next, ga_message_id = msg_id,
         ga_inserted_at = timestamp (utc_now X)\<rparr>)) (\<lambda>_.
     bind_task (stmt (generate_overview_line (nat next) article)) (\<lambda>overview_data.
     stmt (sql_replace_overview
        \<lparr>ov_group_name = grp, ov_article_number = next, ov_overview_data = overview_data\<rparr>))))"

definition store_article_task :: "ext \<Rightarrow> message \<Rightarrow> (db, unit) task" where
  "store_article_task X article =
     (case extract_message_id article of
        None \<Rightarrow> Finished (Inl (Anyhow ''missing Message-ID''))
      | Some msg_id \<Rightarrow>
          bind_task (stmt (sql_insert_message (message_row_of X article msg_id))) (\<lambda>_.
          each_task (store_in_group_task X article msg_id) (parse_newsgroups_from_message article)))"

text \<open>The end of \<^verbatim>\<open>process_article\<close>: look for the identifier, store the article if it is new.\<close>

definition store_if_new_task :: "ext \<Rightarrow> message \<Rightarrow> (db, unit) task" where
  "store_if_new_task X article =
     (let message_id = (case extract_message_id article of None \<Rightarrow> [] | Some i \<Rightarrow> i)
      in if message_id \<noteq> []
         then bind_task (stmt (get_article_by_id X message_id)) (\<lambda>found.
                if found \<noteq> None then Finished (Inr ()) else store_article_task X article)
         else store_article_task X article)"

definition purge_orphans_task :: "(db, unit) task" where
  "purge_orphans_task = stmt purge_orphan_messages"

text \<open>Alone, the tasks are the operations.\<close>

lemma run_store_article_task: "run_task (store_article_task X a) = store_article X a"
  by (simp add: store_article_task_def store_article_def store_in_group_task_def store_in_group_def [abs_def] fun_eq_iff
      split: option.split)

lemma run_store_if_new_task: "on_storage (run_task (store_if_new_task X a)) w = store_if_new X a w"
proof -
  have "run_task (if found \<noteq> None then Finished (Inr ()) else store_article_task X a) =
      (if found \<noteq> None then ret () else store_article X a)" for found :: "message option"
    by (simp add: run_store_article_task fun_eq_iff)
  then show ?thesis
    by (auto simp: store_if_new_task_def store_if_new_def Let_def run_store_article_task on_storage_def bind_res_def
        split: sum.splits prod.splits)
qed

lemma run_store_if_new:
  "fst (run_task (store_if_new_task X a) (storage w)) = fst (store_if_new X a w)"
  "snd (run_task (store_if_new_task X a) (storage w)) = storage (snd (store_if_new X a w))"
  by (simp_all add: run_store_if_new_task [symmetric] on_storage_def split_beta)

subsection \<open>The invariant\<close>

lemma task_keeps_store_in_group: "task_keeps db_ok (store_in_group_task X a i g)"
  unfolding store_in_group_task_def
proof (rule task_keeps_bind_stmt [OF sql_next_number_ok])
  fix d n d'
  assume "db_ok d" and "sql_next_number g d = (Inr n, d')"
  then have "1 \<le> n \<and> n \<le> i64_max" by (rule sql_next_number_range)
  then show "task_keeps db_ok (bind_task (stmt (sql_insert_group_article
        \<lparr>ga_group_name = g, ga_number = n, ga_message_id = i, ga_inserted_at = timestamp (utc_now X)\<rparr>)) (\<lambda>_.
      bind_task (stmt (generate_overview_line (nat n) a)) (\<lambda>data.
      stmt (sql_replace_overview \<lparr>ov_group_name = g, ov_article_number = n, ov_overview_data = data\<rparr>))))"
    by (intro task_keeps_intros keeps_intros sql_ok) simp_all
qed

lemma task_keeps_store_article: "task_keeps db_ok (store_article_task X a)"
  unfolding store_article_task_def
  by (auto intro!: task_keeps_intros sql_ok task_keeps_store_in_group split: option.split)

lemma task_keeps_store_if_new: "task_keeps db_ok (store_if_new_task X a)"
proof -
  have "keeps db_ok (get_article_by_id X i)" for i
    unfolding get_article_by_id_def by (intro keeps_intros) simp
  then show ?thesis
    unfolding store_if_new_task_def Let_def
    by (auto intro!: task_keeps_intros task_keeps_store_article)
qed

subsection \<open>What a store reads and writes\<close>

text \<open>The message with one identifier, and the entries and overview lines of some groups.\<close>

type_synonym footprint = "string \<times> string set"

definition footprint_of :: "message \<Rightarrow> footprint" where
  "footprint_of a = (case extract_message_id a of None \<Rightarrow> [] | Some i \<Rightarrow> i, set (parse_newsgroups_from_message a))"

definition view :: "footprint \<Rightarrow> db \<Rightarrow> message_row list \<times> group_article_row list \<times> overview_row list" where
  "view p d =
     (filter (\<lambda>m. m_message_id m = fst p) (messages d),
      filter (\<lambda>g. ga_group_name g \<in> snd p) (group_articles d),
      filter (\<lambda>v. ov_group_name v \<in> snd p) (overview d))"

definition apart :: "footprint \<Rightarrow> footprint \<Rightarrow> bool" where
  "apart p q \<longleftrightarrow> fst p \<noteq> fst q \<and> snd p \<inter> snd q = {}"

abbreviation reliable :: "db \<Rightarrow> bool" where "reliable d \<equiv> faults d = []"

abbreviation stays_within :: "footprint \<Rightarrow> (db, 'a) action \<Rightarrow> bool" where
  "stays_within \<equiv> confined reliable view apart"

lemma apart_group: "apart p q \<Longrightarrow> g \<in> snd p \<Longrightarrow> g \<notin> snd q"
  by (auto simp: apart_def)

text \<open>The queries and conditions of the statements, over the view.\<close>

lemma filter_within: "(\<And>x. P x \<Longrightarrow> Q x) \<Longrightarrow> filter P (filter Q xs) = filter P xs"
  by (induction xs) auto

lemma list_ex_within: "(\<And>x. P x \<Longrightarrow> Q x) \<Longrightarrow> list_ex P (filter Q xs) = list_ex P xs"
  by (induction xs) auto

lemma view_messages:
  assumes "view p d = view p e"
  shows "filter (\<lambda>m. m_message_id m = fst p) (messages d) = filter (\<lambda>m. m_message_id m = fst p) (messages e)"
    and "list_ex (\<lambda>m. m_message_id m = fst p) (messages d) = list_ex (\<lambda>m. m_message_id m = fst p) (messages e)"
    and "List.find (\<lambda>m. m_message_id m = fst p) (messages d) = List.find (\<lambda>m. m_message_id m = fst p) (messages e)"
proof -
  show same: "filter (\<lambda>m. m_message_id m = fst p) (messages d) = filter (\<lambda>m. m_message_id m = fst p) (messages e)"
    using assms by (simp add: view_def)
  have "list_ex P xs = (filter P xs \<noteq> [])" for P :: "message_row \<Rightarrow> bool" and xs by (induction xs) auto
  with same show "list_ex (\<lambda>m. m_message_id m = fst p) (messages d) = list_ex (\<lambda>m. m_message_id m = fst p) (messages e)"
    by simp
  have "List.find P xs = (case filter P xs of [] \<Rightarrow> None | x # _ \<Rightarrow> Some x)" for P :: "message_row \<Rightarrow> bool" and xs
    by (induction xs) auto
  with same show "List.find (\<lambda>m. m_message_id m = fst p) (messages d) = List.find (\<lambda>m. m_message_id m = fst p) (messages e)"
    by simp
qed

lemma view_group:
  assumes "view p d = view p e" and "\<And>r. P r \<Longrightarrow> ga_group_name r \<in> snd p"
  shows "filter P (group_articles d) = filter P (group_articles e)"
    and "list_ex P (group_articles d) = list_ex P (group_articles e)"
proof -
  have "filter (\<lambda>r. ga_group_name r \<in> snd p) (group_articles d) = filter (\<lambda>r. ga_group_name r \<in> snd p) (group_articles e)"
    using assms(1) by (simp add: view_def)
  then show "filter P (group_articles d) = filter P (group_articles e)"
    "list_ex P (group_articles d) = list_ex P (group_articles e)"
    using filter_within [of P "\<lambda>r. ga_group_name r \<in> snd p"] list_ex_within [of P "\<lambda>r. ga_group_name r \<in> snd p"] assms(2)
    by metis+
qed

lemma within_query:
  assumes "\<And>d e. view p d = view p e \<Longrightarrow> q d = q e"
  shows "stays_within p (select q)"
proof (rule confinedI)
  fix d e :: db
  assume "reliable d" "reliable e" and same: "view p d = view p e"
  with assms [OF same] show "fst (select q d) = fst (select q e) \<and> view p (snd (select q d)) = view p (snd (select q e))"
    by (simp add: select_ok)
qed (simp_all add: select_ok)

lemma within_insert_message:
  assumes "m_message_id r = fst p"
  shows "stays_within p (sql_insert_message r)"
proof (rule confinedI)
  fix d e :: db
  assume "reliable d" "reliable e" and same: "view p d = view p e"
  with view_messages(2) [OF same] assms
  show "fst (sql_insert_message r d) = fst (sql_insert_message r e) \<and>
      view p (snd (sql_insert_message r d)) = view p (snd (sql_insert_message r e))"
    by (simp add: sql_insert_message_def exec_ok view_def)
qed (use assms in \<open>auto simp: sql_insert_message_def exec_ok view_def apart_def\<close>)

lemma within_next_number:
  assumes "g \<in> snd p"
  shows "stays_within p (sql_next_number g)"
proof (rule confinedI)
  fix d e :: db
  assume "reliable d" "reliable e" and same: "view p d = view p e"
  with view_group(1) [OF same, of "\<lambda>r. ga_group_name r = g"] assms
  show "fst (sql_next_number g d) = fst (sql_next_number g e) \<and>
      view p (snd (sql_next_number g d)) = view p (snd (sql_next_number g e))"
    by (simp add: sql_next_number_def exec_ok Let_def)
qed (simp_all add: sql_next_number_def exec_ok Let_def)

lemma within_insert_group_article:
  assumes "ga_group_name r \<in> snd p" and "ga_message_id r = fst p"
  shows "stays_within p (sql_insert_group_article r)"
proof (rule confinedI)
  fix d e :: db
  assume "reliable d" "reliable e" and same: "view p d = view p e"
  with view_group(2) [OF same, of "\<lambda>g. ga_group_name g = ga_group_name r \<and> ga_number g = ga_number r"]
    view_messages(2) [OF same] assms
  show "fst (sql_insert_group_article r d) = fst (sql_insert_group_article r e) \<and>
      view p (snd (sql_insert_group_article r d)) = view p (snd (sql_insert_group_article r e))"
    by (simp add: sql_insert_group_article_def exec_ok view_def)
qed (use assms in \<open>auto simp: sql_insert_group_article_def exec_ok view_def apart_def\<close>)

lemma within_replace_overview:
  assumes "ov_group_name r \<in> snd p"
  shows "stays_within p (sql_replace_overview r)"
proof (rule confinedI)
  let ?keep = "\<lambda>v. \<not> (ov_group_name v = ov_group_name r \<and> ov_article_number v = ov_article_number r)"
  {
    fix d and q :: footprint
    assume "reliable d" "apart p q"
    then have "ov_group_name r \<notin> snd q" using assms by (auto simp: apart_def)
    then have "filter (\<lambda>v. ov_group_name v \<in> snd q) (filter ?keep (overview d)) = filter (\<lambda>v. ov_group_name v \<in> snd q) (overview d)"
      by (intro filter_within) auto
    with \<open>ov_group_name r \<notin> snd q\<close> \<open>reliable d\<close>
    show "view q (snd (sql_replace_overview r d)) = view q d" by (simp add: sql_replace_overview_def exec_ok view_def)
  }
  fix d e :: db
  assume ok: "reliable d" "reliable e" and same: "view p d = view p e"
  then have "filter (\<lambda>v. ov_group_name v \<in> snd p) (overview d) = filter (\<lambda>v. ov_group_name v \<in> snd p) (overview e)"
    by (simp add: view_def)
  then have "filter ?keep (filter (\<lambda>v. ov_group_name v \<in> snd p) (overview d)) =
      filter ?keep (filter (\<lambda>v. ov_group_name v \<in> snd p) (overview e))" by simp
  then have "filter (\<lambda>v. ov_group_name v \<in> snd p) (filter ?keep (overview d)) =
      filter (\<lambda>v. ov_group_name v \<in> snd p) (filter ?keep (overview e))"
    by (simp only: filter_filter conj_commute)
  with ok same show "fst (sql_replace_overview r d) = fst (sql_replace_overview r e) \<and>
      view p (snd (sql_replace_overview r d)) = view p (snd (sql_replace_overview r e))"
    by (simp add: sql_replace_overview_def exec_ok view_def)
qed (simp add: sql_replace_overview_def exec_ok)

lemma within_find_message: "stays_within p (select (\<lambda>d. h (List.find (\<lambda>m. m_message_id m = fst p) (messages d))))"
  by (rule within_query, drule view_messages(3), simp)

lemma within_get_article_by_id: "stays_within p (get_article_by_id X (fst p))"
proof -
  have "stays_within p (decode_row X row)" for row
    by (rule confined_pure) (auto simp: decode_row_def split: option.split sum.split)
  then show ?thesis
    unfolding get_article_by_id_def by (intro confined_bind_res within_find_message [of p "\<lambda>x. x"])
qed

lemma within_overview_line:
  assumes "extract_message_id a = Some (fst p)"
  shows "stays_within p (generate_overview_line n a)"
proof -
  have "stays_within p (get_message_size (fst p))"
    unfolding get_message_size_def by (rule within_find_message)
  with assms show ?thesis
    unfolding generate_overview_line_def by (simp add: confined_bind_res confined_pure)
qed

lemma within_store_article:
  "confined_task reliable view apart (footprint_of a) (store_article_task X a)"
proof (cases "extract_message_id a")
  case (Some i)
  then have id: "fst (footprint_of a) = i" by (simp add: footprint_of_def)
  have "confined_task reliable view apart (footprint_of a) (store_in_group_task X a i g)"
    if "g \<in> set (parse_newsgroups_from_message a)" for g
    unfolding store_in_group_task_def using that Some id
    by (intro confined_bind confined_stmt within_next_number within_insert_group_article within_overview_line
        within_replace_overview) (simp_all add: footprint_of_def)
  then show ?thesis
    using Some id unfolding store_article_task_def
    by (simp, intro confined_bind confined_stmt within_insert_message confined_each) (simp_all add: message_row_of_def)
qed (simp add: store_article_task_def confined_task.finished)

lemma within_store_if_new:
  "confined_task reliable view apart (footprint_of a) (store_if_new_task X a)"
proof -
  have "(case extract_message_id a of None \<Rightarrow> [] | Some i \<Rightarrow> i) = fst (footprint_of a)" by (simp add: footprint_of_def)
  then show ?thesis
    unfolding store_if_new_task_def Let_def
    by (auto intro!: confined_bind confined_stmt within_get_article_by_id within_store_article confined_task.finished)
qed

subsection \<open>Stores at the same time\<close>

text \<open>C5: stores of articles that share neither identifier nor newsgroup do not disturb each other. As long as
  no statement fails, an article stored by one of several tasks gets the same result, and leaves the same
  message, entries and overview lines, as if it had been stored alone, however the statements of the tasks
  alternate; and they cannot alternate for ever.\<close>

theorem disjoint_stores_do_not_interfere:
  assumes "reliable (storage w)" and "i < length arts"
    and "\<And>j k. j < length arts \<Longrightarrow> k < length arts \<Longrightarrow> j \<noteq> k \<Longrightarrow> apart (footprint_of (arts ! j)) (footprint_of (arts ! k))"
    and "interleave\<^sup>*\<^sup>* (map (store_if_new_task X) arts, storage w) (ts, d)" and "ts ! i = Finished r"
  shows "r = fst (store_if_new X (arts ! i) w) \<and>
    view (footprint_of (arts ! i)) d = view (footprint_of (arts ! i)) (storage (snd (store_if_new X (arts ! i) w)))"
  using isolated_tasks [OF assms(4), of reliable i view apart "\<lambda>j. footprint_of (arts ! j)" r] assms(1-3,5)
    within_store_if_new [of _ X] run_store_if_new [of X "arts ! i" w]
  by (simp add: nth_map)

definition race_article :: "string \<Rightarrow> string \<Rightarrow> message" where
  "race_article i g = \<lparr>headers = [(''Message-ID'', i), (''Newsgroups'', g), (''From'', ''u''), (''Subject'', ''s'')], body = ''hi''\<rparr>"

definition race_server :: server where
  "race_server = sample_server\<lparr>storage := empty_db\<rparr>"

definition apart_articles :: "message list" where
  "apart_articles = [race_article ''<a@x>'' ''alt.a'', race_article ''<b@x>'' ''alt.b'']"

definition apart_run :: "(db, unit) task list \<times> db" where
  "apart_run = schedule [0, 1, 0, 1, 0, 1, 0, 1, 0, 1, 0, 1] (map (store_if_new_task sample_ext) apart_articles, empty_db)"

theorem disjoint_stores_do_not_interfere_witness:
  "fst (store_if_new sample_ext (apart_articles ! 1) race_server) = Inr () \<and>
   view (footprint_of (apart_articles ! 1)) (snd apart_run) =
     view (footprint_of (apart_articles ! 1)) (storage (snd (store_if_new sample_ext (apart_articles ! 1) race_server)))"
proof -
  have "map result_of (fst apart_run) = map Some [Inr (), Inr ()]" by code_simp
  then have fin: "fst apart_run ! 1 = Finished (Inr ())" by (simp add: map_result_of del: list.map)
  have 01: "apart (footprint_of (apart_articles ! 0)) (footprint_of (apart_articles ! 1))"
    "apart (footprint_of (apart_articles ! 1)) (footprint_of (apart_articles ! 0))" by code_simp+
  have two: "length apart_articles = 2" by (simp add: apart_articles_def)
  have reach: "interleave\<^sup>*\<^sup>* (map (store_if_new_task sample_ext) apart_articles, empty_db) (fst apart_run, snd apart_run)"
    unfolding prod.collapse unfolding apart_run_def by (rule schedule_reachable)
  have store: "storage race_server = empty_db" by (simp add: race_server_def)
  have "Inr () = fst (store_if_new sample_ext (apart_articles ! 1) race_server) \<and>
     view (footprint_of (apart_articles ! 1)) (snd apart_run) =
       view (footprint_of (apart_articles ! 1)) (storage (snd (store_if_new sample_ext (apart_articles ! 1) race_server)))"
  proof (rule disjoint_stores_do_not_interfere [OF _ _ _ _ fin])
    show "apart (footprint_of (apart_articles ! j)) (footprint_of (apart_articles ! k))"
      if "j < length apart_articles" "k < length apart_articles" "j \<noteq> k" for j k
      using that 01 two by (auto simp: less_2_cases_iff)
  qed (use store two reach in \<open>simp_all add: empty_db_def\<close>)
  then show ?thesis by simp
qed

text \<open>The tables stay in order however stores and removals alternate and whatever fails.\<close>

lemma concurrent_stores_keep_db_ok:
  assumes "interleave\<^sup>*\<^sup>* (map (store_if_new_task X) arts @ replicate n purge_orphans_task, d) (ts, d')" and "db_ok d"
  shows "db_ok d'"
proof (rule interleave_keeps [where P = db_ok, OF assms(1) _ assms(2)])
  fix t assume "t \<in> set (map (store_if_new_task X) arts @ replicate n purge_orphans_task)"
  then show "task_keeps db_ok t"
    by (auto simp: purge_orphans_task_def purge_orphan_messages_def intro!: task_keeps_store_if_new task_keeps_stmt sql_ok)
qed

subsection \<open>What goes wrong\<close>

text \<open>The statements on small tables without failures.\<close>

lemmas small_step = stmt_def select_def exec_def bind_res_def sql_insert_message_def sql_next_number_def
  sql_insert_group_article_def sql_replace_overview_def sql_delete_orphans_def purge_orphan_messages_def
  purge_orphans_task_def get_message_size_def message_row_of_def

lemmas store_tasks = store_if_new_task_def store_article_task_def store_in_group_task_def get_article_by_id_def decode_row_def
  empty_db_def generate_overview_line_def

definition goes_to :: "message \<Rightarrow> string \<Rightarrow> string \<Rightarrow> bool" where
  "goes_to a i g \<longleftrightarrow> extract_message_id a = Some i \<and> i \<noteq> [] \<and> parse_newsgroups_from_message a = [g]"

lemma lost_run:
  assumes "goes_to a i g" "goes_to b j g" "i \<noteq> j"
  shows "\<exists>d. interleave\<^sup>*\<^sup>* ([store_if_new_task X a, store_if_new_task X b], empty_db)
     ([Finished (Inr ()), Finished (Inl Database)], d) \<and> messages d = [message_row_of X a i, message_row_of X b j] \<and>
     map ga_message_id (group_articles d) = [i] \<and> reliable d"
  by (rule schedule_reaches [of "[0, 1, 0, 1, 0, 1, 0, 1, 0, 0]"]) (use assms in \<open>simp add: goes_to_def store_tasks small_step\<close>)

lemma twice_run:
  assumes "goes_to a i g"
  shows "\<exists>d. interleave\<^sup>*\<^sup>* ([store_if_new_task X a, store_if_new_task X a], empty_db)
     ([Finished (Inr ()), Finished (Inr ())], d) \<and>
     map (\<lambda>r. (ga_group_name r, ga_number r, ga_message_id r)) (group_articles d) = [(g, 1, i), (g, 2, i)]"
  by (rule schedule_reaches [of "[0, 1, 0, 0, 0, 0, 0, 1, 1, 1, 1, 1]"]) (use assms in \<open>simp add: goes_to_def store_tasks small_step\<close>)

text \<open>An article whose message is stored is not stored again.\<close>

lemma known_article_is_left:
  assumes "reliable d" and "json_ok X" and "goes_to a i g"
    and "List.find (\<lambda>m. m_message_id m = i) (messages d) = Some (message_row_of X a i)"
  shows "run_task (store_if_new_task X a) d = (Inr (), d)"
  using assms
  by (simp add: goes_to_def store_if_new_task_def get_article_by_id_def decode_row_def bind_res_def select_ok
      message_row_of_def reconstruct_message_from_row_def json_ok_def)

text \<open>C11: two articles for the same newsgroup, stored at the same time, can be given the same number: the second
  insertion then violates the key of the table and its store fails half way. No entry of any group refers to
  that article, but its message is stored, so that it is taken for a known one when it comes again: it is
  lost. And an article that arrives twice at the same time can be found new twice and then has two entries.\<close>

theorem same_group_stores_race:
  assumes "json_ok X" and "goes_to a i g" "goes_to b j g" "i \<noteq> j"
  shows "(\<exists>d. interleave\<^sup>*\<^sup>* ([store_if_new_task X a, store_if_new_task X b], empty_db)
        ([Finished (Inr ()), Finished (Inl Database)], d) \<and>
      j \<notin> ga_message_id ` set (group_articles d) \<and> run_task (store_if_new_task X b) d = (Inr (), d)) \<and>
    (\<exists>d. interleave\<^sup>*\<^sup>* ([store_if_new_task X a, store_if_new_task X a], empty_db)
        ([Finished (Inr ()), Finished (Inr ())], d) \<and>
      map (\<lambda>r. (ga_group_name r, ga_number r, ga_message_id r)) (group_articles d) = [(g, 1, i), (g, 2, i)])"
proof
  obtain d where d: "interleave\<^sup>*\<^sup>* ([store_if_new_task X a, store_if_new_task X b], empty_db)
      ([Finished (Inr ()), Finished (Inl Database)], d)" "messages d = [message_row_of X a i, message_row_of X b j]"
      "map ga_message_id (group_articles d) = [i]" "reliable d" using lost_run [OF assms(2-4), of X] by (elim exE conjE) (rule that)
  have "j \<notin> set (map ga_message_id (group_articles d))" using assms(4) d(3) by simp
  moreover have "run_task (store_if_new_task X b) d = (Inr (), d)"
    by (rule known_article_is_left [OF d(4) assms(1,3)]) (use assms(4) d(2) in \<open>simp add: message_row_of_def\<close>)
  ultimately show "\<exists>d. interleave\<^sup>*\<^sup>* ([store_if_new_task X a, store_if_new_task X b], empty_db)
        ([Finished (Inr ()), Finished (Inl Database)], d) \<and>
      j \<notin> ga_message_id ` set (group_articles d) \<and> run_task (store_if_new_task X b) d = (Inr (), d)"
    using d(1) by auto
  show "\<exists>d. interleave\<^sup>*\<^sup>* ([store_if_new_task X a, store_if_new_task X a], empty_db)
        ([Finished (Inr ()), Finished (Inr ())], d) \<and>
      map (\<lambda>r. (ga_group_name r, ga_number r, ga_message_id r)) (group_articles d) = [(g, 1, i), (g, 2, i)]"
    by (rule twice_run [OF assms(2)])
qed

lemma goes_to_race: "goes_to (race_article ''<a@x>'' ''alt.a'') ''<a@x>'' ''alt.a''"
  "goes_to (race_article ''<b@x>'' ''alt.a'') ''<b@x>'' ''alt.a''"
  by code_simp+

theorem same_group_stores_race_witness:
  "\<exists>d. interleave\<^sup>*\<^sup>* ([store_if_new_task sample_ext (race_article ''<a@x>'' ''alt.a''),
       store_if_new_task sample_ext (race_article ''<b@x>'' ''alt.a'')], empty_db)
     ([Finished (Inr ()), Finished (Inl Database)], d) \<and> ''<b@x>'' \<notin> ga_message_id ` set (group_articles d)"
  using same_group_stores_race [OF json_ok_sample goes_to_race] by fastforce

text \<open>The removal of messages without entries, at the end of a cleanup or of the removal of a group, can take away
  the message of an article between its first statement and its first entry: the store fails, and nothing of the
  article is left.\<close>

theorem purge_races_with_store:
  assumes "goes_to a i g"
  shows "\<exists>d. interleave\<^sup>*\<^sup>* ([store_if_new_task X a, purge_orphans_task], empty_db)
     ([Finished (Inl Database), Finished (Inr ())], d) \<and> messages d = [] \<and> group_articles d = []"
  by (rule schedule_reaches [of "[0, 0, 1, 0, 0]"]) (use assms in \<open>simp add: goes_to_def store_tasks small_step\<close>)

end
