(* ===== verification/Custom_Filters.thy ===== *)
theory Custom_Filters
  imports Filter_Properties
begin

text \<open>
  The example of custom filters, \<^verbatim>\<open>src/examples/filters/custom_filters.rs\<close>: two more filters, a chain that mixes them with
  those of the server, and what the example prints. (The example declares \<^verbatim>\<open>validate\<close> with five parameters, where the
  interface has one record of them; the bodies are given here for that interface.) The custom filters
  satisfy the contract of a filter, so that what an accepted article satisfies follows as for the server's own chain.
\<close>

text \<open>\<^verbatim>\<open>str::to_lowercase\<close> on U+0000 to U+00FF: the letters of ASCII and of Latin-1, where U+00D7 is no letter.\<close>

definition char_lowercase :: "char \<Rightarrow> char" where
  "char_lowercase c =
     (if is_ascii_uppercase c \<or> 192 \<le> char_code c \<and> char_code c \<le> 222 \<and> char_code c \<noteq> 215
      then char_of (char_code c + 32) else c)"

definition to_lowercase :: "string \<Rightarrow> string" where
  "to_lowercase = map char_lowercase"

definition str_contains :: "string \<Rightarrow> string \<Rightarrow> bool" where
  "str_contains s p = list_ex (\<lambda>i. starts_with (drop i s) p) [0..<Suc (length s)]"

datatype custom_filter =
    BuiltIn article_filter
  | ProfanityFilter "string list"
  | RequiredHeaderFilter string

definition profanity_validate :: "string list \<Rightarrow> message \<Rightarrow> unit result" where
  "profanity_validate blocked_words article =
     (case List.find (\<lambda>(k, _). eq_ignore_ascii_case k ''Subject'') (headers article) of
        None \<Rightarrow> Inr ()
      | Some (_, subject) \<Rightarrow>
          (case List.find (\<lambda>blocked_word. str_contains (to_lowercase subject) (to_lowercase blocked_word)) blocked_words of
             Some blocked_word \<Rightarrow> Inl (Anyhow (''Subject contains blocked word: '' @ blocked_word))
           | None \<Rightarrow> Inr ()))"

definition required_header_validate :: "string \<Rightarrow> message \<Rightarrow> unit result" where
  "required_header_validate required_header article =
     (if \<not> list_ex (\<lambda>(k, _). eq_ignore_ascii_case k required_header) (headers article)
      then Inl (Anyhow (''Missing required header: '' @ required_header)) else Inr ())"

definition custom_validate ::
  "ext \<Rightarrow> config \<Rightarrow> message \<Rightarrow> u64 \<Rightarrow> custom_filter \<Rightarrow> ('z server_scheme, unit) action" where
  "custom_validate X cfg article sz f =
     (case f of
        BuiltIn b \<Rightarrow> filter_validate X cfg article sz b
      | ProfanityFilter ws \<Rightarrow> (\<lambda>w. (profanity_validate ws article, w))
      | RequiredHeaderFilter h \<Rightarrow> (\<lambda>w. (required_header_validate h article, w)))"

fun custom_filter_name :: "custom_filter \<Rightarrow> string" where
  "custom_filter_name (BuiltIn b) = article_filter_name b"
| "custom_filter_name (ProfanityFilter ws) = ''ProfanityFilter''"
| "custom_filter_name (RequiredHeaderFilter h) = ''RequiredHeaderFilter''"

definition create_custom_filter_chain :: "custom_filter list" where
  "create_custom_filter_chain =
     [BuiltIn HeaderFilter, BuiltIn SizeFilter, ProfanityFilter [''spam'', ''scam''],
      RequiredHeaderFilter ''X-Site-Policy'', BuiltIn GroupExistenceFilter, BuiltIn ModerationFilter]"

definition custom_chain_validate ::
  "ext \<Rightarrow> custom_filter list \<Rightarrow> config \<Rightarrow> message \<Rightarrow> u64 \<Rightarrow> ('z server_scheme, unit) action" where
  "custom_chain_validate X chain cfg article sz = for_each (custom_validate X cfg article sz) chain"

subsection \<open>The program of the example\<close>

definition bad_article :: message where
  "bad_article = \<lparr>headers = [(''From'', ''user@example.com''), (''Subject'', ''This is spam content''),
     (''Newsgroups'', ''alt.test'')], body = ''Article body''\<rparr>"

definition good_article :: message where
  "good_article = \<lparr>headers = [(''From'', ''user@example.com''), (''Subject'', ''This is a good article''),
     (''Newsgroups'', ''alt.test''), (''X-Site-Policy'', ''accepted'')], body = ''Article body''\<rparr>"

text \<open>The lines the example prints, for the server of its new databases and its configuration; \<open>shown\<close> is the text of an
  error.\<close>

definition example_usage :: "ext \<Rightarrow> (error \<Rightarrow> string) \<Rightarrow> server \<Rightarrow> string list" where
  "example_usage X shown w =
     (let (bad, w1) = custom_chain_validate X create_custom_filter_chain (config w) bad_article 100 w;
          (good, _) = custom_chain_validate X create_custom_filter_chain (config w) good_article 100 w1
      in [case bad of Inr () \<Rightarrow> ''Article passed validation (unexpected)''
                    | Inl e \<Rightarrow> ''Article failed validation: '' @ shown e,
          case good of Inr () \<Rightarrow> ''Article passed validation''
                     | Inl e \<Rightarrow> ''Article failed validation: '' @ shown e])"

subsection \<open>The contract\<close>

definition custom_meaning :: "ext \<Rightarrow> config \<Rightarrow> message \<Rightarrow> u64 \<Rightarrow> custom_filter \<Rightarrow> 'z server_scheme \<Rightarrow> bool" where
  "custom_meaning X cfg article sz f w \<longleftrightarrow>
     (case f of
        BuiltIn b \<Rightarrow> filter_meaning X cfg article sz b w
      | ProfanityFilter ws \<Rightarrow>
          (\<forall>k subject p. List.find (\<lambda>(k, _). eq_ignore_ascii_case k ''Subject'') (headers article) = Some (k, subject) \<longrightarrow>
             p \<in> set ws \<longrightarrow> \<not> str_contains (to_lowercase subject) (to_lowercase p))
      | RequiredHeaderFilter h \<Rightarrow> has_header article h)"

lemma custom_validate_sound:
  assumes "custom_validate X cfg article sz f w = (Inr (), w')"
  shows "custom_meaning X cfg article sz f w"
proof (cases f)
  case (BuiltIn b)
  with assms filter_validate_sound [of X cfg article sz b w w'] show ?thesis
    by (simp add: custom_validate_def custom_meaning_def)
next
  case (ProfanityFilter ws)
  with assms show ?thesis
    by (auto simp: custom_validate_def custom_meaning_def profanity_validate_def find_None_iff [where xs = ws] split: option.splits)
next
  case (RequiredHeaderFilter h)
  with assms show ?thesis
    by (simp add: custom_validate_def custom_meaning_def required_header_validate_def has_header_def split: if_splits)
qed

lemma moves_custom_validate: "moves (only_keys X (cfg_pgp_key_servers cfg)) (custom_validate X cfg article sz f)"
proof (cases f)
  case (BuiltIn b)
  with moves_filter_validate show ?thesis by (simp add: custom_validate_def)
qed (simp_all add: custom_validate_def moves_def reflpD [OF only_keys_refl])

lemma custom_meaning_back:
  assumes "only_keys X (cfg_pgp_key_servers cfg) w w'" and "custom_meaning X cfg article sz f w'"
  shows "custom_meaning X cfg article sz f w"
  using assms filter_meaning_back [OF assms(1)] by (cases f) (simp_all add: custom_meaning_def)

interpretation custom: filter_contract "custom_validate X cfg article sz" "custom_meaning X cfg article sz"
  "only_keys X (cfg_pgp_key_servers cfg)" for X cfg article sz
  by unfold_locales
     (rule only_keys_refl only_keys_trans moves_custom_validate custom_validate_sound custom_meaning_back;
      assumption?)+

text \<open>What an article that passes the custom chain satisfies, besides what the server's own chain asks for: no blocked
  word in its subject, and the header for the policy of the site.\<close>

theorem custom_chain_sound:
  assumes "custom_chain_validate X create_custom_filter_chain cfg article sz w = (Inr (), w')"
    and "List.find (\<lambda>(k, _). eq_ignore_ascii_case k ''Subject'') (headers article) = Some (k, subject)"
  shows "\<not> str_contains (to_lowercase subject) ''spam''" and "\<not> str_contains (to_lowercase subject) ''scam''"
    and "has_header article ''X-Site-Policy''" and "filter_meaning X cfg article sz ModerationFilter w"
proof -
  note meaning = custom.chain_sound [OF assms(1) [unfolded custom_chain_validate_def]]
  have "ProfanityFilter [''spam'', ''scam''] \<in> set create_custom_filter_chain"
    "RequiredHeaderFilter ''X-Site-Policy'' \<in> set create_custom_filter_chain"
    "BuiltIn ModerationFilter \<in> set create_custom_filter_chain" by (simp_all add: create_custom_filter_chain_def)
  note m = this [THEN meaning]
  have "to_lowercase ''spam'' = ''spam''" "to_lowercase ''scam'' = ''scam''" by code_simp+
  with m assms(2) show "\<not> str_contains (to_lowercase subject) ''spam''" "\<not> str_contains (to_lowercase subject) ''scam''"
    "has_header article ''X-Site-Policy''" "filter_meaning X cfg article sz ModerationFilter w"
    by (auto simp: custom_meaning_def)
qed

text \<open>The example refuses the first article for its subject, and the second one too: its comment says that it should pass if
  the group exists, and nothing creates the group.\<close>

theorem example_refuses_both:
  assumes "\<And>msg. shown (Anyhow msg) = msg"
  shows "example_usage sample_ext shown (sample_server\<lparr>storage := empty_db, auth := empty_adb\<rparr>) =
     [''Article failed validation: Subject contains blocked word: spam'',
      ''Article failed validation: group does not exist'']"
proof -
  let ?w = "sample_server\<lparr>storage := empty_db, auth := empty_adb\<rparr>"
  let ?run = "custom_chain_validate sample_ext create_custom_filter_chain (config ?w)"
  have "fst (?run bad_article 100 ?w) = Inl (Anyhow ''Subject contains blocked word: spam'')"
    "fst (?run good_article 100 (snd (?run bad_article 100 ?w))) = Inl (Anyhow ''group does not exist'')" by code_simp+
  then show ?thesis unfolding example_usage_def Let_def split_beta by (simp add: assms)
qed

end
